(* ===== verification/SysvPrelude.thy ===== *)
theory SysvPrelude
  imports Main "HOL-Library.Word"
begin

unbundle bit_operations_syntax

text \<open>
  Shared vocabulary of the development: the machine integer types of the
  ILP32, little-endian i386 target the headers are compiled for, checked access
  to a C array, and the generic facts on bits, lists and options that the component
  theories use.
\<close>

section \<open>Machine types\<close>

type_synonym u8 = "8 word"
type_synonym u16 = "16 word"
type_synonym u32 = "32 word"
type_synonym u64 = "64 word"

section \<open>C arrays\<close>

text \<open>
  An array object is the list of its elements. Reading or writing outside the
  object is undefined in C; here it is the value \<open>None\<close>.
\<close>

definition mem_get :: "'a list \<Rightarrow> nat \<Rightarrow> 'a option" where
  "mem_get a i = (if i < length a then Some (a ! i) else None)"

definition mem_put :: "'a list \<Rightarrow> nat \<Rightarrow> 'a \<Rightarrow> 'a list option" where
  "mem_put a i v = (if i < length a then Some (a[i := v]) else None)"

text \<open>
  A constant table of the source is compared with a closed form \<open>f\<close> entry by
  entry, starting at index \<open>i\<close>.
\<close>

fun tabulates :: "(nat \<Rightarrow> 'a) \<Rightarrow> nat \<Rightarrow> 'a list \<Rightarrow> bool" where
  "tabulates f i [] = True"
| "tabulates f i (x # xs) = (f i = x \<and> tabulates f (i + 1) xs)"

lemma mem_get_Some [simp]: "i < length a \<Longrightarrow> mem_get a i = Some (a ! i)"
  by (simp add: mem_get_def)

lemma mem_get_eq_None [simp]: "mem_get a i = None \<longleftrightarrow> length a \<le> i"
  by (auto simp: mem_get_def)

lemma mem_put_Some [simp]: "i < length a \<Longrightarrow> mem_put a i v = Some (a[i := v])"
  by (simp add: mem_put_def)

lemma mem_put_eq_None [simp]: "mem_put a i v = None \<longleftrightarrow> length a \<le> i"
  by (auto simp: mem_put_def)

lemma mem_get_put:
  "mem_put a i v = Some b \<Longrightarrow> mem_get b j = (if j = i then Some v else mem_get a j)"
  by (auto simp: mem_put_def mem_get_def split: if_splits)

section \<open>Tables\<close>

lemma tabulates_iff: "tabulates f i xs \<longleftrightarrow> xs = map f [i..<i + length xs]"
proof (induction f i xs rule: tabulates.induct)
  case (2 f i x xs)
  have "[i..<i + length (x # xs)] = i # [i + 1..<(i + 1) + length xs]"
    using upt_conv_Cons [of i "i + length (x # xs)"] by simp
  with 2 show ?case by auto
qed simp

text \<open>The equations that unfold \<^const>\<open>tabulates\<close> on a literal table, and nothing else.\<close>

lemmas tabulates_unfold =
  tabulates.simps add_0 one_add_one numeral_plus_one add_num_simps

section \<open>Bits of words\<close>

lemma xor_right_cancel: "x XOR z = y XOR z \<longleftrightarrow> x = (y :: 'a::len word)"
  by (metis xor.assoc xor_self_eq xor.right_neutral)

lemma and_255: "(x :: 'a::len word) AND 0xFF = take_bit 8 x"
  by (simp add: take_bit_eq_mask mask_eq_exp_minus_1)

lemma word_split_xor: "(x :: 'a::len word) = take_bit n x XOR push_bit n (drop_bit n x)"
  by (rule bit_eqI) (auto simp: bit_simps dest: bit_imp_le_length)

lemma bit_drop_bit_beyond: "LENGTH('a) \<le> n + k \<Longrightarrow> \<not> bit (drop_bit n (x :: 'a::len word)) k"
  by (auto simp: bit_drop_bit_eq dest: bit_imp_le_length)

lemma odd_drop_bit_eqI:
  assumes "odd x = odd y" "drop_bit 1 x = drop_bit 1 (y :: 'a::len word)"
  shows "x = y"
proof (rule bit_eqI)
  fix n
  from assms(2) have "bit (drop_bit 1 x) (n - 1) = bit (drop_bit 1 y) (n - 1)" by simp
  with assms(1) show "bit x n = bit y n"
    by (cases n) (simp_all add: bit_drop_bit_eq bit_0)
qed

section \<open>Powers of two and the order of words\<close>

lemma and_pred_exp: "x AND (2 ^ n - 1) = take_bit n (x :: 'a::len word)"
  by (simp add: take_bit_eq_mask mask_eq_exp_minus_1)

lemma and_neg_exp: "x AND - (2 ^ n) = x - take_bit n (x :: 'a::len word)"
proof -
  have "NOT x AND take_bit n x = 0" by (rule bit_eqI) (simp add: bit_simps)
  then have "x - take_bit n x = x AND NOT (take_bit n x)" by (rule disjunctive_diff_eq_and_not)
  also have "\<dots> = x AND - (2 ^ n)"
    by (rule bit_eqI) (auto simp: minus_exp_eq_not_mask bit_simps)
  finally show ?thesis ..
qed

lemma unat_take_bit: "unat (take_bit n (x :: 'a::len word)) = unat x mod 2 ^ n"
  by (rule trans [OF unsigned_take_bit_eq]) (simp add: take_bit_eq_mod)

lemma unat_drop_bit: "unat (drop_bit n (x :: 'a::len word)) = unat x div 2 ^ n"
  by (rule trans [OF unsigned_drop_bit_eq]) (simp add: drop_bit_eq_div take_bit_nat_eq_self)

lemma take_bit_exp_add: "take_bit n (2 ^ n + y) = take_bit n (y :: 'a::len word)"
proof (cases "n < LENGTH('a)")
  case True
  then show ?thesis
    by transfer (simp add: take_bit_eq_mod min_def)
next
  case False
  then have "(2 ^ n :: 'a word) = 0" by (simp add: not_less)
  then show ?thesis by (metis add_0)
qed

lemma take_bit_pred_minus:
  "take_bit n (2 ^ n - 1 - w) = 2 ^ n - 1 - take_bit n (w :: 'a::len word)"
proof -
  have "take_bit n (2 ^ n - 1 - w) = take_bit n (2 ^ n + NOT w)"
    by (simp add: not_eq_complement algebra_simps)
  also have "\<dots> = take_bit n (NOT w)"
    by (rule take_bit_exp_add)
  also have "\<dots> = mask n - take_bit n w" by (rule take_bit_not_eq_mask_diff)
  finally show ?thesis by (simp add: mask_eq_exp_minus_1)
qed

lemma word_less_bitI:
  assumes "\<not> bit a k" "bit b k" "\<And>j. k < j \<Longrightarrow> bit a j = bit b j"
  shows "a < (b :: 'a::len word)"
proof -
  have "drop_bit (Suc k) a = drop_bit (Suc k) b"
    by (rule bit_eqI) (simp add: bit_drop_bit_eq assms(3))
  then have "unat (drop_bit (Suc k) a) = unat (drop_bit (Suc k) b)" by simp
  then have half: "unat a div 2 ^ k div 2 = unat b div 2 ^ k div 2"
    unfolding unat_drop_bit by (simp only: power_Suc2 div_mult2_eq)
  have odd: "odd (unat w div 2 ^ k) \<longleftrightarrow> bit w k" for w :: "'a word"
    by (rule trans [OF bit_iff_odd [symmetric]]) (simp add: bit_unsigned_iff)
  have "even (unat a div 2 ^ k)" "odd (unat b div 2 ^ k)" using assms(1,2) odd by blast+
  with half have "unat a div 2 ^ k < unat b div 2 ^ k" by (auto elim!: evenE oddE)
  then have "unat a < unat b" by (rule contrapos_pp) (simp add: div_le_mono not_less)
  then show ?thesis by (simp add: word_less_nat_alt)
qed

lemma word_less_bitE:
  assumes "a < (b :: 'a::len word)"
  obtains k where "\<not> bit a k" "bit b k" "\<And>j. k < j \<Longrightarrow> bit a j = bit b j"
proof -
  let ?D = "{k. bit a k \<noteq> bit b k}"
  have fin: "finite ?D" by (rule finite_subset [of _ "{..<LENGTH('a)}"]) (auto dest: bit_imp_le_length)
  have ne: "?D \<noteq> {}"
  proof
    assume "?D = {}"
    then have "bit a n = bit b n" for n by blast
    then have "a = b" by (rule bit_eqI)
    with assms show False by simp
  qed
  define k where "k = Max ?D"
  have k: "bit a k \<noteq> bit b k" using Max_in [OF fin ne] by (simp add: k_def)
  have above: "bit a j = bit b j" if "k < j" for j
    using Max_ge [OF fin, of j] that by (auto simp: k_def)
  have "\<not> bit a k"
  proof
    assume "bit a k"
    then have "b < a" using k above by (intro word_less_bitI [of b k a]) simp_all
    then show False using assms by simp
  qed
  with k above show thesis by (intro that [of k]) simp_all
qed

lemma unat_2_power: "n < LENGTH('a) \<Longrightarrow> unat (2 ^ n :: 'a::len word) = 2 ^ n"
  using unat_of_nat [of "2 ^ n", where 'a = 'a] by simp

lemma take_bit_push_bit_self: "take_bit n (push_bit n x) = (0 :: 'a::len word)"
  by (rule bit_eqI) (auto simp: bit_simps)

lemma mask_less_iff: "2 ^ n - 1 < (w :: 'a::len word) \<longleftrightarrow> drop_bit n w \<noteq> 0"
proof (cases "n < LENGTH('a)")
  case True
  have "unat (2 ^ n - 1 :: 'a word) = 2 ^ n - 1"
    using True by (simp add: unat_minus_one unat_2_power)
  then have "2 ^ n - 1 < w \<longleftrightarrow> 2 ^ n - 1 < unat w"
    by (simp only: word_less_nat_alt)
  also have "\<dots> \<longleftrightarrow> 2 ^ n \<le> unat w"
    using zero_less_power [of "2 :: nat" n] by linarith
  also have "\<dots> \<longleftrightarrow> unat (drop_bit n w) \<noteq> 0"
    by (simp add: unat_drop_bit div_eq_0_iff not_less)
  finally show ?thesis by (simp only: unat_eq_0)
next
  case False
  then have "(2 ^ n :: 'a word) = 0" by (simp add: not_less)
  moreover have "drop_bit n w = 0" using False by (auto simp: bit_eq_iff bit_drop_bit_beyond)
  ultimately show ?thesis by (metis diff_0 not_less word_order.extremum)
qed

lemma bit_unat: "bit (unat w) k \<longleftrightarrow> bit (w :: 'a::len word) k"
  by (simp add: bit_unsigned_iff)

lemma and_low_masks:
  "x AND 0x7f = take_bit 7 (x :: 'a::len word)" "x AND 0xff = take_bit 8 x"
  "x AND 0x3fff = take_bit 14 x" "x AND 0xffff = take_bit 16 x"
  "x AND 0x3ffff = take_bit 18 x" "x AND 0xffffffff = take_bit 32 x"
  by (simp_all add: take_bit_eq_mask mask_eq_exp_minus_1)

lemma less_masks:
  "0x7f < x \<longleftrightarrow> drop_bit 7 (x :: 'a::len word) \<noteq> 0" "0xff < x \<longleftrightarrow> drop_bit 8 x \<noteq> 0"
  "0x3fff < x \<longleftrightarrow> drop_bit 14 x \<noteq> 0" "0x3ffff < x \<longleftrightarrow> drop_bit 18 x \<noteq> 0"
  using mask_less_iff [of 7 x] mask_less_iff [of 8 x] mask_less_iff [of 14 x] mask_less_iff [of 18 x]
  by simp_all

lemma bit_drop_0: "drop_bit n (x :: 'a::len word) = 0 \<Longrightarrow> n \<le> k \<Longrightarrow> \<not> bit x k"
proof
  assume zero: "drop_bit n x = 0" and "n \<le> k" "bit x k"
  then have "bit (drop_bit n x) (k - n)" unfolding bit_drop_bit_eq by simp
  with zero show False by simp
qed

lemma unat_u32_less: "unat (b :: u32) < 4294967296"
proof -
  have "unat b < 2 ^ LENGTH(32)" by (rule unsigned_less)
  then show ?thesis by simp
qed

end
