(* ===== verification/Crc32.thy ===== *)
theory Crc32
  imports SysvPrelude
begin

unbundle bit_operations_syntax

text \<open>
  \<^verbatim>\<open>src/include/sys/crc32.h\<close>: the CRC-32 macros. \<open>CRC32_INIT\<close> fills a lookup
  table for a polynomial, \<open>CRC32\<close> and \<open>CRC32_STRING\<close> run over a sized buffer and over
  a NUL-terminated string with such a table, and \<open>CRC32_TABLE\<close> is the table the
  header ships for \<open>CRC32_POLY\<close>. The reference is the bit-serial algorithm that the
  header's comment gives as the definition of a CRC; the lemmas show that the table
  is the one \<open>CRC32_INIT\<close> computes, that the table-driven loops agree with the
  bit-serial definition, and the error detection the comment claims.
\<close>

section \<open>The macros\<close>

definition CRC32_POLY :: u32 where
  "CRC32_POLY = 0xEDB88320"

definition CRC32_TABLE :: "u32 list" where
  "CRC32_TABLE = [
    0x00000000, 0x77073096, 0xEE0E612C, 0x990951BA, 0x076DC419, 0x706AF48F,
    0xE963A535, 0x9E6495A3, 0x0EDB8832, 0x79DCB8A4, 0xE0D5E91E, 0x97D2D988,
    0x09B64C2B, 0x7EB17CBD, 0xE7B82D07, 0x90BF1D91, 0x1DB71064, 0x6AB020F2,
    0xF3B97148, 0x84BE41DE, 0x1ADAD47D, 0x6DDDE4EB, 0xF4D4B551, 0x83D385C7,
    0x136C9856, 0x646BA8C0, 0xFD62F97A, 0x8A65C9EC, 0x14015C4F, 0x63066CD9,
    0xFA0F3D63, 0x8D080DF5, 0x3B6E20C8, 0x4C69105E, 0xD56041E4, 0xA2677172,
    0x3C03E4D1, 0x4B04D447, 0xD20D85FD, 0xA50AB56B, 0x35B5A8FA, 0x42B2986C,
    0xDBBBC9D6, 0xACBCF940, 0x32D86CE3, 0x45DF5C75, 0xDCD60DCF, 0xABD13D59,
    0x26D930AC, 0x51DE003A, 0xC8D75180, 0xBFD06116, 0x21B4F4B5, 0x56B3C423,
    0xCFBA9599, 0xB8BDA50F, 0x2802B89E, 0x5F058808, 0xC60CD9B2, 0xB10BE924,
    0x2F6F7C87, 0x58684C11, 0xC1611DAB, 0xB6662D3D, 0x76DC4190, 0x01DB7106,
    0x98D220BC, 0xEFD5102A, 0x71B18589, 0x06B6B51F, 0x9FBFE4A5, 0xE8B8D433,
    0x7807C9A2, 0x0F00F934, 0x9609A88E, 0xE10E9818, 0x7F6A0DBB, 0x086D3D2D,
    0x91646C97, 0xE6635C01, 0x6B6B51F4, 0x1C6C6162, 0x856530D8, 0xF262004E,
    0x6C0695ED, 0x1B01A57B, 0x8208F4C1, 0xF50FC457, 0x65B0D9C6, 0x12B7E950,
    0x8BBEB8EA, 0xFCB9887C, 0x62DD1DDF, 0x15DA2D49, 0x8CD37CF3, 0xFBD44C65,
    0x4DB26158, 0x3AB551CE, 0xA3BC0074, 0xD4BB30E2, 0x4ADFA541, 0x3DD895D7,
    0xA4D1C46D, 0xD3D6F4FB, 0x4369E96A, 0x346ED9FC, 0xAD678846, 0xDA60B8D0,
    0x44042D73, 0x33031DE5, 0xAA0A4C5F, 0xDD0D7CC9, 0x5005713C, 0x270241AA,
    0xBE0B1010, 0xC90C2086, 0x5768B525, 0x206F85B3, 0xB966D409, 0xCE61E49F,
    0x5EDEF90E, 0x29D9C998, 0xB0D09822, 0xC7D7A8B4, 0x59B33D17, 0x2EB40D81,
    0xB7BD5C3B, 0xC0BA6CAD, 0xEDB88320, 0x9ABFB3B6, 0x03B6E20C, 0x74B1D29A,
    0xEAD54739, 0x9DD277AF, 0x04DB2615, 0x73DC1683, 0xE3630B12, 0x94643B84,
    0x0D6D6A3E, 0x7A6A5AA8, 0xE40ECF0B, 0x9309FF9D, 0x0A00AE27, 0x7D079EB1,
    0xF00F9344, 0x8708A3D2, 0x1E01F268, 0x6906C2FE, 0xF762575D, 0x806567CB,
    0x196C3671, 0x6E6B06E7, 0xFED41B76, 0x89D32BE0, 0x10DA7A5A, 0x67DD4ACC,
    0xF9B9DF6F, 0x8EBEEFF9, 0x17B7BE43, 0x60B08ED5, 0xD6D6A3E8, 0xA1D1937E,
    0x38D8C2C4, 0x4FDFF252, 0xD1BB67F1, 0xA6BC5767, 0x3FB506DD, 0x48B2364B,
    0xD80D2BDA, 0xAF0A1B4C, 0x36034AF6, 0x41047A60, 0xDF60EFC3, 0xA867DF55,
    0x316E8EEF, 0x4669BE79, 0xCB61B38C, 0xBC66831A, 0x256FD2A0, 0x5268E236,
    0xCC0C7795, 0xBB0B4703, 0x220216B9, 0x5505262F, 0xC5BA3BBE, 0xB2BD0B28,
    0x2BB45A92, 0x5CB36A04, 0xC2D7FFA7, 0xB5D0CF31, 0x2CD99E8B, 0x5BDEAE1D,
    0x9B64C2B0, 0xEC63F226, 0x756AA39C, 0x026D930A, 0x9C0906A9, 0xEB0E363F,
    0x72076785, 0x05005713, 0x95BF4A82, 0xE2B87A14, 0x7BB12BAE, 0x0CB61B38,
    0x92D28E9B, 0xE5D5BE0D, 0x7CDCEFB7, 0x0BDBDF21, 0x86D3D2D4, 0xF1D4E242,
    0x68DDB3F8, 0x1FDA836E, 0x81BE16CD, 0xF6B9265B, 0x6FB077E1, 0x18B74777,
    0x88085AE6, 0xFF0F6A70, 0x66063BCA, 0x11010B5C, 0x8F659EFF, 0xF862AE69,
    0x616BFFD3, 0x166CCF45, 0xA00AE278, 0xD70DD2EE, 0x4E048354, 0x3903B3C2,
    0xA7672661, 0xD06016F7, 0x4969474D, 0x3E6E77DB, 0xAED16A4A, 0xD9D65ADC,
    0x40DF0B66, 0x37D83BF0, 0xA9BCAE53, 0xDEBB9EC5, 0x47B2CF7F, 0x30B5FFE9,
    0xBDBDF21C, 0xCABAC28A, 0x53B39330, 0x24B4A3A6, 0xBAD03605, 0xCDD70693,
    0x54DE5729, 0x23D967BF, 0xB3667A2E, 0xC4614AB8, 0x5D681B02, 0x2A6F2B94,
    0xB40BBE37, 0xC30C8EA1, 0x5A05DF1B, 0x2D02EF8D]"

definition crc32_shift :: "u32 \<Rightarrow> u32 \<Rightarrow> u32" where
  "crc32_shift poly x = drop_bit 1 x XOR (- (x AND 1) AND poly)"

primrec crc32_entry :: "u32 \<Rightarrow> nat \<Rightarrow> u32 \<Rightarrow> u32" where
  "crc32_entry poly 0 x = x"
| "crc32_entry poly (Suc j) x = crc32_entry poly j (crc32_shift poly x)"

fun crc32_fill :: "u32 \<Rightarrow> nat list \<Rightarrow> u32 list \<Rightarrow> u32 list option" where
  "crc32_fill poly [] table = Some table"
| "crc32_fill poly (i # is) table =
     (case mem_put table i (crc32_entry poly 8 (of_nat i)) of
        None \<Rightarrow> None
      | Some t \<Rightarrow> crc32_fill poly is t)"

definition CRC32_INIT :: "u32 list \<Rightarrow> u32 \<Rightarrow> u32 list option" where
  "CRC32_INIT table poly = crc32_fill poly [0..<256] table"

definition crc32_step :: "u32 list \<Rightarrow> u32 \<Rightarrow> u8 \<Rightarrow> u32 option" where
  "crc32_step table crc b =
     (case mem_get table (unat ((crc XOR ucast b) AND 0xFF)) of
        None \<Rightarrow> None
      | Some v \<Rightarrow> Some (drop_bit 8 crc XOR v))"

fun crc32_loop :: "u32 list \<Rightarrow> u32 \<Rightarrow> u8 list \<Rightarrow> u32 option" where
  "crc32_loop table crc [] = Some crc"
| "crc32_loop table crc (b # bs) =
     (case crc32_step table crc b of
        None \<Rightarrow> None
      | Some crc' \<Rightarrow> crc32_loop table crc' bs)"

definition CRC32 :: "u8 list \<Rightarrow> nat \<Rightarrow> u32 \<Rightarrow> u32 list \<Rightarrow> u32 option" where
  "CRC32 buf sz start table =
     (if sz \<le> length buf then crc32_loop table start (take sz buf) else None)"

fun crc32_string_loop :: "u32 list \<Rightarrow> u32 \<Rightarrow> nat \<Rightarrow> u8 list \<Rightarrow> (u32 \<times> nat) option" where
  "crc32_string_loop table crc n [] = None"
| "crc32_string_loop table crc n (c # cs) =
     (if c = 0 then Some (crc, n)
      else case crc32_step table crc c of
             None \<Rightarrow> None
           | Some crc' \<Rightarrow> crc32_string_loop table crc' (Suc n) cs)"

definition CRC32_STRING :: "u8 list \<Rightarrow> u32 \<Rightarrow> u32 list \<Rightarrow> (u32 \<times> nat) option" where
  "CRC32_STRING str start table = crc32_string_loop table start 0 str"

section \<open>The bit-serial reference\<close>

text \<open>
  The loop over bits of the header's comment: the low bit of the register is
  compared with the data bit, and the polynomial is folded in when they differ.
\<close>

definition crc32_bit :: "u32 \<Rightarrow> u32 \<Rightarrow> bool \<Rightarrow> u32" where
  "crc32_bit poly crc b =
     (if b = odd crc then drop_bit 1 crc else drop_bit 1 crc XOR poly)"

fun crc32_bits :: "u32 \<Rightarrow> u32 \<Rightarrow> bool list \<Rightarrow> u32" where
  "crc32_bits poly crc [] = crc"
| "crc32_bits poly crc (b # bs) = crc32_bits poly (crc32_bit poly crc b) bs"

definition byte_bits :: "u8 \<Rightarrow> bool list" where
  "byte_bits b = map (bit b) [0..<8]"

definition bytes_bits :: "u8 list \<Rightarrow> bool list" where
  "bytes_bits bs = concat (map byte_bits bs)"

text \<open>The table \<open>CRC32_INIT\<close> leaves, and the register value of at most 32 data bits.\<close>

definition crc32_tab :: "u32 \<Rightarrow> u32 list" where
  "crc32_tab poly = map (\<lambda>k. crc32_entry poly 8 (of_nat k)) [0..<256]"

definition bits_word :: "bool list \<Rightarrow> u32" where
  "bits_word bs = horner_sum of_bool 2 bs"

section \<open>One step\<close>

lemma crc32_shift_alt:
  "crc32_shift poly x = (if odd x then drop_bit 1 x XOR poly else drop_bit 1 x)"
proof -
  have "x AND 1 = of_bool (odd x)" by (simp add: and_one_eq mod2_eq_if)
  then show ?thesis by (auto simp: crc32_shift_def)
qed

lemma crc32_shift_xor: "crc32_shift poly (x XOR y) = crc32_shift poly x XOR crc32_shift poly y"
  by (auto simp: crc32_shift_alt even_xor_iff xor.assoc xor.commute xor.left_commute)

lemma crc32_bit_shift: "crc32_bit poly crc b = crc32_shift poly (crc XOR of_bool b)"
  by (auto simp: crc32_bit_def crc32_shift_alt even_xor_iff drop_bit_Suc)

lemma crc32_shift_push: "\<not> bit y 31 \<Longrightarrow> crc32_shift poly (push_bit 1 y) = y"
proof (rule bit_eqI)
  fix n assume "\<not> bit y 31" "possible_bit TYPE(u32) n"
  then show "bit (crc32_shift poly (push_bit 1 y)) n = bit y n"
    by (cases "n = 31") (auto simp: crc32_shift_alt bit_push_bit_iff bit_drop_bit_eq simp del: push_bit_Suc push_bit_of_Suc_0)
qed


lemma crc32_shift_bit31: "bit poly 31 \<Longrightarrow> bit (crc32_shift poly z) 31 = odd z"
proof -
  have "\<not> bit (drop_bit 1 z) 31" by (auto simp: bit_drop_bit_eq dest: bit_imp_le_length)
  then show "bit poly 31 \<Longrightarrow> ?thesis" by (simp add: crc32_shift_alt bit_xor_iff)
qed

lemma crc32_shift_inj:
  assumes "bit poly 31" and eq: "crc32_shift poly x = crc32_shift poly y"
  shows "x = y"
proof (rule odd_drop_bit_eqI)
  show o: "odd x = odd y" using assms by (metis crc32_shift_bit31)
  show "drop_bit 1 x = drop_bit 1 y"
    using eq o by (simp add: crc32_shift_alt xor_right_cancel split: if_splits)
qed

lemma crc32_bits_append: "crc32_bits poly crc (xs @ ys) = crc32_bits poly (crc32_bits poly crc xs) ys"
  by (induction xs arbitrary: crc) auto

lemma crc32_entry_funpow: "crc32_entry poly n x = (crc32_shift poly ^^ n) x"
  by (induction n arbitrary: x) (simp_all add: funpow_swap1)

lemma crc32_shift_funpow_xor:
  "(crc32_shift poly ^^ n) (x XOR y) = (crc32_shift poly ^^ n) x XOR (crc32_shift poly ^^ n) y"
  by (induction n) (simp_all add: crc32_shift_xor)

lemma crc32_shift_funpow_push:
  "(\<And>k. 32 \<le> n + k \<Longrightarrow> \<not> bit y k) \<Longrightarrow> (crc32_shift poly ^^ n) (push_bit n y) = y"
proof (induction n)
  case (Suc n)
  then have nb: "\<not> bit (push_bit n y) 31"
    by (cases "n \<le> 31") (auto simp: bit_push_bit_iff)
  have "push_bit (Suc n) y = push_bit 1 (push_bit n y)"
    by (simp only: push_bit_push_bit plus_1_eq_Suc)
  moreover have "(crc32_shift poly ^^ n) (push_bit n y) = y"
    using Suc.prems by (intro Suc.IH) simp
  ultimately show ?case
    using crc32_shift_push [OF nb, of poly] by (simp only: funpow_Suc_right comp_def)
qed simp

lemma bit_bits_word: "length bs \<le> 32 \<Longrightarrow> bit (bits_word bs) n \<longleftrightarrow> n < length bs \<and> bs ! n"
  by (auto simp: bits_word_def bit_horner_sum_bit_word_iff)

lemma crc32_bits_word:
  "length bs \<le> 32 \<Longrightarrow>
   crc32_bits poly crc bs = (crc32_shift poly ^^ length bs) (crc XOR bits_word bs)"
proof (induction bs arbitrary: crc)
  case Nil
  then show ?case by (simp add: bits_word_def)
next
  case (Cons b bs)
  have nb: "\<not> bit (bits_word bs) 31"
    using Cons.prems bit_bits_word [of bs 31] by simp
  have "bits_word (b # bs) = of_bool b XOR push_bit 1 (bits_word bs)"
    using Cons.prems
    by (intro bit_eqI)
       (auto simp: bit_bits_word bit_xor_iff bit_push_bit_iff nth_Cons bit_of_bool_iff
         simp del: push_bit_Suc push_bit_of_Suc_0 split: nat.splits)
  then have "crc32_shift poly (crc XOR bits_word (b # bs)) = crc32_bit poly crc b XOR bits_word bs"
    using crc32_shift_push [OF nb, of poly]
    by (simp only: xor.assoc [symmetric] crc32_shift_xor crc32_bit_shift)
  with Cons show ?case by (simp add: funpow_swap1)
qed

lemma length_byte_bits [simp]: "length (byte_bits b) = 8"
  by (simp add: byte_bits_def)

lemma byte_bits_literal:
  "byte_bits b = [odd b, bit b 1, bit b 2, bit b 3, bit b 4, bit b 5, bit b 6, bit b 7]"
  by (simp add: byte_bits_def upt_rec bit_0 numeral_eq_Suc)

lemma crc32_step_bits:
  "mem_get table (unat ((crc XOR ucast b) AND 0xFF)) =
     Some (crc32_entry poly 8 ((crc XOR ucast b) AND 0xFF)) \<Longrightarrow>
   crc32_step table crc b = Some (crc32_bits poly crc (byte_bits b))"
proof -
  let ?x = "crc XOR ucast b"
  have w: "bits_word (byte_bits b) = ucast b"
  proof (rule bit_eqI)
    fix n show "bit (bits_word (byte_bits b)) n = bit (ucast b :: u32) n"
      by (cases "n < 8") (auto simp: bit_bits_word byte_bits_def bit_ucast_iff dest: bit_imp_le_length)
  qed
  have "?x = (?x AND 0xFF) XOR push_bit 8 (drop_bit 8 ?x)"
    unfolding and_255 by (rule word_split_xor)
  then have "(crc32_shift poly ^^ 8) ?x =
      (crc32_shift poly ^^ 8) (?x AND 0xFF) XOR (crc32_shift poly ^^ 8) (push_bit 8 (drop_bit 8 ?x))"
    by (metis crc32_shift_funpow_xor)
  moreover have "(crc32_shift poly ^^ 8) (push_bit 8 (drop_bit 8 ?x)) = drop_bit 8 ?x"
    by (rule crc32_shift_funpow_push) (rule bit_drop_bit_beyond, simp)
  ultimately have "(crc32_shift poly ^^ 8) ?x = crc32_entry poly 8 (?x AND 0xFF) XOR drop_bit 8 ?x"
    by (simp add: crc32_entry_funpow)
  moreover have "drop_bit 8 ?x = drop_bit 8 crc"
    by (rule bit_eqI) (auto simp: bit_simps dest: bit_imp_le_length)
  ultimately have "crc32_bits poly crc (byte_bits b) = drop_bit 8 crc XOR crc32_entry poly 8 (?x AND 0xFF)"
    using crc32_bits_word [of "byte_bits b" poly crc] by (simp add: w xor.commute)
  then show "mem_get table (unat (?x AND 0xFF)) = Some (crc32_entry poly 8 (?x AND 0xFF)) \<Longrightarrow> ?thesis"
    by (simp add: crc32_step_def)
qed

lemma crc32_fill_upt:
  "i \<le> n \<Longrightarrow> n \<le> length table \<Longrightarrow> crc32_fill poly [i..<n] table =
     Some (take i table @ map (\<lambda>k. crc32_entry poly 8 (of_nat k)) [i..<n] @ drop n table)"
proof (induction "n - i" arbitrary: i table)
  case 0
  then show ?case by simp
next
  case (Suc d)
  let ?v = "crc32_entry poly 8 (of_nat i)"
  have u: "[i..<n] = i # [Suc i..<n]" and lt: "i < length table"
    using Suc.hyps(2) Suc.prems by (simp_all add: upt_conv_Cons)
  have "crc32_fill poly [Suc i..<n] (table[i := ?v]) =
      Some (take (Suc i) (table[i := ?v]) @
        map (\<lambda>k. crc32_entry poly 8 (of_nat k)) [Suc i..<n] @ drop n (table[i := ?v]))"
    using Suc.hyps(2) Suc.prems by (intro Suc.hyps(1)) auto
  moreover have "take (Suc i) (table[i := ?v]) = take i table @ [?v]"
    using lt by (simp add: take_Suc_conv_app_nth)
  ultimately show ?case
    using lt Suc.hyps(2) by (simp add: u)
qed

lemma crc32_fill_short:
  "i \<le> length table \<Longrightarrow> length table < n \<Longrightarrow> crc32_fill poly [i..<n] table = None"
proof (induction "n - i" arbitrary: i table)
  case (Suc d)
  have u: "[i..<n] = i # [Suc i..<n]"
    using Suc.hyps(2) by (simp add: upt_conv_Cons)
  show ?case
  proof (cases "i < length table")
    case True
    then have "crc32_fill poly [Suc i..<n] (table[i := crc32_entry poly 8 (of_nat i)]) = None"
      using Suc.hyps(2) Suc.prems by (intro Suc.hyps(1)) auto
    with True show ?thesis by (simp add: u)
  next
    case False
    then show ?thesis by (simp add: u mem_put_def)
  qed
qed simp

lemma CRC32_INIT_eq:
  "CRC32_INIT table poly =
     (if 256 \<le> length table then Some (crc32_tab poly @ drop 256 table) else None)"
  by (simp add: CRC32_INIT_def crc32_tab_def crc32_fill_upt crc32_fill_short)

lemma crc32_tab_lookup:
  "mem_get (crc32_tab poly @ rest) (unat (x AND 0xFF)) = Some (crc32_entry poly 8 (x AND 0xFF))"
proof -
  have "x AND 0xFF \<le> 0xFF" by (rule word_and_le1)
  then have "unat (x AND 0xFF) < 256" by (simp add: word_le_nat_alt)
  then show ?thesis by (simp add: crc32_tab_def mem_get_def nth_append)
qed

lemma crc32_loop_bits:
  "crc32_loop (crc32_tab poly @ rest) crc bs = Some (crc32_bits poly crc (bytes_bits bs))"
  by (induction bs arbitrary: crc)
     (simp_all add: crc32_step_bits crc32_tab_lookup bytes_bits_def crc32_bits_append)

lemma CRC32_bits:
  assumes "CRC32_INIT table0 poly = Some table" and "n \<le> length buf"
  shows "CRC32 buf n start table = Some (crc32_bits poly start (bytes_bits (take n buf)))"
  using assms by (auto simp: CRC32_def CRC32_INIT_eq crc32_loop_bits split: if_splits)

lemma crc32_bits_inj_start:
  assumes "bit poly 31" "crc32_bits poly c bs = crc32_bits poly d bs" shows "c = d"
  using assms(2)
proof (induction bs arbitrary: c d)
  case (Cons b bs)
  then have "crc32_bit poly c b = crc32_bit poly d b" by simp
  then have "c XOR of_bool b = d XOR of_bool b"
    using crc32_shift_inj [OF assms(1)] by (simp add: crc32_bit_shift)
  then show ?case by (simp add: xor_right_cancel)
qed simp

lemma bits_word_inj:
  assumes "length xs = length ys" "length xs \<le> 32" "bits_word xs = bits_word ys"
  shows "xs = ys"
  using assms bit_bits_word [of xs] bit_bits_word [of ys]
  by (intro nth_equalityI) auto

lemma crc32_bits_burst:
  assumes poly: "bit poly 31" and len: "length e = length f" "length e \<le> 32"
    and eq: "crc32_bits poly c (p @ e @ q) = crc32_bits poly c (p @ f @ q)"
  shows "e = f"
proof -
  let ?d = "crc32_bits poly c p"
  have "crc32_bits poly ?d e = crc32_bits poly ?d f"
    using eq crc32_bits_inj_start [OF poly] by (simp add: crc32_bits_append)
  then have "(crc32_shift poly ^^ length e) (?d XOR bits_word e) =
      (crc32_shift poly ^^ length e) (?d XOR bits_word f)"
    using len by (simp add: crc32_bits_word)
  moreover have "inj (crc32_shift poly ^^ length e)"
    using crc32_shift_inj [OF poly] by (intro inj_fn) (simp add: inj_def)
  ultimately have "?d XOR bits_word e = ?d XOR bits_word f" by (simp add: inj_eq)
  then have "bits_word e = bits_word f" by (metis xor.commute xor_right_cancel)
  then show ?thesis using len by (intro bits_word_inj)
qed

lemma crc32_string_loop_append:
  "0 \<notin> set s \<Longrightarrow>
   crc32_string_loop table crc n (s @ 0 # rest) =
     map_option (\<lambda>c. (c, n + length s)) (crc32_loop table crc s)"
  by (induction s arbitrary: crc n) (auto split: option.splits)

lemma crc32_string_loop_unterminated:
  "0 \<notin> set s \<Longrightarrow> crc32_string_loop table crc n s = None"
  by (induction s arbitrary: crc n) (auto split: option.splits)

lemma crc32_entry_8:
  "crc32_entry poly 8 x = crc32_shift poly (crc32_shift poly (crc32_shift poly (crc32_shift poly
     (crc32_shift poly (crc32_shift poly (crc32_shift poly (crc32_shift poly x)))))))"
  by (simp add: eval_nat_numeral)

lemma CRC32_TABLE_tab: "CRC32_TABLE = crc32_tab CRC32_POLY"
proof -
  have "tabulates (\<lambda>k. crc32_entry CRC32_POLY 8 (of_nat k)) 0 CRC32_TABLE"
    unfolding CRC32_TABLE_def
    apply (simp only: tabulates_unfold)
    apply (intro conjI TrueI)
    apply (simp_all add: crc32_entry_8 CRC32_POLY_def crc32_shift_alt)
    done
  moreover have "length CRC32_TABLE = 256" by (simp add: CRC32_TABLE_def)
  ultimately show ?thesis by (simp add: tabulates_iff crc32_tab_def)
qed

lemma CRC32_TABLE_bits:
  "n \<le> length buf \<Longrightarrow>
   CRC32 buf n start CRC32_TABLE = Some (crc32_bits CRC32_POLY start (bytes_bits (take n buf)))"
  using crc32_loop_bits [of CRC32_POLY "[]"] by (simp add: CRC32_def CRC32_TABLE_tab)

lemma CRC32_POLY_bit31: "bit CRC32_POLY 31"
  by (simp add: CRC32_POLY_def)

section \<open>Properties\<close>

text \<open>
  C9: running \<open>CRC32_INIT\<close> with \<open>CRC32_POLY\<close> over any array of at least 256 entries
  stores exactly the 256 constants of \<open>CRC32_TABLE\<close> and leaves the rest of the array
  alone; on a shorter array it writes out of bounds.
\<close>

theorem crc32_init_table:
  "CRC32_INIT table CRC32_POLY =
     (if 256 \<le> length table then Some (CRC32_TABLE @ drop 256 table) else None)"
  by (simp add: CRC32_INIT_eq CRC32_TABLE_tab)

text \<open>
  C8: for every polynomial, start value and buffer, the table-driven \<open>CRC32\<close> with a
  table filled by \<open>CRC32_INIT\<close> computes the bit-serial CRC of the first \<open>n\<close> bytes.
\<close>

theorem crc32_table_driven:
  assumes "CRC32_INIT table0 poly = Some table" and "n \<le> length buf"
  shows "CRC32 buf n start table = Some (crc32_bits poly start (bytes_bits (take n buf)))"
  using assms by (rule CRC32_bits)

theorem crc32_table_driven_witness:
  "CRC32 [0x31, 0x32, 0x33, 0x34, 0x35, 0x36, 0x37, 0x38, 0x39] 9 0xFFFFFFFF CRC32_TABLE
     = Some 0x340BC6D9"
proof -
  have t: "CRC32_INIT (replicate 256 0) CRC32_POLY = Some CRC32_TABLE"
    by (simp add: CRC32_INIT_eq CRC32_TABLE_tab)
  show ?thesis
    by (subst crc32_table_driven [OF t])
       (simp_all add: bytes_bits_def byte_bits_literal crc32_bit_def CRC32_POLY_def)
qed

text \<open>
  C10: burst errors. Two buffers whose bit streams agree outside a window of at most
  32 bits and differ inside it never have the same CRC, whatever the start value.
\<close>

theorem crc32_detects_bursts:
  assumes "bytes_bits buf1 = p @ e @ q" and "bytes_bits buf2 = p @ f @ q"
    and "length e = length f" and "length e \<le> 32" and "e \<noteq> f"
  shows "CRC32 buf1 (length buf1) start CRC32_TABLE \<noteq> CRC32 buf2 (length buf2) start CRC32_TABLE"
  using assms crc32_bits_burst [OF CRC32_POLY_bit31, of e f start p q]
  by (auto simp: CRC32_TABLE_bits)

theorem crc32_detects_bursts_witness:
  "CRC32 [1, 2, 3, 4, 5, 6] 6 0 CRC32_TABLE \<noteq> CRC32 [1, 9, 9, 9, 9, 6] 6 0 CRC32_TABLE"
proof -
  let ?x = "[2, 3, 4, 5] :: u8 list" and ?y = "[9, 9, 9, 9] :: u8 list"
  have "bytes_bits ?x \<noteq> bytes_bits ?y"
    by (simp add: bytes_bits_def byte_bits_literal)
  moreover have "length (bytes_bits ?x) = 32" "length (bytes_bits ?y) = 32"
    by (simp_all add: bytes_bits_def)
  ultimately show ?thesis
    using crc32_detects_bursts [of "[1] @ ?x @ [6]" "bytes_bits [1]" "bytes_bits ?x" "bytes_bits [6]"
        "[1] @ ?y @ [6]" "bytes_bits ?y" 0]
    by (simp add: bytes_bits_def numeral_eq_Suc)
qed

text \<open>
  C11: \<open>CRC32_STRING\<close> stops at the first NUL: it returns the CRC of the bytes before
  it and their number, that is, what \<open>CRC32\<close> returns for that length.
\<close>

theorem crc32_string_prefix:
  assumes "0 \<notin> set s"
  shows "CRC32_STRING (s @ 0 # rest) start table =
     map_option (\<lambda>c. (c, length s)) (CRC32 (s @ 0 # rest) (length s) start table)"
  using assms by (simp add: CRC32_STRING_def CRC32_def crc32_string_loop_append)

theorem crc32_string_prefix_witness:
  "CRC32_STRING [0x61, 0, 0x62] 0 CRC32_TABLE =
     map_option (\<lambda>c. (c, 1)) (CRC32 [0x61, 0, 0x62] 1 0 CRC32_TABLE)"
  using crc32_string_prefix [of "[0x61]" "[0x62]"] by simp

end
