(* ===== verification/Regexp.thy ===== *)
theory Regexp
  imports SysvPrelude
begin

unbundle bit_operations_syntax

text \<open>
  The matcher of \<^verbatim>\<open>regexp.h\<close>: the compiled form, the global variables, and the functions
  \<open>getrnge\<close>, \<open>advance\<close> and \<open>step\<close>. The subject is the byte array \<open>s\<close> and the compiled
  expression the byte array \<open>prog\<close>; pointers into them are indices. A \<open>char\<close> is kept as its
  eight bits.
\<close>

section \<open>Definitions\<close>

text \<open>
  Result of running a piece of the C code. \<open>Error n\<close> is the client's \<open>ERROR(n)\<close> macro,
  which never returns to \<open>compile\<close>. \<open>Fault\<close> is an access outside an array or through an
  unset pointer. \<open>Overread\<close> is a \<open>GETC\<close> past the text the client supplied, and
  \<open>OutOfFuel\<close> marks a loop that did not end within its fuel.
\<close>

datatype 'a run = Ok 'a | Error nat | Fault | Overread | OutOfFuel

primrec run_bind :: "'a run \<Rightarrow> ('a \<Rightarrow> 'b run) \<Rightarrow> 'b run" where
  "run_bind (Ok x) f = f x"
| "run_bind (Error n) f = Error n"
| "run_bind Fault f = Fault"
| "run_bind Overread f = Overread"
| "run_bind OutOfFuel f = OutOfFuel"

definition rd :: "'a list \<Rightarrow> nat \<Rightarrow> 'a run" where
  "rd a i = (case mem_get a i of None \<Rightarrow> Fault | Some v \<Rightarrow> Ok v)"

text \<open>
  Opcodes of a compiled expression: an operator is a byte, possibly combined with
  \<open>STAR\<close> or \<open>RNGE\<close>, followed by its operand bytes.
\<close>

definition CBRA :: u8 where "CBRA = 2"
definition CCHR :: u8 where "CCHR = 4"
definition CDOT :: u8 where "CDOT = 8"
definition CCL :: u8 where "CCL = 12"
definition CXCL :: u8 where "CXCL = 16"
definition CDOL :: u8 where "CDOL = 20"
definition CCEOF :: u8 where "CCEOF = 22"
definition CKET :: u8 where "CKET = 24"
definition CBACK :: u8 where "CBACK = 36"
definition NCCL :: u8 where "NCCL = 40"
definition STAR :: u8 where "STAR = 1"
definition RNGE :: u8 where "RNGE = 3"
definition NBRA :: nat where "NBRA = 9"

lemmas opcodes = CBRA_def CCHR_def CDOT_def CCL_def CXCL_def CDOL_def CCEOF_def CKET_def
  CBACK_def NCCL_def STAR_def RNGE_def

definition bittab :: "u8 list" where
  "bittab = [1, 2, 4, 8, 16, 32, 64, 128]"

text \<open>
  The global variables of the header. A character pointer into the subject is the index it
  points at, \<open>None\<close> for \<open>NULL\<close>; the \<open>int\<close> flags \<open>sed\<close>, \<open>nodelim\<close> and \<open>circf\<close> are only
  tested against zero. \<open>low\<close> and \<open>size\<close> keep their 32 bits.
\<close>

record rx =
  braslist :: "nat option list"
  braelist :: "nat option list"
  sed :: bool
  nbra :: nat
  loc1 :: "nat option"
  loc2 :: "nat option"
  locs :: "nat option"
  nodelim :: bool
  circf :: bool
  low :: u32
  size_r :: u32

text \<open>
  \<open>ISTHERE\<close> tests a character in the bit map at \<open>ep\<close>; \<open>ecmp\<close> is \<open>strncmp\<close> on two
  buffers, which stops early at a common NUL.
\<close>

definition ISTHERE :: "u8 list \<Rightarrow> nat \<Rightarrow> u8 \<Rightarrow> bool run" where
  "ISTHERE prog ep c =
     run_bind (rd prog (ep + unat (drop_bit 3 c)))
       (\<lambda>w. Ok (w AND bittab ! unat (c AND 7) \<noteq> 0))"

fun ecmp :: "u8 list \<Rightarrow> u8 list \<Rightarrow> nat \<Rightarrow> bool run" where
  "ecmp s1 s2 0 = Ok True"
| "ecmp (x # s1) (y # s2) (Suc n) =
     (if x \<noteq> y then Ok False else if x = 0 then Ok True else ecmp s1 s2 n)"
| "ecmp _ _ (Suc n) = Fault"

definition getrnge :: "u8 list \<Rightarrow> nat \<Rightarrow> rx \<Rightarrow> rx run" where
  "getrnge prog str g =
     run_bind (rd prog str) (\<lambda>l.
     run_bind (rd prog (str + 1)) (\<lambda>h.
       Ok (g\<lparr>low := ucast l, size_r := (if h = 255 then 20000 else ucast h - ucast l)\<rparr>)))"

text \<open>
  The counted loops \<open>while (low--)\<close> and \<open>while (size--)\<close> over the characters from \<open>lp\<close>:
  whether the counter ran out, its final value and the final \<open>lp\<close>.
\<close>

fun count_loop :: "(u8 \<Rightarrow> bool run) \<Rightarrow> u32 \<Rightarrow> u8 list \<Rightarrow> nat \<Rightarrow> (bool \<times> u32 \<times> nat) run" where
  "count_loop test k [] lp = (if k = 0 then Ok (True, k - 1, lp) else Fault)"
| "count_loop test k (c # cs) lp =
     (if k = 0 then Ok (True, k - 1, lp)
      else run_bind (test c) (\<lambda>m.
        if m then count_loop test (k - 1) cs (lp + 1) else Ok (False, k - 1, lp + 1)))"

text \<open>
  The backtracking loop at the label \<open>star\<close>. The argument \<open>Suc lp\<close> is the value of the
  pointer before \<open>--lp\<close>.
\<close>

fun star_loop :: "(nat \<Rightarrow> rx \<Rightarrow> (bool \<times> rx) run) \<Rightarrow> nat \<Rightarrow> nat \<Rightarrow> rx \<Rightarrow> (bool \<times> rx) run" where
  "star_loop adv curlp 0 g = Fault"
| "star_loop adv curlp (Suc lp) g =
     (if locs g = Some lp then Ok (False, g)
      else run_bind (adv lp g) (\<lambda>(m, g').
        if m then Ok (True, g')
        else if curlp < lp then star_loop adv curlp lp g' else Ok (False, g')))"

text \<open>
  The body the four \<open>RNGE\<close> cases share: \<open>test\<close> is the case's character test and \<open>ep\<close>
  points at the two repetition bytes.
\<close>

definition rnge :: "(nat \<Rightarrow> nat \<Rightarrow> rx \<Rightarrow> (bool \<times> rx) run) \<Rightarrow> (u8 \<Rightarrow> bool run) \<Rightarrow>
    u8 list \<Rightarrow> u8 list \<Rightarrow> nat \<Rightarrow> nat \<Rightarrow> rx \<Rightarrow> (bool \<times> rx) run" where
  "rnge adv test s prog lp ep g =
     run_bind (getrnge prog ep g) (\<lambda>g1.
     run_bind (count_loop test (low g1) (drop lp s) lp) (\<lambda>(full, l, lp1).
       let g2 = g1\<lparr>low := l\<rparr> in
       if \<not> full then Ok (False, g2)
       else run_bind (count_loop test (size_r g2) (drop lp1 s) lp1) (\<lambda>(_, z, lp2).
         let g3 = g2\<lparr>size_r := z\<rparr>;
             lp3 = (if z <s 0 then lp2 + 1 else lp2)
         in star_loop (adv (ep + 2)) lp1 lp3 g3)))"

text \<open>
  \<open>skip_loop\<close> is the greedy skip of the \<open>STAR\<close> cases; \<open>back_loop\<close> and \<open>back_star\<close> are the
  two loops of \<open>CBACK | STAR\<close>.
\<close>

fun skip_loop :: "(u8 \<Rightarrow> bool run) \<Rightarrow> u8 list \<Rightarrow> nat \<Rightarrow> nat run" where
  "skip_loop test [] lp = Fault"
| "skip_loop test (c # cs) lp =
     run_bind (test c) (\<lambda>m. if m then skip_loop test cs (lp + 1) else Ok (lp + 1))"

fun back_loop :: "nat \<Rightarrow> u8 list \<Rightarrow> nat \<Rightarrow> nat \<Rightarrow> nat \<Rightarrow> nat run" where
  "back_loop 0 s bbeg ct lp = OutOfFuel"
| "back_loop (Suc n) s bbeg ct lp =
     run_bind (ecmp (drop bbeg s) (drop lp s) ct) (\<lambda>e.
       if e then back_loop n s bbeg ct (lp + ct) else Ok lp)"

fun back_star :: "nat \<Rightarrow> (nat \<Rightarrow> rx \<Rightarrow> (bool \<times> rx) run) \<Rightarrow> nat \<Rightarrow> nat \<Rightarrow> nat \<Rightarrow> rx \<Rightarrow> (bool \<times> rx) run" where
  "back_star 0 adv ct curlp lp g = OutOfFuel"
| "back_star (Suc n) adv ct curlp lp g =
     (if curlp \<le> lp
      then run_bind (adv lp g) (\<lambda>(m, g').
        if m then Ok (True, g')
        else if lp < ct then Ok (False, g') else back_star n adv ct curlp (lp - ct) g')
      else Ok (False, g))"

definition bra_set :: "nat option list \<Rightarrow> u8 \<Rightarrow> nat \<Rightarrow> nat option list run" where
  "bra_set l i lp =
     (case mem_put l (unat i) (Some lp) of None \<Rightarrow> Fault | Some l' \<Rightarrow> Ok l')"

definition bra_get :: "nat option list \<Rightarrow> u8 \<Rightarrow> nat run" where
  "bra_get l i = run_bind (rd l (unat i)) (\<lambda>p. case p of None \<Rightarrow> Fault | Some v \<Rightarrow> Ok v)"

definition back_ref :: "u8 list \<Rightarrow> nat \<Rightarrow> rx \<Rightarrow> (nat \<times> nat) run" where
  "back_ref prog ep g =
     run_bind (rd prog ep) (\<lambda>i.
     run_bind (bra_get (braslist g) i) (\<lambda>bbeg.
     run_bind (bra_get (braelist g) i) (\<lambda>e.
       Ok (bbeg, unat (word_of_int (int e - int bbeg) :: u32)))))"

definition cls_test :: "bool \<Rightarrow> u8 list \<Rightarrow> nat \<Rightarrow> u8 \<Rightarrow> bool run" where
  "cls_test neg prog ep c =
     (if bit c 7 then Ok neg
      else run_bind (ISTHERE prog ep c) (\<lambda>m. Ok (m \<noteq> neg)))"

text \<open>
  \<open>advance(lp, ep)\<close>: match the program at \<open>ep\<close> against the subject at \<open>lp\<close>. The fuel
  bounds the iterations of \<open>while (1)\<close> plus the depth of the recursive calls.
\<close>

primrec advance :: "nat \<Rightarrow> u8 list \<Rightarrow> u8 list \<Rightarrow> nat \<Rightarrow> nat \<Rightarrow> rx \<Rightarrow> (bool \<times> rx) run" where
  "advance 0 s prog lp ep0 g = OutOfFuel"
| "advance (Suc n) s prog lp ep0 g =
     run_bind (rd prog ep0) (\<lambda>op. let ep = ep0 + 1 in
     if op = CCHR then
       run_bind (rd prog ep) (\<lambda>e. run_bind (rd s lp) (\<lambda>c.
         if e = c then advance n s prog (lp + 1) (ep + 1) g else Ok (False, g)))
     else if op = CDOT then
       run_bind (rd s lp) (\<lambda>c.
         if c \<noteq> 0 then advance n s prog (lp + 1) ep g else Ok (False, g))
     else if op = CDOL then
       run_bind (rd s lp) (\<lambda>c.
         if c = 0 then advance n s prog lp ep g else Ok (False, g))
     else if op = CCEOF then Ok (True, g\<lparr>loc2 := Some lp\<rparr>)
     else if op = CXCL then
       run_bind (rd s lp) (\<lambda>c. run_bind (ISTHERE prog ep c) (\<lambda>m.
         if m then advance n s prog (lp + 1) (ep + 32) g else Ok (False, g)))
     else if op = NCCL \<or> op = CCL then
       run_bind (rd s lp) (\<lambda>c. run_bind (cls_test (op = NCCL) prog ep c) (\<lambda>m.
         if m then advance n s prog (lp + 1) (ep + 16) g else Ok (False, g)))
     else if op = CBRA then
       run_bind (rd prog ep) (\<lambda>i. run_bind (bra_set (braslist g) i lp) (\<lambda>l.
         advance n s prog lp (ep + 1) (g\<lparr>braslist := l\<rparr>)))
     else if op = CKET then
       run_bind (rd prog ep) (\<lambda>i. run_bind (bra_set (braelist g) i lp) (\<lambda>l.
         advance n s prog lp (ep + 1) (g\<lparr>braelist := l\<rparr>)))
     else if op = CCHR OR RNGE then
       run_bind (rd prog ep) (\<lambda>e.
         rnge (\<lambda>ep' lp' g'. advance n s prog lp' ep' g') (\<lambda>c. Ok (c = e)) s prog lp (ep + 1) g)
     else if op = CDOT OR RNGE then
       rnge (\<lambda>ep' lp' g'. advance n s prog lp' ep' g') (\<lambda>c. Ok (c \<noteq> 0)) s prog lp ep g
     else if op = CXCL OR RNGE then
       rnge (\<lambda>ep' lp' g'. advance n s prog lp' ep' g') (ISTHERE prog ep) s prog lp (ep + 32) g
     else if op = NCCL OR RNGE \<or> op = CCL OR RNGE then
       rnge (\<lambda>ep' lp' g'. advance n s prog lp' ep' g') (cls_test (op = NCCL OR RNGE) prog ep) s prog lp (ep + 16) g
     else if op = CBACK then
       run_bind (back_ref prog ep g) (\<lambda>(bbeg, ct).
       run_bind (ecmp (drop bbeg s) (drop lp s) ct) (\<lambda>e.
         if e then advance n s prog (lp + ct) (ep + 1) g else Ok (False, g)))
     else if op = CBACK OR STAR then
       run_bind (back_ref prog ep g) (\<lambda>(bbeg, ct).
       run_bind (back_loop n s bbeg ct lp) (\<lambda>lp'.
         back_star n (\<lambda>lp'' g'. advance n s prog lp'' (ep + 1) g') ct lp lp' g))
     else if op = CDOT OR STAR then
       run_bind (skip_loop (\<lambda>c. Ok (c \<noteq> 0)) (drop lp s) lp) (\<lambda>lp'.
         star_loop (\<lambda>lp'' g'. advance n s prog lp'' ep g') lp lp' g)
     else if op = CCHR OR STAR then
       run_bind (rd prog ep) (\<lambda>e.
       run_bind (skip_loop (\<lambda>c. Ok (c = e)) (drop lp s) lp) (\<lambda>lp'.
         star_loop (\<lambda>lp'' g'. advance n s prog lp'' (ep + 1) g') lp lp' g))
     else if op = CXCL OR STAR then
       run_bind (skip_loop (ISTHERE prog ep) (drop lp s) lp) (\<lambda>lp'.
         star_loop (\<lambda>lp'' g'. advance n s prog lp'' (ep + 32) g') lp lp' g)
     else if op = NCCL OR STAR \<or> op = CCL OR STAR then
       run_bind (skip_loop (cls_test (op = NCCL OR STAR) prog ep) (drop lp s) lp) (\<lambda>lp'.
         star_loop (\<lambda>lp'' g'. advance n s prog lp'' (ep + 16) g') lp lp' g)
     else advance n s prog lp ep g)"

text \<open>
  \<open>step\<close> tries the start positions from left to right; \<open>continue\<close> inside the do-while of the
  fast path goes to the test \<open>*p1++\<close>.
\<close>

fun step_fast :: "nat \<Rightarrow> u8 list \<Rightarrow> u8 list \<Rightarrow> nat \<Rightarrow> u8 \<Rightarrow> u8 list \<Rightarrow> nat \<Rightarrow> rx \<Rightarrow> (bool \<times> rx) run" where
  "step_fast n s prog p2 c [] p1 g = Fault"
| "step_fast n s prog p2 c (x # xs) p1 g =
     run_bind (if x \<noteq> c then Ok (False, g) else advance n s prog p1 p2 g) (\<lambda>(m, g').
       if m then Ok (True, g'\<lparr>loc1 := Some p1\<rparr>)
       else if x \<noteq> 0 then step_fast n s prog p2 c xs (p1 + 1) g' else Ok (False, g'))"

fun step_regular :: "nat \<Rightarrow> u8 list \<Rightarrow> u8 list \<Rightarrow> nat \<Rightarrow> u8 list \<Rightarrow> nat \<Rightarrow> rx \<Rightarrow> (bool \<times> rx) run" where
  "step_regular n s prog p2 [] p1 g = Fault"
| "step_regular n s prog p2 (x # xs) p1 g =
     run_bind (advance n s prog p1 p2 g) (\<lambda>(m, g').
       if m then Ok (True, g'\<lparr>loc1 := Some p1\<rparr>)
       else if x \<noteq> 0 then step_regular n s prog p2 xs (p1 + 1) g' else Ok (False, g'))"

definition step :: "nat \<Rightarrow> u8 list \<Rightarrow> u8 list \<Rightarrow> nat \<Rightarrow> nat \<Rightarrow> rx \<Rightarrow> (bool \<times> rx) run" where
  "step n s prog p1 p2 g =
     (if circf g then advance n s prog p1 p2 (g\<lparr>loc1 := Some p1\<rparr>)
      else run_bind (rd prog p2) (\<lambda>op.
        if op = CCHR
        then run_bind (rd prog (p2 + 1)) (\<lambda>c. step_fast n s prog p2 c (drop p1 s) p1 g)
        else step_regular n s prog p2 (drop p1 s) p1 g))"

text \<open>The globals as static storage initialises them.\<close>

definition rx_init :: rx where
  "rx_init = \<lparr>braslist = replicate NBRA None, braelist = replicate NBRA None, sed = False, nbra = 0,
     loc1 = None, loc2 = None, locs = None, nodelim = False, circf = False, low = 0, size_r = 0\<rparr>"

end
