(* ===== verification/RegexpCompile.thy ===== *)
theory RegexpCompile
  imports Regexp
begin

unbundle bit_operations_syntax

text \<open>
  The function \<open>compile\<close> of \<^verbatim>\<open>regexp.h\<close>, over any implementation of the client's reading
  macros that obeys their documentation (locale \<open>pattern_source\<close>). It terminates and keeps every
  store between the start of the buffer and \<open>endbuf\<close> inclusive, one byte more than its caller
  reserves.
\<close>

section \<open>Definitions\<close>

text \<open>
  The client supplies the macros that read the pattern: \<open>GETC\<close> returns the next character,
  \<open>PEEKC\<close> the same character without consuming it, and \<open>UNGETC\<close> puts the character just read
  back. They are parameters here; \<open>None\<close> stands for reading past the text the client has.
\<close>

record 's reader =
  GETC :: "'s \<Rightarrow> (int \<times> 's) option"
  PEEKC :: "'s \<Rightarrow> int option"
  UNGETC :: "int \<Rightarrow> 's \<Rightarrow> 's"

text \<open>
  The local variables of \<open>compile\<close> with the buffer it fills and the globals it sets.
  \<open>bracket\<close> is the stack between \<open>bracket\<close> and \<open>bracketp\<close>, innermost group first.
\<close>

record 's cstate =
  src :: 's
  buf :: "u8 list"
  ep :: nat
  lastep :: "nat option"
  bracket :: "u8 list"
  closed :: nat
  glob :: rx

definition getc :: "'s reader \<Rightarrow> 's cstate \<Rightarrow> (int \<times> 's cstate) run" where
  "getc R st = (case GETC R (src st) of
     None \<Rightarrow> Overread | Some (c, s) \<Rightarrow> Ok (c, st\<lparr>src := s\<rparr>))"

definition peekc :: "'s reader \<Rightarrow> 's cstate \<Rightarrow> int run" where
  "peekc R st = (case PEEKC R (src st) of None \<Rightarrow> Overread | Some c \<Rightarrow> Ok c)"

definition ungetc :: "'s reader \<Rightarrow> int \<Rightarrow> 's cstate \<Rightarrow> 's cstate" where
  "ungetc R c st = st\<lparr>src := UNGETC R c (src st)\<rparr>"

text \<open>
  A store into the output buffer at an index that may be computed from a character;
  \<open>emit\<close> is \<open>*ep++ = b\<close>.
\<close>

definition poke :: "int \<Rightarrow> (u8 \<Rightarrow> u8) \<Rightarrow> 's cstate \<Rightarrow> 's cstate run" where
  "poke i f st =
     (if i < 0 then Fault
      else case mem_get (buf st) (nat i) of
        None \<Rightarrow> Fault
      | Some b \<Rightarrow> Ok (st\<lparr>buf := (buf st)[nat i := f b]\<rparr>))"

definition emit :: "u8 \<Rightarrow> 's cstate \<Rightarrow> 's cstate run" where
  "emit b st = run_bind (poke (int (ep st)) (\<lambda>_. b) st) (\<lambda>st. Ok (st\<lparr>ep := ep st + 1\<rparr>))"

definition PLACE :: "int \<Rightarrow> 's cstate \<Rightarrow> 's cstate run" where
  "PLACE c st = poke (int (ep st) + drop_bit 3 c) (\<lambda>b. b OR bittab ! nat (c AND 7)) st"

primrec zero_fill :: "nat \<Rightarrow> nat \<Rightarrow> 's cstate \<Rightarrow> 's cstate run" where
  "zero_fill i 0 st = Ok st"
| "zero_fill i (Suc n) st =
     run_bind (zero_fill i n st) (\<lambda>st. poke (int (ep st + i + n)) (\<lambda>_. 0) st)"

text \<open>
  A bracket expression. It starts with a 16-byte map for ASCII; the first character with the
  top bit set widens it to 32 bytes and changes the opcode to \<open>CXCL\<close>.
\<close>

definition widen :: "nat \<Rightarrow> int \<Rightarrow> bool \<Rightarrow> 's cstate \<Rightarrow> (bool \<times> 's cstate) run" where
  "widen endbuf c iflag st =
     (if c AND 128 \<noteq> 0 \<and> iflag
      then if endbuf \<le> ep st + 32 then Error 50
        else run_bind (poke (int (ep st) - 1) (\<lambda>_. CXCL) st) (\<lambda>st.
             run_bind (zero_fill 16 16 st) (\<lambda>st. Ok (False, st)))
      else Ok (iflag, st))"

primrec place_run :: "nat \<Rightarrow> int \<Rightarrow> 's cstate \<Rightarrow> 's cstate run" where
  "place_run 0 lc st = Ok st"
| "place_run (Suc n) lc st = run_bind (PLACE lc st) (place_run n (lc + 1))"

primrec class_loop :: "nat \<Rightarrow> 's reader \<Rightarrow> nat \<Rightarrow> int \<Rightarrow> int \<Rightarrow> bool \<Rightarrow> 's cstate \<Rightarrow> (bool \<times> 's cstate) run" where
  "class_loop 0 R endbuf lc c iflag st = OutOfFuel"
| "class_loop (Suc n) R endbuf lc c0 iflag st =
     (let c = c0 AND 255;
          next = (\<lambda>c iflag st. run_bind (PLACE c st) (\<lambda>st. run_bind (getc R st) (\<lambda>(c', st).
            if c' \<noteq> 93 then class_loop n R endbuf c c' iflag st else Ok (iflag, st))))
      in if c = 0 \<or> c = 10 then Error 49
      else run_bind (widen endbuf c iflag st) (\<lambda>(iflag, st).
        if c = 45 \<and> lc \<noteq> 0
        then run_bind (getc R st) (\<lambda>(c, st).
          if c = 93 then run_bind (PLACE 45 st) (\<lambda>st. Ok (iflag, st))
          else run_bind (widen endbuf c iflag st) (\<lambda>(iflag, st).
            run_bind (place_run (nat (c - lc)) lc st) (next c iflag)))
        else next c iflag st))"

primrec complement :: "nat \<Rightarrow> 's cstate \<Rightarrow> 's cstate run" where
  "complement 0 st = Ok st"
| "complement (Suc n) st =
     run_bind (complement n st) (\<lambda>st. poke (int (ep st + n)) (\<lambda>b. b XOR 255) st)"

definition class_end :: "bool \<Rightarrow> bool \<Rightarrow> 's cstate \<Rightarrow> 's cstate run" where
  "class_end neg iflag st =
     run_bind
       (if \<not> neg then Ok st
        else if \<not> iflag
        then run_bind (complement 32 st) (poke (int (ep st)) (\<lambda>b. b AND 254))
        else run_bind (poke (int (ep st) - 1) (\<lambda>_. NCCL) st) (poke (int (ep st)) (\<lambda>b. b OR 1)))
       (\<lambda>st. Ok (st\<lparr>ep := ep st + (if iflag then 16 else 32)\<rparr>))"

definition compile_class :: "nat \<Rightarrow> 's reader \<Rightarrow> nat \<Rightarrow> 's cstate \<Rightarrow> 's cstate run" where
  "compile_class n R endbuf st =
     (if endbuf \<le> ep st + 17 then Error 50
      else run_bind (emit CCL st) (\<lambda>st. run_bind (zero_fill 0 16 st) (\<lambda>st.
        run_bind (getc R st) (\<lambda>(c, st).
        run_bind (if c = 94 then getc R st else Ok (c, st)) (\<lambda>(c', st).
        run_bind (class_loop n R endbuf 0 c' True st) (\<lambda>(iflag, st).
          class_end (c = 94) iflag st))))))"

text \<open>
  A repetition \<open>\{m\}\<close>, \<open>\{m,\}\<close> or \<open>\{m,n\}\<close>. The number is a 32-bit \<open>int\<close>, compared
  signed with 255.
\<close>

primrec num_loop :: "nat \<Rightarrow> 's reader \<Rightarrow> int \<Rightarrow> u32 \<Rightarrow> 's cstate \<Rightarrow> (u32 \<times> int \<times> 's cstate) run" where
  "num_loop 0 R c i st = OutOfFuel"
| "num_loop (Suc n) R c i st =
     (if 48 \<le> c \<and> c \<le> 57
      then let i = 10 * i + word_of_int c - 48 in
        run_bind (getc R st) (\<lambda>(c, st).
          if c \<noteq> 92 \<and> c \<noteq> 44 then num_loop n R c i st else Ok (i, c, st))
      else Error 16)"

definition nlim :: "nat \<Rightarrow> 's reader \<Rightarrow> 's cstate \<Rightarrow> (u32 \<times> int \<times> 's cstate) run" where
  "nlim n R st =
     run_bind (getc R st) (\<lambda>(c, st).
     run_bind (num_loop n R c 0 st) (\<lambda>(i, c, st).
       if 255 \<le>s i then Error 11
       else run_bind (emit (ucast i) st) (\<lambda>st. Ok (i, c, st))))"

definition range_end :: "'s reader \<Rightarrow> bool \<Rightarrow> u32 \<Rightarrow> 's cstate \<Rightarrow> 's cstate run" where
  "range_end R cflg i st =
     run_bind (getc R st) (\<lambda>(c, st).
       if c \<noteq> 125 then Error 45
       else if \<not> cflg then emit (ucast i) st
       else run_bind (rd (buf st) (ep st - 1)) (\<lambda>h. run_bind (rd (buf st) (ep st - 2)) (\<lambda>l.
         if h < l then Error 46 else Ok st)))"

definition compile_range :: "nat \<Rightarrow> 's reader \<Rightarrow> 's cstate \<Rightarrow> 's cstate run" where
  "compile_range n R st =
     run_bind (nlim n R st) (\<lambda>(i, c, st).
       if c \<noteq> 44 then range_end R False i st
       else run_bind (getc R st) (\<lambda>(c, st).
         if c = 92 then run_bind (emit 255 st) (range_end R True i)
         else run_bind (nlim n R (ungetc R c st)) (\<lambda>(i, c, st).
           if c = 44 then Error 44 else range_end R True i st)))"

text \<open>
  The remaining cases of the switch, the main loop and \<open>compile\<close> itself. The fuel bounds the
  iterations of each loop.
\<close>

definition defchar :: "int \<Rightarrow> 's cstate \<Rightarrow> 's cstate run" where
  "defchar c st =
     run_bind (emit CCHR (st\<lparr>lastep := Some (ep st)\<rparr>)) (emit (word_of_int c))"

definition open_group :: "'s cstate \<Rightarrow> 's cstate run" where
  "open_group st =
     (let k = nbra (glob st) in
      if NBRA \<le> k then Error 43
      else if NBRA \<le> length (bracket st) then Fault
      else run_bind (emit CBRA (st\<lparr>bracket := of_nat k # bracket st\<rparr>)) (\<lambda>st.
           run_bind (emit (of_nat k) st) (\<lambda>st. Ok (st\<lparr>glob := (glob st)\<lparr>nbra := k + 1\<rparr>\<rparr>))))"

definition close_group :: "'s cstate \<Rightarrow> 's cstate run" where
  "close_group st =
     (case bracket st of
        [] \<Rightarrow> Error 42
      | b # bs \<Rightarrow> run_bind (emit CKET st) (\<lambda>st.
          run_bind (emit b (st\<lparr>bracket := bs\<rparr>)) (\<lambda>st. Ok (st\<lparr>closed := closed st + 1\<rparr>))))"

definition compile_escape :: "nat \<Rightarrow> 's reader \<Rightarrow> 's cstate \<Rightarrow> 's cstate run" where
  "compile_escape n R st =
     run_bind (getc R st) (\<lambda>(c, st).
       if c = 40 then open_group st
       else if c = 41 then close_group st
       else if c = 123 then
         (case lastep st of
            None \<Rightarrow> defchar c st
          | Some l \<Rightarrow> run_bind (poke (int l) (\<lambda>b. b OR RNGE) st) (compile_range n R))
       else if c = 10 then Error 36
       else if c = 110 then defchar 10 st
       else if 49 \<le> c \<and> c \<le> 57 then
         (if int (closed st) \<le> c - 49 then Error 25
          else run_bind (emit CBACK st) (emit (word_of_int (c - 49))))
       else defchar c st)"

definition compile_star :: "'s cstate \<Rightarrow> 's cstate run" where
  "compile_star st =
     (case lastep st of
        None \<Rightarrow> defchar 42 st
      | Some l \<Rightarrow> run_bind (rd (buf st) l) (\<lambda>b.
          if b = CBRA \<or> b = CKET then defchar 42 st
          else poke (int l) (\<lambda>b. b OR STAR) st))"

definition compile_dollar :: "'s reader \<Rightarrow> int \<Rightarrow> 's cstate \<Rightarrow> 's cstate run" where
  "compile_dollar R eof st =
     run_bind (peekc R st) (\<lambda>p.
       if p \<noteq> eof \<and> p \<noteq> 10 then defchar 36 st else emit CDOL st)"

definition finish :: "'s cstate \<Rightarrow> (bool \<times> 's cstate) run" where
  "finish st =
     run_bind (emit CCEOF st) (\<lambda>st. if bracket st \<noteq> [] then Error 42 else Ok (True, st))"

definition set_nodelim :: "'s cstate \<Rightarrow> 's cstate" where
  "set_nodelim st = st\<lparr>glob := (glob st)\<lparr>nodelim := True\<rparr>\<rparr>"

definition compile_char :: "nat \<Rightarrow> 's reader \<Rightarrow> nat \<Rightarrow> int \<Rightarrow> int \<Rightarrow> 's cstate \<Rightarrow> 's cstate run" where
  "compile_char n R endbuf eof c st =
     (if c = 46 then emit CDOT st
      else if c = 42 then compile_star st
      else if c = 36 then compile_dollar R eof st
      else if c = 91 then compile_class n R endbuf st
      else if c = 92 then compile_escape n R st
      else defchar c st)"

definition mark_last :: "'s reader \<Rightarrow> int \<Rightarrow> 's cstate \<Rightarrow> 's cstate run" where
  "mark_last R c st =
     (if c = 42 then Ok st
      else if c \<noteq> 92 then Ok (st\<lparr>lastep := Some (ep st)\<rparr>)
      else run_bind (peekc R st) (\<lambda>p.
        if p \<noteq> 123 then Ok (st\<lparr>lastep := Some (ep st)\<rparr>) else Ok st))"

definition compile_iter :: "nat \<Rightarrow> 's reader \<Rightarrow> nat \<Rightarrow> int \<Rightarrow> 's cstate \<Rightarrow> (bool \<times> 's cstate) run" where
  "compile_iter n R endbuf eof st =
     (if endbuf \<le> ep st then Error 50
      else run_bind (getc R st) (\<lambda>(c, st). run_bind (mark_last R c st) (\<lambda>st.
        if c = eof then finish st
        else if c = 10 then
          (if \<not> sed (glob st) then finish (set_nodelim (ungetc R c st)) else Error 36)
        else run_bind (compile_char n R endbuf eof c st) (\<lambda>st. Ok (False, st)))))"

primrec compile_loop :: "nat \<Rightarrow> 's reader \<Rightarrow> nat \<Rightarrow> int \<Rightarrow> 's cstate \<Rightarrow> 's cstate run" where
  "compile_loop 0 R endbuf eof st = OutOfFuel"
| "compile_loop (Suc n) R endbuf eof st =
     run_bind (compile_iter n R endbuf eof st) (\<lambda>(fin, st).
       if fin then Ok st else compile_loop n R endbuf eof st)"

definition compile :: "nat \<Rightarrow> 's reader \<Rightarrow> 's \<Rightarrow> u8 list \<Rightarrow> nat \<Rightarrow> nat \<Rightarrow> int \<Rightarrow> rx \<Rightarrow> 's cstate run" where
  "compile n R instring b ep0 endbuf eof g =
     (let st = \<lparr>src = instring, buf = b, ep = ep0, lastep = None, bracket = [], closed = 0, glob = g\<rparr> in
      run_bind (getc R st) (\<lambda>(c, st).
        if c = eof \<or> c = 10 then
          let st = (if c = 10 then set_nodelim (ungetc R c st) else st) in
          run_bind (rd (buf st) (ep st)) (\<lambda>b0.
            if b0 = 0 \<and> \<not> sed (glob st) then Error 41 else Ok st)
        else
          let g' = (glob st)\<lparr>circf := c = 94, nbra := 0\<rparr>;
              st = (if c = 94 then st else ungetc R c st)\<lparr>glob := g'\<rparr>
          in compile_loop n R endbuf eof st))"
section \<open>Invariants\<close>

text \<open>
  \<open>safe Q r\<close>: the run neither faults nor exhausts its fuel, and a normal result satisfies
  \<open>Q\<close>. \<open>cinv\<close> is the invariant of \<open>compile\<close>: writes stay between the start and \<open>endbuf\<close>,
  the last operator is inside the buffer, and the open groups fit into \<open>bracket\<close>.
\<close>

definition safe :: "('a \<Rightarrow> bool) \<Rightarrow> 'a run \<Rightarrow> bool" where
  "safe Q r = (case r of Ok x \<Rightarrow> Q x | Error _ \<Rightarrow> True | Overread \<Rightarrow> True | _ \<Rightarrow> False)"

definition within :: "nat \<Rightarrow> nat \<Rightarrow> 'a list \<Rightarrow> 'a list \<Rightarrow> bool" where
  "within lo hi b b' \<longleftrightarrow> length b' = length b \<and> (\<forall>k. k < lo \<or> hi < k \<longrightarrow> b' ! k = b ! k)"

definition buf_only :: "nat \<Rightarrow> nat \<Rightarrow> 's cstate \<Rightarrow> 's cstate \<Rightarrow> bool" where
  "buf_only lo hi st st' \<longleftrightarrow> (\<exists>b. st' = st\<lparr>buf := b\<rparr> \<and> within lo hi (buf st) b)"

definition moved :: "nat \<Rightarrow> nat \<Rightarrow> nat \<Rightarrow> 's cstate \<Rightarrow> 's cstate \<Rightarrow> bool" where
  "moved lo hi k st st' \<longleftrightarrow> (\<exists>b. st' = st\<lparr>buf := b, ep := ep st + k\<rparr> \<and> within lo hi (buf st) b)"

definition cinv :: "('s \<Rightarrow> int list) \<Rightarrow> nat \<Rightarrow> nat \<Rightarrow> u8 list \<Rightarrow> nat \<Rightarrow> 's cstate \<Rightarrow> bool" where
  "cinv pending lo endbuf b0 N st \<longleftrightarrow>
     endbuf < length b0 \<and> within lo endbuf b0 (buf st) \<and> lo \<le> ep st \<and> ep st \<le> endbuf + 1 \<and>
     (\<forall>l. lastep st = Some l \<longrightarrow> lo \<le> l \<and> l \<le> endbuf) \<and>
     length (bracket st) + closed st = nbra (glob st) \<and> nbra (glob st) \<le> NBRA \<and>
     length (pending (src st)) \<le> N \<and> set (pending (src st)) \<subseteq> {0..255}"

definition class_inv :: "nat \<Rightarrow> nat \<Rightarrow> bool \<Rightarrow> int \<Rightarrow> 's cstate \<Rightarrow> bool" where
  "class_inv lo endbuf iflag lc st \<longleftrightarrow> lo < ep st \<and> 0 \<le> lc \<and>
     (if iflag then ep st + 16 < endbuf \<and> lc < 128 else ep st + 32 < endbuf \<and> lc < 256)"

definition got :: "'s reader \<Rightarrow> ('s \<Rightarrow> int list) \<Rightarrow> nat \<Rightarrow> nat \<Rightarrow> u8 list \<Rightarrow> nat \<Rightarrow> 's cstate \<Rightarrow> int \<times> 's cstate \<Rightarrow> bool" where
  "got R pending lo endbuf b0 N st = (\<lambda>(c, st'). \<exists>s. st' = st\<lparr>src := s\<rparr> \<and> 0 \<le> c \<and> c < 256 \<and>
     pending (src st) = c # pending s \<and> pending (UNGETC R c s) = c # pending s \<and>
     cinv pending lo endbuf b0 (N - 1) st' \<and> 0 < N)"

definition class_ok :: "('s \<Rightarrow> int list) \<Rightarrow> nat \<Rightarrow> nat \<Rightarrow> u8 list \<Rightarrow> nat \<Rightarrow> bool \<times> 's cstate \<Rightarrow> bool" where
  "class_ok pending lo endbuf b0 N = (\<lambda>(iflag, st). cinv pending lo endbuf b0 N st \<and> class_inv lo endbuf iflag 0 st)"

text \<open>
  The reading macros of the manual page: a pointer into the pattern text.
\<close>

definition text_reader :: "(int list \<times> nat) reader" where
  "text_reader = \<lparr>
     GETC = (\<lambda>(t, i). if i < length t then Some (t ! i, (t, i + 1)) else None),
     PEEKC = (\<lambda>(t, i). if i < length t then Some (t ! i) else None),
     UNGETC = (\<lambda>c (t, i). (t, i - 1))\<rparr>"

definition text_pending :: "int list \<times> nat \<Rightarrow> int list" where
  "text_pending = (\<lambda>(t, i). drop i t)"

section \<open>Stores into the buffer\<close>

lemma safe_simps [simp]:
  "safe Q (Ok x) = Q x" "safe Q (Error n)" "safe Q Overread" "\<not> safe Q Fault" "\<not> safe Q OutOfFuel"
  by (simp_all add: safe_def)

lemma safe_bind: "safe P r \<Longrightarrow> (\<And>x. P x \<Longrightarrow> safe Q (f x)) \<Longrightarrow> safe Q (run_bind r f)"
  by (cases r) auto

lemma safe_mono: "safe P r \<Longrightarrow> (\<And>x. P x \<Longrightarrow> Q x) \<Longrightarrow> safe Q r"
  by (cases r) auto

lemma within_refl [simp]: "within lo hi b b"
  by (simp add: within_def)

lemma within_trans: "within lo hi a b \<Longrightarrow> within lo hi b c \<Longrightarrow> within lo hi a c"
  by (simp add: within_def)

lemma within_update [simp]: "lo \<le> k \<Longrightarrow> k \<le> hi \<Longrightarrow> within lo hi b (b[k := x])"
  by (simp add: within_def)

lemma buf_only_refl [simp]: "buf_only lo hi st st"
  by (auto simp: buf_only_def intro!: exI [of _ "buf st"])

lemma buf_only_trans: "buf_only lo hi st st1 \<Longrightarrow> buf_only lo hi st1 st2 \<Longrightarrow> buf_only lo hi st st2"
  unfolding buf_only_def by (elim exE conjE) (rule exI, auto intro: within_trans)

lemma buf_only_fields:
  assumes "buf_only lo hi st st'"
  shows "src st' = src st" "ep st' = ep st" "lastep st' = lastep st" "bracket st' = bracket st"
    "closed st' = closed st" "glob st' = glob st" "length (buf st') = length (buf st)"
    "within lo hi (buf st) (buf st')"
  using assms by (auto simp: buf_only_def within_def)

lemma poke_safe:
  assumes "int lo \<le> i" "i \<le> int hi" "hi < length (buf st)"
  shows "safe (buf_only lo hi st) (poke i f st)"
proof -
  have "nat i < length (buf st)" "lo \<le> nat i" "nat i \<le> hi" using assms by linarith+
  then show ?thesis using assms
    by (auto simp: poke_def buf_only_def intro!: exI [of _ "(buf st)[nat i := _]"])
qed

lemma zero_fill_safe:
  "lo \<le> ep st + i \<Longrightarrow> ep st + i + n \<le> hi + 1 \<Longrightarrow> hi < length (buf st) \<Longrightarrow>
   safe (buf_only lo hi st) (zero_fill i n st)"
proof (induction n)
  case (Suc n)
  then show ?case
    by (auto intro!: safe_bind [OF Suc.IH] safe_mono [OF poke_safe]
        simp: buf_only_fields(2,7) elim: buf_only_trans)
qed simp

lemma complement_safe:
  "lo \<le> ep st \<Longrightarrow> ep st + n \<le> hi + 1 \<Longrightarrow> hi < length (buf st) \<Longrightarrow>
   safe (buf_only lo hi st) (complement n st)"
proof (induction n)
  case (Suc n)
  then show ?case
    by (auto intro!: safe_bind [OF Suc.IH] safe_mono [OF poke_safe]
        simp: buf_only_fields(2,7) elim: buf_only_trans)
qed simp

lemma PLACE_safe:
  assumes "0 \<le> c" "int (ep st) + c div 8 \<le> int hi" "lo \<le> ep st" "hi < length (buf st)"
  shows "safe (buf_only lo hi st) (PLACE c st)"
proof -
  have "drop_bit 3 c = c div 8" by (simp add: drop_bit_eq_div)
  moreover have "0 \<le> c div 8" using assms(1) by simp
  ultimately show ?thesis unfolding PLACE_def using assms by (intro poke_safe) auto
qed

lemma place_run_safe:
  "0 \<le> lc \<Longrightarrow> int (ep st) + (lc + int n) div 8 \<le> int hi \<Longrightarrow> lo \<le> ep st \<Longrightarrow> hi < length (buf st) \<Longrightarrow>
   safe (buf_only lo hi st) (place_run n lc st)"
proof (induction n arbitrary: lc st)
  case (Suc n)
  have "lc div 8 \<le> (lc + int (Suc n)) div 8" by (simp add: zdiv_mono1)
  then have "safe (buf_only lo hi st) (PLACE lc st)" using Suc.prems by (intro PLACE_safe) auto
  moreover have "safe (buf_only lo hi st) (place_run n (lc + 1) st')" if "buf_only lo hi st st'" for st'
    using that Suc.prems
    by (intro safe_mono [OF Suc.IH]) (auto simp: buf_only_fields(2,7) add.assoc elim: buf_only_trans)
  ultimately show ?case by (auto intro: safe_bind)
qed simp

lemma low_half:
  assumes "0 \<le> (c :: int)" "c < 256"
  shows "c AND 128 = 0 \<longleftrightarrow> c < 128" "c AND 255 = c"
proof -
  have "c AND 2 ^ 7 = 0 \<longleftrightarrow> \<not> bit c 7" by (rule and_exp_eq_0_iff_not_bit)
  also have "\<dots> \<longleftrightarrow> c < 128"
  proof (cases "c < 128")
    case False
    then have "c div 128 = 1" using assms(2) by (simp add: int_div_pos_eq [of _ _ _ "c - 128"])
    then show ?thesis using False by (simp add: bit_iff_odd)
  qed (use assms(1) in \<open>simp add: bit_iff_odd\<close>)
  finally show "c AND 128 = 0 \<longleftrightarrow> c < 128" by simp
  have "c AND mask 8 = take_bit 8 c" by (simp only: take_bit_eq_mask)
  then show "c AND 255 = c" using assms by (simp add: take_bit_int_eq_self mask_eq_exp_minus_1)
qed

lemma run_bind_assoc: "run_bind (run_bind r f) g = run_bind r (\<lambda>x. run_bind (f x) g)"
  by (cases r) auto

lemma moved_trans: "moved lo hi k st st1 \<Longrightarrow> moved lo hi l st1 st2 \<Longrightarrow> moved lo hi (k + l) st st2"
  unfolding moved_def by (elim exE conjE) (rule exI, auto simp: add.assoc intro: within_trans)

lemma cinvD: "cinv p lo endbuf b0 N st \<Longrightarrow> lo \<le> ep st" "cinv p lo endbuf b0 N st \<Longrightarrow> endbuf < length (buf st)"
  by (simp_all add: cinv_def within_def)

lemma cinv_moved:
  "cinv p lo endbuf b0 N st \<Longrightarrow> moved lo endbuf k st st' \<Longrightarrow> ep st + k \<le> endbuf + 1 \<Longrightarrow>
   cinv p lo endbuf b0 N st'"
  by (auto simp: cinv_def moved_def elim: within_trans)

lemma cinv_buf_only:
  "cinv p lo endbuf b0 N st \<Longrightarrow> buf_only lo endbuf st st' \<Longrightarrow> cinv p lo endbuf b0 N st'"
  by (auto simp: cinv_def buf_only_def elim: within_trans)

lemma cinv_last: "cinv p lo endbuf b0 N st \<Longrightarrow> ep st \<le> endbuf \<Longrightarrow> cinv p lo endbuf b0 N (st\<lparr>lastep := Some (ep st)\<rparr>)"
  by (simp add: cinv_def)

lemma buf_only_moved: "buf_only lo hi st st' \<Longrightarrow> moved lo hi k st (st'\<lparr>ep := ep st' + k\<rparr>)"
  by (auto simp: buf_only_def moved_def)

lemma emit_safe:
  assumes "lo \<le> ep st" "ep st \<le> hi" "hi < length (buf st)"
  shows "safe (moved lo hi 1 st) (emit b st)"
  unfolding emit_def using assms
  by (intro safe_bind [OF poke_safe [of lo _ hi]]) (auto dest: buf_only_moved [where k = 1])

lemma emit2_safe:
  assumes "lo \<le> ep st" "ep st < hi" "hi < length (buf st)"
  shows "safe (moved lo hi 2 st) (run_bind (emit a st) (emit b))"
proof (rule safe_bind [OF emit_safe [of lo _ hi]])
  fix st1 assume m: "moved lo hi 1 st st1"
  then have "safe (moved lo hi 1 st1) (emit b st1)"
    using assms by (intro emit_safe) (auto simp: moved_def within_def)
  then show "safe (moved lo hi 2 st) (emit b st1)"
    by (rule safe_mono) (use moved_trans [OF m] in \<open>simp add: numeral_2_eq_2\<close>)
qed (use assms in auto)

lemma emit_cinv:
  "cinv p lo endbuf b0 N st \<Longrightarrow> ep st \<le> endbuf \<Longrightarrow>
   safe (\<lambda>st'. cinv p lo endbuf b0 N st' \<and> ep st' = ep st + 1 \<and> bracket st' = bracket st) (emit a st)"
  by (rule safe_mono [OF emit_safe [of lo _ endbuf]], simp_all add: cinvD)
     (auto simp: moved_def cinv_def elim: within_trans)

lemma emit2_cinv:
  "cinv p lo endbuf b0 N st \<Longrightarrow> ep st < endbuf \<Longrightarrow> safe (cinv p lo endbuf b0 N) (run_bind (emit a st) (emit b))"
  by (rule safe_mono [OF emit2_safe [of lo _ endbuf]]) (simp_all add: cinvD cinv_moved)

lemma defchar_safe:
  "cinv p lo endbuf b0 N st \<Longrightarrow> ep st < endbuf \<Longrightarrow> safe (cinv p lo endbuf b0 N) (defchar c st)"
  unfolding defchar_def by (rule emit2_cinv) (simp_all add: cinv_last)

lemma poke_cinv:
  "cinv p lo endbuf b0 N st \<Longrightarrow> int lo \<le> i \<Longrightarrow> i \<le> int endbuf \<Longrightarrow>
   safe (\<lambda>st'. cinv p lo endbuf b0 N st' \<and> buf_only lo endbuf st st') (poke i f st)"
  by (rule safe_mono [OF poke_safe]) (auto simp: cinvD intro: cinv_buf_only)

lemma compile_star_safe:
  assumes "cinv p lo endbuf b0 N st" "ep st < endbuf"
  shows "safe (cinv p lo endbuf b0 N) (compile_star st)"
proof (cases "lastep st")
  case None
  with assms show ?thesis by (simp add: compile_star_def defchar_safe)
next
  case (Some l)
  then have l: "lo \<le> l" "l \<le> endbuf" using assms(1) by (auto simp: cinv_def)
  then have "safe (cinv p lo endbuf b0 N) (poke (int l) (\<lambda>b. b OR STAR) st)"
    by (intro safe_mono [OF poke_cinv [OF assms(1)]]) auto
  with Some l assms cinvD(2) [OF assms(1)] show ?thesis
    by (simp add: compile_star_def rd_def defchar_safe)
qed

lemma open_group_safe:
  assumes "cinv p lo endbuf b0 N st" "ep st < endbuf"
  shows "safe (cinv p lo endbuf b0 N) (open_group st)"
proof (cases "NBRA \<le> nbra (glob st)")
  case False
  let ?k = "of_nat (nbra (glob st)) :: u8" and ?st = "st\<lparr>bracket := of_nat (nbra (glob st)) # bracket st\<rparr>"
  have "safe (moved lo endbuf 2 ?st) (run_bind (emit CBRA ?st) (emit ?k))"
    using assms by (intro emit2_safe) (auto simp: cinvD)
  then have "safe (cinv p lo endbuf b0 N) (run_bind (run_bind (emit CBRA ?st) (emit ?k))
      (\<lambda>st'. Ok (st'\<lparr>glob := (glob st')\<lparr>nbra := nbra (glob st) + 1\<rparr>\<rparr>)))"
    by (rule safe_bind) (use assms False in \<open>auto simp: cinv_def moved_def elim: within_trans\<close>)
  then show ?thesis using False assms(1) by (simp add: open_group_def Let_def run_bind_assoc) (simp add: cinv_def)
qed (simp add: open_group_def)

lemma close_group_safe:
  assumes "cinv p lo endbuf b0 N st" "ep st < endbuf"
  shows "safe (cinv p lo endbuf b0 N) (close_group st)"
proof (cases "bracket st")
  case (Cons b bs)
  have e1: "safe (moved lo endbuf 1 st) (emit CKET st)"
    using assms by (intro emit_safe) (auto simp: cinvD)
  show ?thesis unfolding close_group_def Cons list.case
  proof (rule safe_bind [OF e1], rule safe_bind)
    fix st1 assume m: "moved lo endbuf 1 st st1"
    let ?st = "st1\<lparr>bracket := bs\<rparr>"
    from m show "safe (moved lo endbuf 1 ?st) (emit b ?st)"
      using assms by (intro emit_safe) (auto simp: moved_def cinv_def within_def)
    fix st2 assume "moved lo endbuf 1 ?st st2"
    with m assms Cons show "safe (cinv p lo endbuf b0 N) (Ok (st2\<lparr>closed := closed st2 + 1\<rparr>))"
      by (auto simp: cinv_def moved_def elim!: within_trans)
  qed
qed (simp add: close_group_def)

lemma cinv_weaken: "cinv p lo endbuf b0 N st \<Longrightarrow> N \<le> M \<Longrightarrow> cinv p lo endbuf b0 M st"
  by (simp add: cinv_def)

lemma class_inv_buf_only: "buf_only lo hi st st' \<Longrightarrow> class_inv lo endbuf iflag lc st' = class_inv lo endbuf iflag lc st"
  by (simp add: class_inv_def buf_only_fields(2))

lemma class_inv_PLACE:
  assumes "cinv p lo endbuf b0 N st" "class_inv lo endbuf iflag c st"
  shows "safe (\<lambda>st'. cinv p lo endbuf b0 N st' \<and> buf_only lo endbuf st st') (PLACE c st)"
proof (rule safe_mono [OF PLACE_safe [of c st endbuf lo]])
  have "c div 8 < 16 \<or> \<not> iflag \<and> c div 8 < 32" using assms(2) by (auto simp: class_inv_def split: if_splits)
  then show "int (ep st) + c div 8 \<le> int endbuf" using assms(2) by (auto simp: class_inv_def split: if_splits)
qed (use assms in \<open>auto simp: class_inv_def cinvD intro: cinv_buf_only\<close>)

lemma class_inv_place_run:
  assumes "cinv p lo endbuf b0 N st" "class_inv lo endbuf iflag lc st" "class_inv lo endbuf iflag c st"
  shows "safe (\<lambda>st'. cinv p lo endbuf b0 N st' \<and> buf_only lo endbuf st st') (place_run (nat (c - lc)) lc st)"
proof (rule safe_mono [OF place_run_safe [of lc st _ endbuf lo]])
  let ?h = "lc + int (nat (c - lc))"
  have "?h div 8 < 16 \<or> \<not> iflag \<and> ?h div 8 < 32" using assms(2,3)
    by (cases "lc \<le> c") (auto simp: class_inv_def split: if_splits)
  then show "int (ep st) + ?h div 8 \<le> int endbuf" using assms(2) by (auto simp: class_inv_def split: if_splits)
qed (use assms in \<open>auto simp: class_inv_def cinvD intro: cinv_buf_only\<close>)

lemma widen_safe:
  assumes "cinv p lo endbuf b0 N st" "class_inv lo endbuf iflag lc st" "0 \<le> c" "c < 256"
  shows "safe (\<lambda>(iflag', st'). cinv p lo endbuf b0 N st' \<and> src st' = src st \<and>
      class_inv lo endbuf iflag' lc st' \<and> class_inv lo endbuf iflag' c st') (widen endbuf c iflag st)"
proof (cases "c AND 128 \<noteq> 0 \<and> iflag \<and> ep st + 32 < endbuf")
  case True
  have "safe (\<lambda>st'. cinv p lo endbuf b0 N st' \<and> buf_only lo endbuf st st')
    (run_bind (poke (int (ep st) - 1) (\<lambda>_. CXCL) st) (zero_fill 16 16))"
  proof (rule safe_bind [OF poke_cinv [OF assms(1)]])
    fix st1 assume "cinv p lo endbuf b0 N st1 \<and> buf_only lo endbuf st st1"
    then have c: "cinv p lo endbuf b0 N st1" and b: "buf_only lo endbuf st st1" by auto
    then have "safe (buf_only lo endbuf st1) (zero_fill 16 16 st1)"
      using True assms(2) by (intro zero_fill_safe) (auto simp: cinvD buf_only_fields(2) class_inv_def)
    then show "safe (\<lambda>st'. cinv p lo endbuf b0 N st' \<and> buf_only lo endbuf st st') (zero_fill 16 16 st1)"
      by (rule safe_mono) (use b c in \<open>auto intro: cinv_buf_only buf_only_trans\<close>)
  qed (use True assms in \<open>auto simp: class_inv_def\<close>)
  then have "safe (\<lambda>(iflag', st'). cinv p lo endbuf b0 N st' \<and> src st' = src st \<and>
      class_inv lo endbuf iflag' lc st' \<and> class_inv lo endbuf iflag' c st')
    (run_bind (run_bind (poke (int (ep st) - 1) (\<lambda>_. CXCL) st) (zero_fill 16 16)) (\<lambda>st. Ok (False, st)))"
    by (rule safe_bind) (use True assms in \<open>auto simp: class_inv_def buf_only_fields\<close>)
  with True show ?thesis by (simp add: widen_def run_bind_assoc)
qed (use assms in \<open>auto simp: widen_def class_inv_def low_half split: if_splits\<close>)

lemma class_inv_src [simp]: "class_inv lo endbuf iflag lc (st\<lparr>src := s\<rparr>) = class_inv lo endbuf iflag lc st"
  by (simp add: class_inv_def)

lemma class_inv_0: "class_inv lo endbuf iflag lc st \<Longrightarrow> class_inv lo endbuf iflag 0 st"
  by (simp add: class_inv_def split: if_splits)

section \<open>Clients of the reading macros\<close>

text \<open>
  What \<open>compile\<close> relies on: \<open>pending\<close> lists the characters the source still has to deliver.
\<close>

locale pattern_source =
  fixes R :: "'s reader" and pending :: "'s \<Rightarrow> int list"
  assumes getc_Cons: "pending s = c # cs \<Longrightarrow> \<exists>s'. GETC R s = Some (c, s') \<and> pending s' = cs"
    and getc_Nil: "pending s = [] \<Longrightarrow> GETC R s = None"
    and peekc_law: "PEEKC R s = (case pending s of [] \<Rightarrow> None | c # _ \<Rightarrow> Some c)"
    and ungetc_law: "GETC R s = Some (c, s') \<Longrightarrow> pending (UNGETC R c s') = pending s"
begin

lemma getc_safe:
  assumes "cinv pending lo endbuf b0 N st"
  shows "safe (got R pending lo endbuf b0 N st) (getc R st)"
proof (cases "pending (src st)")
  case Nil
  then show ?thesis by (simp add: getc_def getc_Nil)
next
  case (Cons c cs)
  then obtain s' where g: "GETC R (src st) = Some (c, s')" "pending s' = cs" using getc_Cons by blast
  have "0 \<le> c" "c < 256" "length cs \<le> N - 1" "0 < N" using assms Cons by (auto simp: cinv_def)
  with g Cons assms ungetc_law [OF g(1)] show ?thesis
    by (auto simp: getc_def cinv_def got_def intro!: exI [of _ s'])
qed

lemma ungetc_cinv:
  assumes "got R pending lo endbuf b0 N st (c, st')"
  shows "cinv pending lo endbuf b0 N (ungetc R c st')" "ep (ungetc R c st') = ep st"
  using assms by (auto simp: cinv_def ungetc_def got_def subset_eq)

lemma class_next_safe:
  assumes "cinv pending lo endbuf b0 N st" "class_inv lo endbuf iflag c st"
    and loop: "\<And>c' st'. cinv pending lo endbuf b0 (N - 1) st' \<Longrightarrow> class_inv lo endbuf iflag c st' \<Longrightarrow> 0 < N \<Longrightarrow>
      0 \<le> c' \<Longrightarrow> c' < 256 \<Longrightarrow> safe (class_ok pending lo endbuf b0 (N - 1)) (class_loop n R endbuf c c' iflag st')"
  shows "safe (class_ok pending lo endbuf b0 N) (run_bind (PLACE c st) (\<lambda>st. run_bind (getc R st) (\<lambda>(c', st).
            if c' \<noteq> 93 then class_loop n R endbuf c c' iflag st else Ok (iflag, st))))"
proof (rule safe_bind [OF class_inv_PLACE [OF assms(1,2)]], elim conjE, rule safe_bind [OF getc_safe], assumption)
  fix st1 r assume b: "buf_only lo endbuf st st1" and g: "got R pending lo endbuf b0 N st1 r"
  obtain c' st2 where r: "r = (c', st2)" by (cases r)
  have i: "class_inv lo endbuf iflag c st2" using g assms(2) b by (auto simp: r got_def class_inv_buf_only)
  with g loop [of st2 c'] have "safe (class_ok pending lo endbuf b0 (N - 1)) (class_loop n R endbuf c c' iflag st2)"
    by (auto simp: r got_def)
  then have "safe (class_ok pending lo endbuf b0 N) (class_loop n R endbuf c c' iflag st2)"
    by (rule safe_mono) (auto simp: class_ok_def elim: cinv_weaken)
  moreover have "class_ok pending lo endbuf b0 N (iflag, st2)"
    using g i by (auto simp: r got_def class_ok_def elim: cinv_weaken class_inv_0)
  ultimately show "safe (class_ok pending lo endbuf b0 N) (case r of (c', st) \<Rightarrow>
      if c' \<noteq> 93 then class_loop n R endbuf c c' iflag st else Ok (iflag, st))" by (simp add: r)
qed

lemma class_loop_safe:
  "cinv pending lo endbuf b0 N st \<Longrightarrow> class_inv lo endbuf iflag lc st \<Longrightarrow> 0 \<le> c \<Longrightarrow> c < 256 \<Longrightarrow> N < n \<Longrightarrow>
   safe (class_ok pending lo endbuf b0 N) (class_loop n R endbuf lc c iflag st)"
proof (induction n arbitrary: N st iflag lc c)
  case (Suc n)
  let ?next = "\<lambda>c iflag st. run_bind (PLACE c st) (\<lambda>st. run_bind (getc R st) (\<lambda>(c', st).
            if c' \<noteq> 93 then class_loop n R endbuf c c' iflag st else Ok (iflag, st)))"
  have nxt: "safe (class_ok pending lo endbuf b0 M) (?next c iflag st)"
    if "cinv pending lo endbuf b0 M st" "class_inv lo endbuf iflag c st" "M \<le> N" for c iflag st M
    using that Suc.prems(5) by (intro class_next_safe Suc.IH) auto
  have dash: "safe (class_ok pending lo endbuf b0 N) (run_bind (getc R st) (\<lambda>(c, st).
          if c = 93 then run_bind (PLACE 45 st) (\<lambda>st. Ok (iflag, st))
          else run_bind (widen endbuf c iflag st) (\<lambda>(iflag, st).
            run_bind (place_run (nat (c - lc)) lc st) (?next c iflag))))"
    if c0: "cinv pending lo endbuf b0 N st" and i0: "class_inv lo endbuf iflag lc st" for iflag st
  proof (rule safe_bind [OF getc_safe [OF c0]])
    fix r assume g: "got R pending lo endbuf b0 N st r"
    obtain c st1 where r: "r = (c, st1)" by (cases r)
    have c1: "cinv pending lo endbuf b0 N st1" "0 \<le> c" "c < 256" "class_inv lo endbuf iflag lc st1"
      using g i0 by (auto simp: r got_def elim: cinv_weaken)
    have "class_inv lo endbuf iflag 45 st1" using c1(4) by (auto simp: class_inv_def split: if_splits)
    then have "safe (class_ok pending lo endbuf b0 N) (run_bind (PLACE 45 st1) (\<lambda>st. Ok (iflag, st)))"
      using c1 by (intro safe_bind [OF class_inv_PLACE]) (auto simp: class_ok_def class_inv_buf_only elim: class_inv_0)
    moreover have "safe (class_ok pending lo endbuf b0 N) (run_bind (widen endbuf c iflag st1) (\<lambda>(iflag, st).
            run_bind (place_run (nat (c - lc)) lc st) (?next c iflag)))"
    proof (rule safe_bind [OF widen_safe [OF c1(1,4,2,3)]], clarify)
      fix f st2 assume w: "cinv pending lo endbuf b0 N st2" "class_inv lo endbuf f lc st2" "class_inv lo endbuf f c st2"
      show "safe (class_ok pending lo endbuf b0 N) (run_bind (place_run (nat (c - lc)) lc st2) (?next c f))"
        by (rule safe_bind [OF class_inv_place_run [OF w]], rule nxt) (use w in \<open>auto simp: class_inv_buf_only\<close>)
    qed
    ultimately show "safe (class_ok pending lo endbuf b0 N) (case r of (c, st) \<Rightarrow>
          if c = 93 then run_bind (PLACE 45 st) (\<lambda>st. Ok (iflag, st))
          else run_bind (widen endbuf c iflag st) (\<lambda>(iflag, st).
            run_bind (place_run (nat (c - lc)) lc st) (?next c iflag)))" by (simp add: r)
  qed
  show ?case
    unfolding class_loop.simps Let_def low_half(2) [OF Suc.prems(3,4)]
    by (auto intro!: safe_bind [OF widen_safe [OF Suc.prems(1,2,3,4)]] dash nxt)
qed simp
end

lemma class_end_safe:
  assumes c: "cinv p lo endbuf b0 N st" and i: "class_inv lo endbuf iflag 0 st"
  shows "safe (cinv p lo endbuf b0 N) (class_end neg iflag st)"
  unfolding class_end_def
proof (rule safe_bind [where P = "\<lambda>st'. cinv p lo endbuf b0 N st' \<and> buf_only lo endbuf st st'"])
  let ?Q = "\<lambda>st'. cinv p lo endbuf b0 N st' \<and> buf_only lo endbuf st st'"
  have two: "safe ?Q (run_bind (poke (int (ep st) - 1) (\<lambda>_. NCCL) st) (poke (int (ep st)) (\<lambda>b. b OR 1)))" if iflag
  proof (rule safe_bind [OF poke_cinv [OF c]])
    fix st1 assume "cinv p lo endbuf b0 N st1 \<and> buf_only lo endbuf st st1"
    then show "safe ?Q (poke (int (ep st)) (\<lambda>b. b OR 1) st1)"
      using i that by (intro safe_mono [OF poke_cinv]) (auto simp: class_inv_def elim: buf_only_trans)
  qed (use i that in \<open>auto simp: class_inv_def\<close>)
  have comp: "safe (buf_only lo endbuf st) (complement 32 st)" if "\<not> iflag"
    using c i that by (intro complement_safe) (auto simp: class_inv_def cinvD)
  have four: "safe ?Q (run_bind (complement 32 st) (poke (int (ep st)) (\<lambda>b. b AND 254)))" if "\<not> iflag"
  proof (rule safe_bind [OF comp [OF that]])
    fix st1 assume b: "buf_only lo endbuf st st1"
    with c have "cinv p lo endbuf b0 N st1" by (rule cinv_buf_only)
    with b show "safe ?Q (poke (int (ep st)) (\<lambda>b. b AND 254) st1)"
      using i that by (intro safe_mono [OF poke_cinv]) (auto simp: class_inv_def elim: buf_only_trans)
  qed
  from two four c show "safe ?Q (if \<not> neg then Ok st
        else if \<not> iflag then run_bind (complement 32 st) (poke (int (ep st)) (\<lambda>b. b AND 254))
        else run_bind (poke (int (ep st) - 1) (\<lambda>_. NCCL) st) (poke (int (ep st)) (\<lambda>b. b OR 1)))"
    by auto
next
  fix st1 assume *: "cinv p lo endbuf b0 N st1 \<and> buf_only lo endbuf st st1"
  then have "ep st1 + (if iflag then 16 else 32) \<le> endbuf + 1"
    using i by (auto simp: class_inv_def buf_only_fields(2) split: if_splits)
  with * show "safe (cinv p lo endbuf b0 N) (Ok (st1\<lparr>ep := ep st1 + (if iflag then 16 else 32)\<rparr>))"
    by (auto simp: cinv_def)
qed

context pattern_source
begin

lemma read_if_safe:
  assumes "got R pending lo endbuf b0 N st (c, st1)"
  shows "safe (\<lambda>(c', st'). 0 \<le> c' \<and> c' < 256 \<and> ep st' = ep st \<and> cinv pending lo endbuf b0 (N - 1) st')
     (if c = 94 then getc R st1 else Ok (c, st1))"
proof -
  have c: "cinv pending lo endbuf b0 (N - 1) st1" "ep st1 = ep st" using assms by (auto simp: got_def)
  have "safe (\<lambda>(c', st'). 0 \<le> c' \<and> c' < 256 \<and> ep st' = ep st \<and> cinv pending lo endbuf b0 (N - 1) st') (getc R st1)"
    by (rule safe_mono [OF getc_safe [OF c(1)]]) (use c(2) in \<open>auto simp: got_def elim: cinv_weaken\<close>)
  then show ?thesis using assms by (auto simp: got_def)
qed

lemma compile_class_safe:
  assumes c: "cinv pending lo endbuf b0 N st" and n: "N < n"
  shows "safe (cinv pending lo endbuf b0 N) (compile_class n R endbuf st)"
proof (cases "endbuf \<le> ep st + 17")
  case False
  have e: "safe (moved lo endbuf 1 st) (emit CCL st)"
    using c False by (intro emit_safe) (auto simp: cinvD)
  have z: "safe (\<lambda>st'. cinv pending lo endbuf b0 N st' \<and> ep st' = ep st + 1) (zero_fill 0 16 st1)"
    if m: "moved lo endbuf 1 st st1" for st1
  proof -
    have c1: "cinv pending lo endbuf b0 N st1" and e1: "ep st1 = ep st + 1"
      using cinv_moved [OF c m] False m by (auto simp: moved_def)
    then have "safe (buf_only lo endbuf st1) (zero_fill 0 16 st1)"
      using False cinvD [OF c1] by (intro zero_fill_safe) auto
    then show ?thesis by (rule safe_mono) (use c1 e1 in \<open>auto simp: buf_only_fields intro: cinv_buf_only\<close>)
  qed
  have l: "safe (cinv pending lo endbuf b0 N) (run_bind (class_loop n R endbuf 0 c' True st3) (\<lambda>(iflag, st).
          class_end neg iflag st))"
    if "0 \<le> c'" "c' < 256" "ep st3 = ep st + 1" "cinv pending lo endbuf b0 (N - 1) st3" for c' st3 neg
  proof (rule safe_bind [OF class_loop_safe], rule cinv_weaken [OF that(4)])
    show "class_inv lo endbuf True 0 st3" using False that(3) cinvD(1) [OF c] by (simp add: class_inv_def)
  qed (use that n in \<open>auto simp: class_ok_def intro: class_end_safe\<close>)
  show ?thesis
    unfolding compile_class_def using False
    by (auto intro!: safe_bind [OF e] safe_bind [OF z] safe_bind [OF getc_safe] safe_bind [OF read_if_safe] l)
qed (simp add: compile_class_def)

lemma num_loop_safe:
  "cinv pending lo endbuf b0 N st \<Longrightarrow> N < n \<Longrightarrow>
   safe (\<lambda>(i, c, st'). cinv pending lo endbuf b0 N st' \<and> ep st' = ep st) (num_loop n R c i st)"
proof (induction n arbitrary: N st c i)
  case (Suc n)
  show ?case
  proof (cases "48 \<le> c \<and> c \<le> 57")
    case True
    let ?i = "10 * i + word_of_int c - 48"
    have "safe (\<lambda>(i, c, st'). cinv pending lo endbuf b0 N st' \<and> ep st' = ep st)
      (run_bind (getc R st) (\<lambda>(c, st). if c \<noteq> 92 \<and> c \<noteq> 44 then num_loop n R c ?i st else Ok (?i, c, st)))"
    proof (rule safe_bind [OF getc_safe [OF Suc.prems(1)]], clarify)
      fix c' st' assume g: "got R pending lo endbuf b0 N st (c', st')"
      then have c': "cinv pending lo endbuf b0 (N - 1) st'" "ep st' = ep st" "0 < N" by (auto simp: got_def)
      then have "safe (\<lambda>(i, c, st''). cinv pending lo endbuf b0 (N - 1) st'' \<and> ep st'' = ep st') (num_loop n R c' ?i st')"
        using Suc.prems(2) by (intro Suc.IH) auto
      then have "safe (\<lambda>(i, c, st'). cinv pending lo endbuf b0 N st' \<and> ep st' = ep st) (num_loop n R c' ?i st')"
        by (rule safe_mono) (use c' in \<open>auto elim: cinv_weaken\<close>)
      with c' show "safe (\<lambda>(i, c, st'). cinv pending lo endbuf b0 N st' \<and> ep st' = ep st)
          (if c' \<noteq> 92 \<and> c' \<noteq> 44 then num_loop n R c' ?i st' else Ok (?i, c', st'))"
        by (auto elim: cinv_weaken)
    qed
    with True show ?thesis by (simp add: Let_def)
  next
    case False
    then show ?thesis by auto
  qed
qed simp

lemma nlim_safe:
  assumes c: "cinv pending lo endbuf b0 N st" and n: "N < n" and e: "ep st \<le> endbuf"
  shows "safe (\<lambda>(i, c, st'). cinv pending lo endbuf b0 N st' \<and> ep st' = ep st + 1) (nlim n R st)"
  unfolding nlim_def
proof (rule safe_bind [OF getc_safe [OF c]], clarify)
  fix c st1 assume "got R pending lo endbuf b0 N st (c, st1)"
  then have c1: "cinv pending lo endbuf b0 N st1" and e1: "ep st1 = ep st" by (auto simp: got_def elim: cinv_weaken)
  show "safe (\<lambda>(i, c, st'). cinv pending lo endbuf b0 N st' \<and> ep st' = ep st + 1)
     (run_bind (num_loop n R c 0 st1) (\<lambda>(i, c, st).
       if 255 \<le>s i then Error 11 else run_bind (emit (ucast i) st) (\<lambda>st. Ok (i, c, st))))"
  proof (rule safe_bind [OF num_loop_safe [OF c1 n]], clarify)
    fix i c st2 assume c2: "cinv pending lo endbuf b0 N st2" "ep st2 = ep st1"
    have "safe (\<lambda>(i, c, st'). cinv pending lo endbuf b0 N st' \<and> ep st' = ep st + 1)
      (run_bind (emit (ucast i) st2) (\<lambda>st. Ok (i, c, st)))"
      by (rule safe_bind [OF emit_cinv [OF c2(1)]]) (use c2 e e1 in auto)
    then show "safe (\<lambda>(i, c, st'). cinv pending lo endbuf b0 N st' \<and> ep st' = ep st + 1)
      (if 255 \<le>s i then Error 11 else run_bind (emit (ucast i) st2) (\<lambda>st. Ok (i, c, st)))" by simp
  qed
qed
end

lemma cinv_set_nodelim [simp]: "cinv p lo endbuf b0 N (set_nodelim st) = cinv p lo endbuf b0 N st"
  by (simp add: cinv_def set_nodelim_def)

lemma set_nodelim_fields [simp]: "ep (set_nodelim st) = ep st" "bracket (set_nodelim st) = bracket st"
  by (simp_all add: set_nodelim_def)

lemma finish_safe:
  assumes "cinv p lo endbuf b0 N st" "ep st \<le> endbuf"
  shows "safe (\<lambda>(fin, st'). fin \<and> cinv p lo endbuf b0 N st' \<and> bracket st' = []) (finish st)"
  unfolding finish_def by (rule safe_bind [OF emit_cinv [OF assms]]) auto

context pattern_source
begin

lemma range_end_safe:
  assumes c: "cinv pending lo endbuf b0 N st" and e: "\<not> cflg \<longrightarrow> ep st \<le> endbuf"
  shows "safe (cinv pending lo endbuf b0 N) (range_end R cflg i st)"
  unfolding range_end_def
proof (rule safe_bind [OF getc_safe [OF c]], clarify)
  fix c st1 assume "got R pending lo endbuf b0 N st (c, st1)"
  then have c1: "cinv pending lo endbuf b0 N st1" and e1: "ep st1 = ep st" by (auto simp: got_def elim: cinv_weaken)
  have len: "ep st1 - 1 < length (buf st1)" "ep st1 - 2 < length (buf st1)"
    using c1 by (auto simp: cinv_def within_def)
  have "safe (cinv pending lo endbuf b0 N) (emit (ucast i) st1)" if "\<not> cflg"
    by (rule safe_mono [OF emit_cinv [OF c1]]) (use that e e1 in auto)
  with c1 len show "safe (cinv pending lo endbuf b0 N) (if c \<noteq> 125 then Error 45
       else if \<not> cflg then emit (ucast i) st1
       else run_bind (rd (buf st1) (ep st1 - 1)) (\<lambda>h. run_bind (rd (buf st1) (ep st1 - 2)) (\<lambda>l.
         if h < l then Error 46 else Ok st1)))"
    by (simp add: rd_def)
qed

lemma compile_range_safe:
  assumes c: "cinv pending lo endbuf b0 N st" and n: "N < n" and e: "ep st < endbuf"
  shows "safe (cinv pending lo endbuf b0 N) (compile_range n R st)"
proof -
  let ?Q = "safe (cinv pending lo endbuf b0 N)"
  have second: "?Q (run_bind (nlim n R st') (\<lambda>(i, c, st). if c = 44 then Error 44 else range_end R True i st))"
    if "cinv pending lo endbuf b0 N st'" "ep st' \<le> endbuf" for st'
    by (rule safe_bind [OF nlim_safe [OF that(1) n that(2)]]) (auto intro: range_end_safe)
  have full: "?Q (run_bind (emit 255 st') (range_end R True i))"
    if "cinv pending lo endbuf b0 N st'" "ep st' \<le> endbuf" for st' i
    by (rule safe_bind [OF emit_cinv [OF that]]) (auto intro: range_end_safe)
  have comma: "?Q (run_bind (getc R st1) (\<lambda>(c, st). if c = 92 then run_bind (emit 255 st) (range_end R True i)
         else run_bind (nlim n R (ungetc R c st)) (\<lambda>(i, c, st). if c = 44 then Error 44 else range_end R True i st)))"
    if c1: "cinv pending lo endbuf b0 N st1" "ep st1 \<le> endbuf" for st1 i
  proof (rule safe_bind [OF getc_safe [OF c1(1)]], clarify)
    fix c st2 assume g: "got R pending lo endbuf b0 N st1 (c, st2)"
    then have "cinv pending lo endbuf b0 N st2" "ep st2 \<le> endbuf" using c1 by (auto simp: got_def elim: cinv_weaken)
    then show "?Q (if c = 92 then run_bind (emit 255 st2) (range_end R True i)
         else run_bind (nlim n R (ungetc R c st2)) (\<lambda>(i, c, st). if c = 44 then Error 44 else range_end R True i st))"
      using ungetc_cinv [OF g] c1 by (auto intro: full second)
  qed
  have "ep st \<le> endbuf" using e by simp
  then show ?thesis unfolding compile_range_def
    by (rule safe_bind [OF nlim_safe [OF c n]]) (use e in \<open>auto intro!: comma range_end_safe\<close>)
qed

lemma compile_escape_safe:
  assumes c: "cinv pending lo endbuf b0 N st" and n: "N < n" and e: "ep st < endbuf"
  shows "safe (cinv pending lo endbuf b0 N) (compile_escape n R st)"
  unfolding compile_escape_def
proof (rule safe_bind [OF getc_safe [OF c]], clarify)
  fix c st1 assume "got R pending lo endbuf b0 N st (c, st1)"
  then have c1: "cinv pending lo endbuf b0 N st1" and e1: "ep st1 < endbuf"
    using e by (auto simp: got_def elim: cinv_weaken)
  have "safe (cinv pending lo endbuf b0 N) (run_bind (poke (int l) (\<lambda>b. b OR RNGE) st1) (compile_range n R))"
    if "lastep st1 = Some l" for l
  proof (rule safe_bind [OF poke_cinv [OF c1]])
    fix st2 assume "cinv pending lo endbuf b0 N st2 \<and> buf_only lo endbuf st1 st2"
    then show "safe (cinv pending lo endbuf b0 N) (compile_range n R st2)"
      using n e1 by (intro compile_range_safe) (auto simp: buf_only_fields)
  qed (use c1 that in \<open>auto simp: cinv_def\<close>)
  then have "safe (cinv pending lo endbuf b0 N) (case lastep st1 of None \<Rightarrow> defchar c st1
     | Some l \<Rightarrow> run_bind (poke (int l) (\<lambda>b. b OR RNGE) st1) (compile_range n R))"
    using c1 e1 by (auto intro: defchar_safe split: option.split)
  with c1 e1 show "safe (cinv pending lo endbuf b0 N) (if c = 40 then open_group st1
       else if c = 41 then close_group st1
       else if c = 123 then
         (case lastep st1 of None \<Rightarrow> defchar c st1
          | Some l \<Rightarrow> run_bind (poke (int l) (\<lambda>b. b OR RNGE) st1) (compile_range n R))
       else if c = 10 then Error 36
       else if c = 110 then defchar 10 st1
       else if 49 \<le> c \<and> c \<le> 57 then
         (if int (closed st1) \<le> c - 49 then Error 25
          else run_bind (emit CBACK st1) (emit (word_of_int (c - 49))))
       else defchar c st1)"
    by (simp add: defchar_safe open_group_safe close_group_safe emit2_cinv)
qed

lemma compile_char_safe:
  assumes c: "cinv pending lo endbuf b0 N st" and n: "N < n" and e: "ep st < endbuf"
  shows "safe (cinv pending lo endbuf b0 N) (compile_char n R endbuf eof c st)"
proof -
  have "safe (cinv pending lo endbuf b0 N) (emit CDOT st)" "safe (cinv pending lo endbuf b0 N) (emit CDOL st)"
    by (rule safe_mono [OF emit_cinv [OF c]]; use e in simp)+
  moreover from this have "safe (cinv pending lo endbuf b0 N) (compile_dollar R eof st)"
    using c e by (auto simp: compile_dollar_def peekc_def defchar_safe split: option.split)
  ultimately show ?thesis
    using c n e by (auto simp: compile_char_def intro: compile_star_safe compile_class_safe compile_escape_safe defchar_safe)
qed

lemma mark_last_safe:
  "cinv pending lo endbuf b0 N st \<Longrightarrow> ep st < endbuf \<Longrightarrow>
   safe (\<lambda>st'. cinv pending lo endbuf b0 N st' \<and> src st' = src st \<and> ep st' = ep st) (mark_last R c st)"
  by (auto simp: mark_last_def peekc_def cinv_last split: option.split)

lemma compile_iter_safe:
  assumes c: "cinv pending lo endbuf b0 N st" and n: "N \<le> n"
  shows "safe (\<lambda>(fin, st'). cinv pending lo endbuf b0 (if fin then N else N - 1) st' \<and> (\<not> fin \<longrightarrow> 0 < N) \<and>
     (fin \<longrightarrow> bracket st' = [])) (compile_iter n R endbuf eof st)"
    (is "safe ?Q _")
proof (cases "endbuf \<le> ep st")
  case False
  have "safe ?Q (run_bind (getc R st) (\<lambda>(c, st). run_bind (mark_last R c st) (\<lambda>st.
        if c = eof then finish st
        else if c = 10 then
          (if \<not> sed (glob st) then finish (set_nodelim (ungetc R c st)) else Error 36)
        else run_bind (compile_char n R endbuf eof c st) (\<lambda>st. Ok (False, st)))))"
  proof (rule safe_bind [OF getc_safe [OF c]], clarify)
    fix c st1 assume g: "got R pending lo endbuf b0 N st (c, st1)"
    then have c1: "cinv pending lo endbuf b0 (N - 1) st1" and e1: "ep st1 < endbuf" and N: "0 < N"
      using False by (auto simp: got_def)
    show "safe ?Q (run_bind (mark_last R c st1) (\<lambda>st.
        if c = eof then finish st
        else if c = 10 then
          (if \<not> sed (glob st) then finish (set_nodelim (ungetc R c st)) else Error 36)
        else run_bind (compile_char n R endbuf eof c st) (\<lambda>st. Ok (False, st))))"
    proof (rule safe_bind [OF mark_last_safe [OF c1 e1]])
      fix st2 assume s2: "cinv pending lo endbuf b0 (N - 1) st2 \<and> src st2 = src st1 \<and> ep st2 = ep st1"
      then have "cinv pending lo endbuf b0 N (ungetc R c st2)" "ep (ungetc R c st2) = ep st1"
        using g by (auto simp: cinv_def ungetc_def got_def subset_eq)
      then have f1: "safe ?Q (finish (set_nodelim (ungetc R c st2)))"
        using e1 by (intro safe_mono [OF finish_safe]) auto
      have f2: "safe ?Q (finish st2)"
        using s2 e1 by (intro safe_mono [OF finish_safe]) (auto elim: cinv_weaken)
      have "N - 1 < n" using n N by simp
      then have "safe ?Q (run_bind (compile_char n R endbuf eof c st2) (\<lambda>st. Ok (False, st)))"
        using s2 e1 N by (intro safe_bind [OF compile_char_safe]) auto
      with f1 f2 show "safe ?Q (if c = eof then finish st2
        else if c = 10 then
          (if \<not> sed (glob st2) then finish (set_nodelim (ungetc R c st2)) else Error 36)
        else run_bind (compile_char n R endbuf eof c st2) (\<lambda>st. Ok (False, st)))"
        by (auto simp del: split_paired_All)
    qed
  qed
  with False show ?thesis by (simp add: compile_iter_def)
qed (simp add: compile_iter_def)

lemma compile_loop_safe:
  "cinv pending lo endbuf b0 N st \<Longrightarrow> N < n \<Longrightarrow>
   safe (\<lambda>st'. cinv pending lo endbuf b0 N st' \<and> bracket st' = []) (compile_loop n R endbuf eof st)"
proof (induction n arbitrary: N st)
  case (Suc n)
  have "N \<le> n" using Suc.prems by simp
  then show ?case unfolding compile_loop.simps
  proof (rule safe_bind [OF compile_iter_safe [OF Suc.prems(1)]], clarify)
    fix fin st' assume *: "cinv pending lo endbuf b0 (if fin then N else N - 1) st'" "\<not> fin \<longrightarrow> 0 < N" "fin \<longrightarrow> bracket st' = []"
    then have "safe (\<lambda>st'. cinv pending lo endbuf b0 (N - 1) st' \<and> bracket st' = []) (compile_loop n R endbuf eof st')" if "\<not> fin"
      using that Suc.prems(2) by (intro Suc.IH) auto
    then have "safe (\<lambda>st'. cinv pending lo endbuf b0 N st' \<and> bracket st' = []) (compile_loop n R endbuf eof st')" if "\<not> fin"
      by (rule safe_mono) (use that in \<open>auto elim: cinv_weaken\<close>)
    with * show "safe (\<lambda>st'. cinv pending lo endbuf b0 N st' \<and> bracket st' = []) (if fin then Ok st' else compile_loop n R endbuf eof st')"
      by auto
  qed
qed simp

end

context pattern_source
begin

lemma compile_run_safe:
  assumes p: "set (pending instring) \<subseteq> {0..255}" "length (pending instring) < n"
    and b: "ep0 \<le> endbuf" "endbuf < length b"
  shows "safe (\<lambda>st. within ep0 endbuf b (buf st) \<and> ep0 \<le> ep st \<and> ep st \<le> endbuf + 1 \<and> bracket st = [])
    (compile n R instring b ep0 endbuf eof g)" (is "safe ?Q _")
proof (cases "pending instring")
  case Nil
  then show ?thesis by (simp add: compile_def getc_def getc_Nil)
next
  case (Cons c cs)
  then obtain s where g: "GETC R instring = Some (c, s)" "pending s = cs" using getc_Cons by blast
  note u = ungetc_law [OF g(1)]
  let ?st = "\<lambda>s h. \<lparr>src = s, buf = b, ep = ep0, lastep = None, bracket = [], closed = 0, glob = h\<rparr>"
  have loop: "safe ?Q (compile_loop n R endbuf eof (?st s' (g\<lparr>circf := f, nbra := 0\<rparr>)))"
    if "length (pending s') < n" "set (pending s') \<subseteq> {0..255}" for s' f
  proof (rule safe_mono [OF compile_loop_safe [where lo = ep0 and ?b0.0 = b and N = "length (pending s')"]])
    show "cinv pending ep0 endbuf b (length (pending s')) (?st s' (g\<lparr>circf := f, nbra := 0\<rparr>))"
      using b that by (simp add: cinv_def)
  qed (use that in \<open>auto simp: cinv_def\<close>)
  have rdb: "rd b ep0 = Ok (b ! ep0)" using b by (simp add: rd_def)
  have "safe ?Q (compile_loop n R endbuf eof (?st s (g\<lparr>circf := True, nbra := 0\<rparr>)))"
    "safe ?Q (compile_loop n R endbuf eof (?st (UNGETC R c s) (g\<lparr>circf := False, nbra := 0\<rparr>)))"
    by (rule loop; use p Cons g u in auto)+
  then show ?thesis
    using b by (auto simp: compile_def getc_def g ungetc_def set_nodelim_def Let_def rdb)
qed

end

interpretation text_source: pattern_source text_reader text_pending
proof
  fix s :: "int list \<times> nat" and c cs
  assume "text_pending s = c # cs"
  then obtain t i where s: "s = (t, i)" "drop i t = c # cs" by (cases s) (auto simp: text_pending_def)
  then have "i < length t" by (metis drop_eq_Nil2 linorder_not_less list.distinct(1))
  moreover from this s(2) have "t ! i = c" "drop (Suc i) t = cs"
    by (simp_all add: Cons_nth_drop_Suc [symmetric])
  ultimately show "\<exists>s'. GETC text_reader s = Some (c, s') \<and> text_pending s' = cs"
    by (auto simp: s(1) text_reader_def text_pending_def)
qed (auto simp: text_reader_def text_pending_def Cons_nth_drop_Suc split: if_splits prod.splits list.splits
    simp del: drop_eq_Nil simp flip: Cons_nth_drop_Suc)

section \<open>Properties\<close>

text \<open>C4: Whatever pattern the client supplies, \<open>compile\<close> ends after at most one loop iteration per
  pattern character, never loads or stores outside the buffer as long as the byte at \<open>endbuf\<close> exists,
  and never overflows the group stack. When it succeeds only bytes from the start to \<open>endbuf\<close> differ,
  the returned end lies between them, and every group is closed.\<close>

theorem compile_safe:
  assumes "pattern_source R pending" and "set (pending instring) \<subseteq> {0..255}"
    and "length (pending instring) < n" and "ep0 \<le> endbuf" and "endbuf < length b"
  shows "safe (\<lambda>st. within ep0 endbuf b (buf st) \<and> ep0 \<le> ep st \<and> ep st \<le> endbuf + 1 \<and> bracket st = [])
    (compile n R instring b ep0 endbuf eof g)"
  using assms(2-) by (rule pattern_source.compile_run_safe [OF assms(1)])

theorem compile_safe_witness:
  "safe (\<lambda>st. within 0 9 (replicate 10 0) (buf st) \<and> ep st \<le> 10 \<and> bracket st = [])
    (compile 20 text_reader ([92, 40, 97, 92, 41, 42, 47], 0) (replicate 10 0) 0 9 47 rx_init)"
  using compile_safe [OF text_source.pattern_source_axioms, where instring = "([92, 40, 97, 92, 41, 42, 47], 0)" and
      n = 20 and ?ep0.0 = 0 and endbuf = 9 and b = "replicate 10 0" and eof = 47 and g = rx_init]
  by (simp add: text_pending_def)

end
