(* ===== verification/RegexpMatch.thy ===== *)
theory RegexpMatch
  imports Regexp
begin

unbundle bit_operations_syntax

text \<open>
  Correctness of the matcher of \<^verbatim>\<open>regexp.h\<close>. On every well-formed program \<open>advance\<close>
  terminates, reads only inside its arrays and agrees with a reference matcher; \<open>step\<close> finds the
  leftmost match. A starred back-reference to an empty group is the exception: it never ends.
\<close>

section \<open>Meaning of a compiled program\<close>

text \<open>
  A well-formed program as a list of instructions: an atom consumes one character, and
  \<open>Many\<close>, \<open>Rep\<close> repeat it. \<open>encode\<close> gives the bytes \<open>advance\<close> interprets.
\<close>

datatype atom = AChr u8 | ADot | ACls "u8 list" | ANcl "u8 list" | AXcl "u8 list"

datatype instr = One atom | Many atom | Rep atom u8 u8 | Dol | Bra u8 | Ket u8 | Back u8 | BackMany u8

primrec atom_op :: "atom \<Rightarrow> u8" where
  "atom_op (AChr c) = CCHR"
| "atom_op ADot = CDOT"
| "atom_op (ACls m) = CCL"
| "atom_op (ANcl m) = NCCL"
| "atom_op (AXcl m) = CXCL"

primrec atom_arg :: "atom \<Rightarrow> u8 list" where
  "atom_arg (AChr c) = [c]"
| "atom_arg ADot = []"
| "atom_arg (ACls m) = m"
| "atom_arg (ANcl m) = m"
| "atom_arg (AXcl m) = m"

primrec encode1 :: "instr \<Rightarrow> u8 list" where
  "encode1 (One a) = atom_op a # atom_arg a"
| "encode1 (Many a) = (atom_op a OR STAR) # atom_arg a"
| "encode1 (Rep a l h) = (atom_op a OR RNGE) # atom_arg a @ [l, h]"
| "encode1 Dol = [CDOL]"
| "encode1 (Bra i) = [CBRA, i]"
| "encode1 (Ket i) = [CKET, i]"
| "encode1 (Back i) = [CBACK, i]"
| "encode1 (BackMany i) = [CBACK OR STAR, i]"

definition encode :: "instr list \<Rightarrow> u8 list" where
  "encode is = concat (map encode1 is) @ [CCEOF]"

definition in_map :: "u8 list \<Rightarrow> u8 \<Rightarrow> bool" where
  "in_map m c \<longleftrightarrow> bit (m ! unat (drop_bit 3 c)) (unat (c AND 7))"

primrec atom_match :: "atom \<Rightarrow> u8 \<Rightarrow> bool" where
  "atom_match (AChr x) c = (c = x)"
| "atom_match ADot c = (c \<noteq> 0)"
| "atom_match (ACls m) c = (\<not> bit c 7 \<and> in_map m c)"
| "atom_match (ANcl m) c = (bit c 7 \<or> \<not> in_map m c)"
| "atom_match (AXcl m) c = in_map m c"

primrec wf_atom :: "atom \<Rightarrow> bool" where
  "wf_atom (AChr x) = (x \<noteq> 0)"
| "wf_atom ADot = True"
| "wf_atom (ACls m) = (length m = 16 \<and> \<not> in_map m 0)"
| "wf_atom (ANcl m) = (length m = 16 \<and> in_map m 0)"
| "wf_atom (AXcl m) = (length m = 32 \<and> \<not> in_map m 0)"

fun wf_prog :: "u8 set \<Rightarrow> u8 set \<Rightarrow> instr list \<Rightarrow> bool" where
  "wf_prog B K [] = True"
| "wf_prog B K (One a # is) = (wf_atom a \<and> wf_prog B K is)"
| "wf_prog B K (Many a # is) = (wf_atom a \<and> wf_prog B K is)"
| "wf_prog B K (Rep a l h # is) = (wf_atom a \<and> l \<le> h \<and> wf_prog B K is)"
| "wf_prog B K (Dol # is) = wf_prog B K is"
| "wf_prog B K (Bra i # is) = (unat i < NBRA \<and> i \<notin> B \<and> i \<notin> K \<and> wf_prog (insert i B) K is)"
| "wf_prog B K (Ket i # is) = (i \<in> B \<and> i \<notin> K \<and> wf_prog B (insert i K) is)"
| "wf_prog B K (Back i # is) = (i \<in> K \<and> wf_prog B K is)"
| "wf_prog B K (BackMany i # is) = False"

text \<open>
  \<open>matches\<close> is the declarative meaning of a program: from position \<open>i\<close> with group marks
  \<open>S\<close>, \<open>E\<close> it can end at \<open>j\<close> with marks \<open>S'\<close>, \<open>E'\<close>. \<open>greedy\<close> is the reference
  matcher, which prefers the longest repetition at each star from left to right.
\<close>

definition run_of :: "atom \<Rightarrow> u8 list \<Rightarrow> nat \<Rightarrow> nat \<Rightarrow> bool" where
  "run_of a s i k \<longleftrightarrow> i + k \<le> length s \<and> (\<forall>c \<in> set (take k (drop i s)). atom_match a c)"

definition rep_max :: "u8 \<Rightarrow> u8 \<Rightarrow> nat" where
  "rep_max l h = (if h = 255 then unat l + 20000 else unat h)"

type_synonym groups = "u8 \<Rightarrow> nat"

fun first_some :: "('a \<Rightarrow> 'b option) \<Rightarrow> 'a list \<Rightarrow> 'b option" where
  "first_some f [] = None"
| "first_some f (x # xs) = (case f x of None \<Rightarrow> first_some f xs | Some y \<Rightarrow> Some y)"

definition downto :: "nat \<Rightarrow> nat \<Rightarrow> nat list" where
  "downto hi lo = rev [lo..<Suc hi]"

fun greedy :: "u8 list \<Rightarrow> instr list \<Rightarrow> groups \<Rightarrow> groups \<Rightarrow> nat \<Rightarrow> (groups \<times> groups \<times> nat) option" where
  "greedy s [] S E i = Some (S, E, i)"
| "greedy s (One a # is) S E i =
     (if i < length s \<and> atom_match a (s ! i) then greedy s is S E (i + 1) else None)"
| "greedy s (Many a # is) S E i =
     (let t = length (takeWhile (atom_match a) (drop i s)) in
      first_some (greedy s is S E) (downto (i + t) i))"
| "greedy s (Rep a l h # is) S E i =
     (let t = length (takeWhile (atom_match a) (drop i s)) in
      if unat l \<le> t then first_some (greedy s is S E) (downto (i + min t (rep_max l h)) (i + unat l))
      else None)"
| "greedy s (Dol # is) S E i = (if i = length s then greedy s is S E i else None)"
| "greedy s (Bra b # is) S E i = greedy s is (S(b := i)) E i"
| "greedy s (Ket b # is) S E i = greedy s is S (E(b := i)) i"
| "greedy s (Back b # is) S E i =
     (let w = take (E b - S b) (drop (S b) s) in
      if i + length w \<le> length s \<and> take (length w) (drop i s) = w
      then greedy s is S E (i + length w) else None)"
| "greedy s (BackMany b # is) S E i = None"

fun matches :: "u8 list \<Rightarrow> instr list \<Rightarrow> groups \<Rightarrow> groups \<Rightarrow> nat \<Rightarrow> groups \<Rightarrow> groups \<Rightarrow> nat \<Rightarrow> bool" where
  "matches s [] S E i S' E' j = (S' = S \<and> E' = E \<and> j = i)"
| "matches s (One a # is) S E i S' E' j =
     (i < length s \<and> atom_match a (s ! i) \<and> matches s is S E (i + 1) S' E' j)"
| "matches s (Many a # is) S E i S' E' j =
     (\<exists>k. run_of a s i k \<and> matches s is S E (i + k) S' E' j)"
| "matches s (Rep a l h # is) S E i S' E' j =
     (\<exists>k. unat l \<le> k \<and> k \<le> rep_max l h \<and> run_of a s i k \<and> matches s is S E (i + k) S' E' j)"
| "matches s (Dol # is) S E i S' E' j = (i = length s \<and> matches s is S E i S' E' j)"
| "matches s (Bra b # is) S E i S' E' j = matches s is (S(b := i)) E i S' E' j"
| "matches s (Ket b # is) S E i S' E' j = matches s is S (E(b := i)) i S' E' j"
| "matches s (Back b # is) S E i S' E' j =
     (let w = take (E b - S b) (drop (S b) s) in
      i + length w \<le> length s \<and> take (length w) (drop i s) = w \<and>
      matches s is S E (i + length w) S' E' j)"
| "matches s (BackMany b # is) S E i S' E' j = False"

text \<open>
  \<open>in_step\<close> ties the groups opened (\<open>B\<close>) and closed (\<open>K\<close>) so far to the arrays
  \<open>braslist\<close> and \<open>braelist\<close>; \<open>outcome\<close> says that a run of \<open>advance\<close> agrees with the
  reference matcher, and \<open>simulates\<close> that it does so from every position and state.
\<close>

definition groups_ok :: "u8 set \<Rightarrow> u8 set \<Rightarrow> groups \<Rightarrow> groups \<Rightarrow> nat \<Rightarrow> bool" where
  "groups_ok B K S E i \<longleftrightarrow>
     (\<forall>b \<in> B. unat b < NBRA \<and> S b \<le> i) \<and> (\<forall>b \<in> K. b \<in> B \<and> S b \<le> E b \<and> E b \<le> i)"

definition in_step :: "u8 set \<Rightarrow> u8 set \<Rightarrow> groups \<Rightarrow> groups \<Rightarrow> rx \<Rightarrow> bool" where
  "in_step B K S E g \<longleftrightarrow>
     length (braslist g) = NBRA \<and> length (braelist g) = NBRA \<and> locs g = None \<and>
     (\<forall>b \<in> B. braslist g ! unat b = Some (S b)) \<and> (\<forall>b \<in> K. braelist g ! unat b = Some (E b))"

fun bras :: "instr list \<Rightarrow> u8 set" where
  "bras [] = {}"
| "bras (Bra i # is) = insert i (bras is)"
| "bras (_ # is) = bras is"

fun kets :: "instr list \<Rightarrow> u8 set" where
  "kets [] = {}"
| "kets (Ket i # is) = insert i (kets is)"
| "kets (_ # is) = kets is"

definition same_frame :: "rx \<Rightarrow> rx \<Rightarrow> bool" where
  "same_frame g g' \<longleftrightarrow>
     braslist g' = braslist g \<and> braelist g' = braelist g \<and> sed g' = sed g \<and> nbra g' = nbra g \<and>
     loc1 g' = loc1 g \<and> loc2 g' = loc2 g \<and> locs g' = locs g \<and> nodelim g' = nodelim g \<and>
     circf g' = circf g"

definition subject_in :: "u8 list \<Rightarrow> u8 list \<Rightarrow> bool" where
  "subject_in s m \<longleftrightarrow> 0 \<notin> set s \<and> length s < 2 ^ 32 \<and> length s < length m \<and>
     take (length s) m = s \<and> m ! length s = 0"

definition outcome :: "u8 list \<Rightarrow> instr list \<Rightarrow> u8 set \<Rightarrow> u8 set \<Rightarrow> groups \<Rightarrow> groups \<Rightarrow> nat \<Rightarrow> rx \<Rightarrow> (bool \<times> rx) run \<Rightarrow> bool" where
  "outcome s is B K S E i g r \<longleftrightarrow>
     (\<exists>g'. r = Ok (greedy s is S E i \<noteq> None, g') \<and> loc1 g' = loc1 g \<and>
       (case greedy s is S E i of
          None \<Rightarrow> in_step B K S E g' \<and> loc2 g' = loc2 g
        | Some (S', E', j) \<Rightarrow> loc2 g' = Some j \<and> i \<le> j \<and> j \<le> length s \<and>
            groups_ok (B \<union> bras is) (K \<union> kets is) S' E' j \<and>
            in_step (B \<union> bras is) (K \<union> kets is) S' E' g'))"

definition simulates :: "u8 list \<Rightarrow> u8 list \<Rightarrow> u8 list \<Rightarrow> nat \<Rightarrow> u8 set \<Rightarrow> u8 set \<Rightarrow> instr list \<Rightarrow> bool" where
  "simulates s m prog n B K is \<longleftrightarrow> (\<forall>pre post S E lp g.
     prog = pre @ encode is @ post \<longrightarrow> in_step B K S E g \<longrightarrow> groups_ok B K S E lp \<longrightarrow> lp \<le> length s \<longrightarrow>
     outcome s is B K S E lp g (advance n m prog lp (length pre) g))"

text \<open>
  \<open>leftmost\<close> is the reference for \<open>step\<close>; \<open>recorded\<close> says that \<open>loc1\<close>, \<open>loc2\<close> and
  the group arrays hold the match.
\<close>

definition no_groups :: groups where "no_groups = (\<lambda>_. 0)"

definition leftmost :: "u8 list \<Rightarrow> instr list \<Rightarrow> nat \<Rightarrow> (nat \<times> groups \<times> groups \<times> nat) option" where
  "leftmost s is p1 =
     first_some (\<lambda>i. map_option (Pair i) (greedy s is no_groups no_groups i)) [p1..<Suc (length s)]"

definition fresh :: "rx \<Rightarrow> bool" where
  "fresh g \<longleftrightarrow> length (braslist g) = NBRA \<and> length (braelist g) = NBRA \<and> locs g = None"

definition recorded :: "instr list \<Rightarrow> groups \<Rightarrow> groups \<Rightarrow> nat \<Rightarrow> nat \<Rightarrow> rx \<Rightarrow> bool" where
  "recorded is S' E' i j g \<longleftrightarrow> loc1 g = Some i \<and> loc2 g = Some j \<and>
     (\<forall>b \<in> bras is. braslist g ! unat b = Some (S' b)) \<and> (\<forall>b \<in> kets is. braelist g ! unat b = Some (E' b))"

section \<open>Bit maps and character tests\<close>

lemma run_bind_Ok: "run_bind r f = Ok y \<longleftrightarrow> (\<exists>x. r = Ok x \<and> f x = Ok y)"
  by (cases r) auto

lemma rd_nth [simp]: "i < length a \<Longrightarrow> rd a i = Ok (a ! i)"
  by (simp add: rd_def)

lemma rd_append_length [simp]: "rd (pre @ x # post) (length pre) = Ok x"
  by (simp add: rd_def)

lemma bittab_nth: "k < 8 \<Longrightarrow> bittab ! k = 2 ^ k"
  by (auto simp: bittab_def less_Suc_eq numeral_eq_Suc)

lemma and_7_less: "unat (c AND 7 :: u8) < 8"
proof -
  have "c AND 7 \<le> 7" by (rule word_and_le1)
  then show ?thesis by (simp add: word_le_nat_alt)
qed

lemma ISTHERE_map:
  assumes "ep + unat (drop_bit 3 c) < length prog"
  shows "ISTHERE prog ep c = Ok (bit (prog ! (ep + unat (drop_bit 3 c))) (unat (c AND 7)))"
  using assms by (simp add: ISTHERE_def bittab_nth and_7_less and_exp_eq_0_iff_not_bit)


lemma unat_map_index: "unat (drop_bit 3 (c :: u8)) = unat c div 8"
  by (simp add: drop_bit_eq_div unat_div)

lemma map_index: "unat (drop_bit 3 (c :: u8)) < 32"
proof -
  have "unat c < 256" using unsigned_less [of c] by simp
  then show ?thesis by (simp add: unat_map_index)
qed

lemma unat_ascii:
  assumes "\<not> bit c 7" shows "unat (c :: u8) < 128"
proof -
  have "c = take_bit 7 c"
  proof (rule bit_eqI)
    fix n show "bit c n = bit (take_bit 7 c) n"
      using assms by (cases "n = 7") (auto simp: bit_take_bit_iff dest: bit_imp_le_length)
  qed
  then have "unat c = take_bit 7 (unat c)" by (metis unsigned_take_bit_eq)
  moreover have "take_bit 7 (unat c) < 2 ^ 7" by (rule take_bit_nat_less_exp)
  ultimately show ?thesis by simp
qed

lemma map_index_ascii: "\<not> bit c 7 \<Longrightarrow> unat (drop_bit 3 (c :: u8)) < 16"
  using unat_ascii [of c] by (simp add: unat_map_index)

lemma ISTHERE_in_map:
  "unat (drop_bit 3 c) < length m \<Longrightarrow> ISTHERE (pre @ m @ post) (length pre) c = Ok (in_map m c)"
  by (simp add: ISTHERE_map in_map_def nth_append)

lemma ISTHERE_32:
  "length m = 32 \<Longrightarrow> ISTHERE (pre @ m @ post) (length pre) = (\<lambda>c. Ok (in_map m c))"
  by (rule ext) (simp add: ISTHERE_in_map map_index)

lemma cls_test_16:
  assumes "length m = 16"
  shows "cls_test False (pre @ m @ post) (length pre) = (\<lambda>c. Ok (atom_match (ACls m) c))"
    and "cls_test True (pre @ m @ post) (length pre) = (\<lambda>c. Ok (atom_match (ANcl m) c))"
  using assms by (auto simp: cls_test_def ISTHERE_in_map map_index_ascii)


lemma advance_One:
  assumes "prog = pre @ encode1 (One a) @ post" and "wf_atom a" and "lp < length m"
  shows "advance (Suc n) m prog lp (length pre) g =
    (if atom_match a (m ! lp)
     then advance n m prog (lp + 1) (length pre + length (encode1 (One a))) g else Ok (False, g))"
proof -
  have p: "prog = (pre @ [atom_op a]) @ atom_arg a @ post" using assms(1) by simp
  have op: "rd prog (length pre) = Ok (atom_op a)" using assms(1) by simp
  show ?thesis
  proof (cases a)
    case (AChr x)
    with p have "rd prog (Suc (length pre)) = Ok x" by (simp add: rd_def nth_append)
    with AChr op assms(3) show ?thesis by auto
  next
    case ADot
    with op assms(3) show ?thesis by (simp add: opcodes)
  next
    case (ACls b)
    with p assms(2) cls_test_16(1) [of b "pre @ [CCL]" post] op assms(3) show ?thesis
      by (simp add: opcodes add.commute [of _ "length pre"])
  next
    case (ANcl b)
    with p assms(2) cls_test_16(2) [of b "pre @ [NCCL]" post] op assms(3) show ?thesis
      by (simp add: opcodes add.commute [of _ "length pre"])
  next
    case (AXcl b)
    with p assms(2) ISTHERE_32 [of b "pre @ [CXCL]" post] op assms(3) show ?thesis
      by (simp add: opcodes add.commute [of _ "length pre"])
  qed
qed

lemma advance_Many:
  assumes "prog = pre @ encode1 (Many a) @ post" and "wf_atom a"
  shows "advance (Suc n) m prog lp (length pre) g =
    run_bind (skip_loop (\<lambda>c. Ok (atom_match a c)) (drop lp m) lp) (\<lambda>lp'.
      star_loop (\<lambda>lp'' g'. advance n m prog lp'' (length pre + length (encode1 (Many a))) g') lp lp' g)"
proof -
  have p: "prog = (pre @ [atom_op a OR STAR]) @ atom_arg a @ post" using assms(1) by simp
  have op: "rd prog (length pre) = Ok (atom_op a OR STAR)" using assms(1) by simp
  show ?thesis
  proof (cases a)
    case (AChr x)
    with p have "rd prog (Suc (length pre)) = Ok x" by (simp add: rd_def nth_append)
    with AChr op show ?thesis by (simp add: opcodes)
  next
    case ADot
    with op show ?thesis by (simp add: opcodes)
  next
    case (ACls b)
    with p assms(2) cls_test_16(1) [of b "pre @ [CCL OR STAR]" post] op show ?thesis
      by (simp add: opcodes add.commute [of _ "length pre"])
  next
    case (ANcl b)
    with p assms(2) cls_test_16(2) [of b "pre @ [NCCL OR STAR]" post] op show ?thesis
      by (simp add: opcodes add.commute [of _ "length pre"])
  next
    case (AXcl b)
    with p assms(2) ISTHERE_32 [of b "pre @ [CXCL OR STAR]" post] op show ?thesis
      by (simp add: opcodes add.commute [of _ "length pre"])
  qed
qed

lemma advance_Rep:
  assumes "prog = pre @ encode1 (Rep a l h) @ post" and "wf_atom a"
  shows "advance (Suc n) m prog lp (length pre) g =
    rnge (\<lambda>ep' lp' g'. advance n m prog lp' ep' g') (\<lambda>c. Ok (atom_match a c)) m prog lp
      (length pre + 1 + length (atom_arg a)) g"
proof -
  have p: "prog = (pre @ [atom_op a OR RNGE]) @ atom_arg a @ [l, h] @ post" using assms(1) by simp
  have op: "rd prog (length pre) = Ok (atom_op a OR RNGE)" using assms(1) by simp
  show ?thesis
  proof (cases a)
    case (AChr x)
    with p have "rd prog (Suc (length pre)) = Ok x" by (simp add: rd_def nth_append)
    with AChr op show ?thesis by (simp add: opcodes)
  next
    case ADot
    with op show ?thesis by (simp add: opcodes)
  next
    case (ACls b)
    with p assms(2) cls_test_16(1) [of b "pre @ [CCL OR RNGE]" "[l, h] @ post"] op show ?thesis
      by (simp add: opcodes add.commute [of _ "length pre"])
  next
    case (ANcl b)
    with p assms(2) cls_test_16(2) [of b "pre @ [NCCL OR RNGE]" "[l, h] @ post"] op show ?thesis
      by (simp add: opcodes add.commute [of _ "length pre"])
  next
    case (AXcl b)
    with p assms(2) ISTHERE_32 [of b "pre @ [CXCL OR RNGE]" "[l, h] @ post"] op show ?thesis
      by (simp add: opcodes add.commute [of _ "length pre"])
  qed
qed


lemma downto_unfold: "lo \<le> hi \<Longrightarrow> downto (Suc hi) lo = Suc hi # downto hi lo"
  by (simp add: downto_def)

lemma downto_same [simp]: "downto i i = [i]"
  by (simp add: downto_def)

lemma star_loop_search:
  assumes adv: "\<And>q g. lo \<le> q \<Longrightarrow> q \<le> hi \<Longrightarrow> I g \<Longrightarrow> locs g = None \<and>
      (\<exists>g'. adv q g = Ok (f q \<noteq> None, g') \<and> (case f q of None \<Rightarrow> I g' | Some r \<Rightarrow> R r g'))"
    and "I g" and "lo \<le> hi"
  shows "\<exists>g'. star_loop adv lo (Suc hi) g = Ok (first_some f (downto hi lo) \<noteq> None, g') \<and>
      (case first_some f (downto hi lo) of None \<Rightarrow> I g' | Some r \<Rightarrow> R r g')"
  using assms(3,1,2)
proof (induction hi arbitrary: g rule: dec_induct)
  case base
  from base(1) [OF _ _ base(2)] obtain g' where "adv lo g = Ok (f lo \<noteq> None, g')"
    "case f lo of None \<Rightarrow> I g' | Some r \<Rightarrow> R r g'" "locs g = None" by blast
  then show ?case by (cases "f lo") auto
next
  case (step h)
  from step.prems(1) [OF _ _ step.prems(2), of "Suc h"] step.hyps
  obtain g' where g': "adv (Suc h) g = Ok (f (Suc h) \<noteq> None, g')"
    "case f (Suc h) of None \<Rightarrow> I g' | Some r \<Rightarrow> R r g'" "locs g = None" by auto
  show ?case
  proof (cases "f (Suc h)")
    case None
    with g' step have "\<exists>g''. star_loop adv lo (Suc h) g' = Ok (first_some f (downto h lo) \<noteq> None, g'') \<and>
        (case first_some f (downto h lo) of None \<Rightarrow> I g'' | Some r \<Rightarrow> R r g'')"
      by (intro step.IH) auto
    moreover have "star_loop adv lo (Suc (Suc h)) g = star_loop adv lo (Suc h) g'"
      using g' None step.hyps by simp
    ultimately show ?thesis using None step.hyps
      by (simp add: downto_unfold del: star_loop.simps)
  qed (use g' step.hyps in \<open>auto simp: downto_unfold\<close>)
qed

lemma skip_loop_takeWhile:
  assumes "\<not> p 0"
  shows "skip_loop (\<lambda>c. Ok (p c)) (cs @ 0 # rest) lp = Ok (Suc (lp + length (takeWhile p cs)))"
  using assms by (induction cs arbitrary: lp) auto

lemma count_loop_takeWhile:
  assumes "\<not> p 0"
  shows "count_loop (\<lambda>c. Ok (p c)) k (cs @ 0 # rest) lp =
    (let t = length (takeWhile p cs) in
     if unat k \<le> t then Ok (True, - 1, lp + unat k)
     else Ok (False, k - of_nat t - 1, Suc (lp + t)))"
  using assms
proof (induction cs arbitrary: k lp)
  case Nil
  then show ?case by (simp add: unat_eq_0 Let_def)
next
  case (Cons c cs)
  show ?case
  proof (cases "k = 0")
    case False
    then have "unat (k - 1) = unat k - 1" "0 < unat k"
      by (simp_all add: unat_minus_one unat_gt_0)
    with Cons False show ?thesis by (simp add: Let_def) linarith
  qed simp
qed

lemma takeWhile_prefix_iff:
  "k \<le> length (takeWhile p d) \<longleftrightarrow> k \<le> length d \<and> (\<forall>c \<in> set (take k d). p c)"
proof (induction d arbitrary: k)
  case (Cons x d)
  then show ?case by (cases k) auto
qed simp

lemma run_of_iff:
  "i \<le> length s \<Longrightarrow> run_of a s i k \<longleftrightarrow> k \<le> length (takeWhile (atom_match a) (drop i s))"
  by (auto simp: run_of_def takeWhile_prefix_iff)

lemma wf_atom_not_0: "wf_atom a \<Longrightarrow> \<not> atom_match a 0"
  by (cases a) auto

lemma ecmp_prefix:
  "0 \<notin> set xs \<Longrightarrow> 0 \<notin> set ys \<Longrightarrow> n \<le> length xs \<Longrightarrow>
   ecmp (xs @ 0 # u) (ys @ 0 # v) n = Ok (n \<le> length ys \<and> take n ys = take n xs)"
proof (induction xs arbitrary: ys n)
  case (Cons x xs)
  then show ?case by (cases n; cases ys) auto
qed simp

lemma in_step_frame [simp]:
  "in_step B K S E (g\<lparr>low := x\<rparr>) = in_step B K S E g"
  "in_step B K S E (g\<lparr>size_r := y\<rparr>) = in_step B K S E g"
  "in_step B K S E (g\<lparr>loc2 := z\<rparr>) = in_step B K S E g"
  by (simp_all add: in_step_def)

lemma unat_u8_less: "unat (x :: u8) < 256"
proof -
  have "unat x < 2 ^ LENGTH(8)" by (rule unsigned_less)
  then show ?thesis by simp
qed

lemma unat_ucast_u8_u32 [simp]: "unat (ucast (x :: u8) :: u32) = unat x"
proof -
  have "unat x < 2 ^ 32" using unat_u8_less [of x] by simp
  then show ?thesis by (simp add: unsigned_ucast_eq take_bit_nat_eq_self_iff)
qed

lemma rep_size:
  assumes "l \<le> h"
  shows "unat ((if h = 255 then 20000 else ucast h - ucast l) :: u32) = rep_max l h - unat l"
proof -
  have "(ucast l :: u32) \<le> ucast h" using assms by (simp add: word_le_nat_alt)
  then show ?thesis by (simp add: rep_max_def unat_sub)
qed

lemma rep_size_bound: "unat ((if h = 255 then 20000 else ucast h - ucast (l::u8)) :: u32) \<le> 20000" if "l \<le> h"
proof -
  have "unat h < 256" by (rule unat_u8_less)
  then show ?thesis unfolding rep_size [OF that] by (auto simp: rep_max_def)
qed

lemma sint_of_nat_u32:
  assumes "n < 2 ^ 31" shows "sint (of_nat n :: u32) = int n"
proof -
  have "take_bit 32 n = n" using assms by (intro take_bit_nat_eq_self) simp
  then show ?thesis
    using assms by (simp add: sint_uint unsigned_of_nat signed_take_bit_int_eq_self)
qed

lemma not_neg_count:
  assumes "unat (k :: u32) \<le> 20000" and "t < unat k"
  shows "\<not> k - of_nat t - 1 <s 0"
proof -
  obtain n where n: "unat k = t + 1 + n" using assms(2) that [of "unat k - t - 1"] by simp
  have "k = of_nat (unat k)" by simp
  also have "\<dots> = of_nat t + 1 + of_nat n" unfolding n by (simp only: of_nat_add of_nat_1)
  finally have "k - of_nat t - 1 = of_nat n" by simp
  moreover have "n < 2 ^ 31" using n assms(1) by simp
  ultimately show ?thesis by (simp add: word_sless_alt sint_of_nat_u32)
qed

lemma same_frame_in_step: "same_frame g g' \<Longrightarrow> in_step B K S E g' = in_step B K S E g"
  by (simp add: same_frame_def in_step_def)
lemma drop_takeWhile_shift:
  "k \<le> length (takeWhile p d) \<Longrightarrow> length (takeWhile p (drop k d)) = length (takeWhile p d) - k"
proof (induction d arbitrary: k)
  case (Cons x d)
  then show ?case by (cases k) (auto split: if_splits)
qed simp

lemma rnge_search:
  defines "k0 \<equiv> (\<lambda>(l::u8) (h::u8). (if h = 255 then 20000 else ucast h - ucast l) :: u32)"
  assumes m: "m = s @ 0 # tail" and lp: "lp \<le> length s"
    and prog: "prog = pre @ [l, h] @ post" and "l \<le> h" and "\<not> p 0"
  defines "t \<equiv> length (takeWhile p (drop lp s))"
  shows "\<exists>g'. same_frame g g' \<and> rnge adv (\<lambda>c. Ok (p c)) m prog lp (length pre) g =
     (if unat l \<le> t
      then star_loop (adv (length pre + 2)) (lp + unat l) (Suc (lp + min t (rep_max l h))) g'
      else Ok (False, g'))"
proof -
  have g1: "getrnge prog (length pre) g = Ok (g\<lparr>low := ucast l, size_r := k0 l h\<rparr>)"
    using prog by (simp add: getrnge_def rd_def nth_append k0_def)
  have d: "drop lp m = drop lp s @ 0 # tail" using m lp by simp
  have c1: "count_loop (\<lambda>c. Ok (p c)) (ucast l) (drop lp m) lp =
      (if unat l \<le> t then Ok (True, - 1, lp + unat l)
       else Ok (False, ucast l - of_nat t - 1, Suc (lp + t)))"
    unfolding d t_def count_loop_takeWhile [where p = p, OF \<open>\<not> p 0\<close>] by (simp add: Let_def)
  show ?thesis
  proof (cases "unat l \<le> t")
    case False
    then show ?thesis by (simp add: rnge_def g1 c1 same_frame_def)
  next
    case True
    let ?lp1 = "lp + unat l" and ?t = "t - unat l"
    have lp1: "?lp1 \<le> length s"
      using True lp length_takeWhile_le [of p "drop lp s"] by (simp add: t_def)
    have d1: "drop ?lp1 m = drop ?lp1 s @ 0 # tail" using m lp1 by simp
    have t1: "length (takeWhile p (drop ?lp1 s)) = ?t"
      using drop_takeWhile_shift [of "unat l" p "drop lp s"] True by (simp add: t_def add.commute)
    have c2: "count_loop (\<lambda>c. Ok (p c)) (k0 l h) (drop ?lp1 m) ?lp1 =
      (if unat (k0 l h) \<le> ?t then Ok (True, - 1, ?lp1 + unat (k0 l h))
       else Ok (False, k0 l h - of_nat ?t - 1, Suc (?lp1 + ?t)))"
      unfolding d1 count_loop_takeWhile [where p = p, OF \<open>\<not> p 0\<close>] t1 by (simp add: Let_def)
    have k: "unat (k0 l h) = rep_max l h - unat l" "unat (k0 l h) \<le> 20000"
      using rep_size [OF \<open>l \<le> h\<close>] rep_size_bound [OF \<open>l \<le> h\<close>] by (simp_all add: k0_def)
    have lh: "unat l \<le> rep_max l h" using \<open>l \<le> h\<close> by (simp add: rep_max_def word_le_nat_alt)
    show ?thesis
    proof (cases "unat (k0 l h) \<le> ?t")
      case le: True
      then have "?lp1 + unat (k0 l h) + 1 = Suc (lp + min t (rep_max l h))"
        using k lh True by simp
      with le True show ?thesis
        by (intro exI [of _ "g\<lparr>low := - 1, size_r := - 1\<rparr>"])
           (simp add: rnge_def g1 c1 c2 same_frame_def add.assoc del: star_loop.simps)
    next
      case gt: False
      then have "\<not> k0 l h - of_nat ?t - 1 <s 0"
        using k(2) by (intro not_neg_count) auto
      moreover have "Suc (?lp1 + ?t) = Suc (lp + min t (rep_max l h))"
        using gt k lh True by simp
      ultimately show ?thesis
        using gt True
        by (intro exI [of _ "g\<lparr>low := - 1, size_r := k0 l h - of_nat ?t - 1\<rparr>"])
           (simp add: rnge_def g1 c1 c2 same_frame_def add.assoc del: star_loop.simps)
    qed
  qed
qed


lemma outcome_search:
  assumes adv: "\<And>q g'. lo \<le> q \<Longrightarrow> q \<le> hi \<Longrightarrow> in_step B K S E g' \<Longrightarrow>
      outcome s is B K S E q g' (adv q g')"
    and g: "in_step B K S E g" and "lo \<le> hi" and loc: "loc2 g = loc2 g0" "loc1 g = loc1 g0" and i: "i \<le> lo"
    and M: "greedy s (x # is) S E i = first_some (greedy s is S E) (downto hi lo)"
    and bk: "bras (x # is) = bras is" "kets (x # is) = kets is"
  shows "outcome s (x # is) B K S E i g0 (star_loop adv lo (Suc hi) g)"
proof -
  let ?I = "\<lambda>g'. in_step B K S E g' \<and> loc2 g' = loc2 g0 \<and> loc1 g' = loc1 g0"
  let ?R = "\<lambda>(S', E', j) g'. loc1 g' = loc1 g0 \<and> loc2 g' = Some j \<and> i \<le> j \<and> j \<le> length s \<and>
      groups_ok (B \<union> bras is) (K \<union> kets is) S' E' j \<and> in_step (B \<union> bras is) (K \<union> kets is) S' E' g'"
  have "\<exists>g'. star_loop adv lo (Suc hi) g = Ok (first_some (greedy s is S E) (downto hi lo) \<noteq> None, g') \<and>
      (case first_some (greedy s is S E) (downto hi lo) of None \<Rightarrow> ?I g' | Some r \<Rightarrow> ?R r g')"
  proof (rule star_loop_search)
    fix q g' assume q: "lo \<le> q" "q \<le> hi" and I: "?I g'"
    with adv [of q g'] have "outcome s is B K S E q g' (adv q g')" by blast
    moreover from I have "locs g' = None" by (simp add: in_step_def)
    ultimately show "locs g' = None \<and> (\<exists>g''. adv q g' = Ok (greedy s is S E q \<noteq> None, g'') \<and>
        (case greedy s is S E q of None \<Rightarrow> ?I g'' | Some r \<Rightarrow> ?R r g''))"
      using I q i by (auto simp: outcome_def split: option.splits)
  qed (use g \<open>lo \<le> hi\<close> loc in auto)
  then show ?thesis unfolding outcome_def M bk by (auto split: option.splits simp del: star_loop.simps)
qed

lemma outcome_step:
  assumes "outcome s is B' K' S' E' i' g0 r" and "loc2 g0 = loc2 g" "loc1 g0 = loc1 g" and "i \<le> i'"
    and "greedy s (x # is) S E i = greedy s is S' E' i'"
    and "B \<union> bras (x # is) = B' \<union> bras is" "K \<union> kets (x # is) = K' \<union> kets is"
    and "\<And>g'. in_step B' K' S' E' g' \<Longrightarrow> in_step B K S E g'"
  shows "outcome s (x # is) B K S E i g r"
  using assms unfolding outcome_def by (auto split: option.splits)

lemma outcome_fail:
  assumes "r = Ok (False, g')" "greedy s is S E i = None" "in_step B K S E g'" "loc2 g' = loc2 g" "loc1 g' = loc1 g"
  shows "outcome s is B K S E i g r"
  using assms by (simp add: outcome_def)

lemma advance_CCEOF:
  assumes "prog = pre @ CCEOF # post"
  shows "advance (Suc n) m prog lp (length pre) g = Ok (True, g\<lparr>loc2 := Some lp\<rparr>)"
  using assms by (simp add: opcodes)


lemma unat_of_nat_u32: "n < 2 ^ 32 \<Longrightarrow> unat (of_nat n :: u32) = n"
  by (rule of_nat_inverse [OF refl]) simp
lemma back_count:
  assumes "b \<le> e" and "e < 2 ^ 32"
  shows "unat (of_nat e - of_nat b :: u32) = e - b"
proof -
  have "(of_nat e - of_nat b :: u32) = of_nat (e - b)" using assms(1) by (rule of_nat_diff [symmetric])
  moreover have "e - b < 2 ^ 32" using assms(2) by (rule less_imp_diff_less)
  ultimately show ?thesis by (simp only: unat_of_nat_u32)
qed

lemma groups_ok_mono: "groups_ok B K S E i \<Longrightarrow> i \<le> j \<Longrightarrow> groups_ok B K S E j"
  by (auto simp: groups_ok_def)

lemma subject_inD:
  assumes "subject_in s m"
  obtains tail where "m = s @ 0 # tail" "0 \<notin> set s" "length s < 2 ^ 32"
proof -
  from assms have "m = s @ 0 # drop (Suc (length s)) m"
    by (metis subject_in_def append_take_drop_id Cons_nth_drop_Suc)
  with that assms show ?thesis by (auto simp: subject_in_def)
qed

lemma simulatesI:
  assumes "\<And>pre post S E lp g. prog = pre @ encode1 x @ encode is @ post \<Longrightarrow>
      prog = (pre @ encode1 x) @ encode is @ post \<Longrightarrow> in_step B K S E g \<Longrightarrow>
      groups_ok B K S E lp \<Longrightarrow> lp \<le> length s \<Longrightarrow>
      outcome s (x # is) B K S E lp g (advance n m prog lp (length pre) g)"
  shows "simulates s m prog n B K (x # is)"
  unfolding simulates_def using assms by (simp add: encode_def)

lemma simulatesD:
  assumes "simulates s m prog n B K is" "prog = pre @ encode is @ post" "in_step B K S E g"
    "groups_ok B K S E lp" "lp \<le> length s"
  shows "outcome s is B K S E lp g (advance n m prog lp (length pre) g)"
  using assms by (simp add: simulates_def)

lemma simulates_Nil: "simulates s m prog (Suc n) B K []"
  unfolding simulates_def
proof (intro allI impI)
  fix pre post S E lp g
  assume p: "prog = pre @ encode [] @ post" and "in_step B K S E g" "groups_ok B K S E lp" "lp \<le> length s"
  with advance_CCEOF [of prog pre post n m lp g]
  show "outcome s [] B K S E lp g (advance (Suc n) m prog lp (length pre) g)"
    by (simp add: encode_def outcome_def del: advance.simps)
qed

lemma simulates_One:
  assumes s: "subject_in s m" and wf: "wf_atom a" and rest: "simulates s m prog n B K is"
  shows "simulates s m prog (Suc n) B K (One a # is)"
proof (rule simulatesI)
  fix pre post S E lp g
  let ?pre = "pre @ encode1 (One a)"
  assume p: "prog = pre @ encode1 (One a) @ encode is @ post" "prog = ?pre @ encode is @ post"
    and g: "in_step B K S E g" "groups_ok B K S E lp" and lp: "lp \<le> length s"
  from s obtain tail where m: "m = s @ 0 # tail" by (rule subject_inD)
  have run: "advance (Suc n) m prog lp (length pre) g =
      (if atom_match a (m ! lp) then advance n m prog (lp + 1) (length ?pre) g else Ok (False, g))"
    using lp m by (subst advance_One [OF p(1) wf]) (simp_all del: encode1.simps)
  show "outcome s (One a # is) B K S E lp g (advance (Suc n) m prog lp (length pre) g)"
  proof (cases "lp < length s \<and> atom_match a (s ! lp)")
    case True
    then have "outcome s is B K S E (lp + 1) g (advance n m prog (lp + 1) (length ?pre) g)"
      using g by (intro simulatesD [OF rest p(2)]) (auto intro: groups_ok_mono)
    moreover have "m ! lp = s ! lp" using True m by (simp add: nth_append)
    ultimately show ?thesis
      unfolding run using True
      by (intro outcome_step [of s "is" B K S E "lp + 1"]) auto
  next
    case False
    then have "\<not> atom_match a (m ! lp)"
      using wf lp m by (auto simp: nth_append wf_atom_not_0 not_less dest: le_antisym)
    with False run g show ?thesis
      by (intro outcome_fail [where g' = g]) auto
  qed
qed

lemma simulates_Many:
  assumes s: "subject_in s m" and wf: "wf_atom a" and rest: "simulates s m prog n B K is"
  shows "simulates s m prog (Suc n) B K (Many a # is)"
proof (rule simulatesI)
  fix pre post S E lp g
  let ?pre = "pre @ encode1 (Many a)" and ?t = "length (takeWhile (atom_match a) (drop lp s))"
  let ?adv = "\<lambda>q g'. advance n m prog q (length ?pre) g'"
  assume p: "prog = pre @ encode1 (Many a) @ encode is @ post" "prog = ?pre @ encode is @ post"
    and g: "in_step B K S E g" "groups_ok B K S E lp" and lp: "lp \<le> length s"
  from s obtain tail where m: "m = s @ 0 # tail" by (rule subject_inD)
  have hi: "lp + ?t \<le> length s" using length_takeWhile_le [of "atom_match a" "drop lp s"] lp by simp
  have d: "drop lp m = drop lp s @ 0 # tail" using m lp by simp
  have "skip_loop (\<lambda>c. Ok (atom_match a c)) (drop lp m) lp = Ok (Suc (lp + ?t))"
    unfolding d using wf by (intro skip_loop_takeWhile) (simp add: wf_atom_not_0)
  then have run: "advance (Suc n) m prog lp (length pre) g = star_loop ?adv lp (Suc (lp + ?t)) g"
    by (subst advance_Many [OF p(1) wf]) (simp del: encode1.simps star_loop.simps)
  show "outcome s (Many a # is) B K S E lp g (advance (Suc n) m prog lp (length pre) g)"
    unfolding run
  proof (rule outcome_search [OF _ g(1)])
    fix q g' assume "lp \<le> q" "q \<le> lp + ?t" "in_step B K S E g'"
    then show "outcome s is B K S E q g' (?adv q g')"
      using g hi by (intro simulatesD [OF rest p(2)]) (auto intro: groups_ok_mono)
  qed (simp_all add: Let_def)
qed

lemma simulates_Rep:
  assumes s: "subject_in s m" and wf: "wf_atom a" "l \<le> h" and rest: "simulates s m prog n B K is"
  shows "simulates s m prog (Suc n) B K (Rep a l h # is)"
proof (rule simulatesI)
  fix pre post S E lp g
  let ?pre = "pre @ encode1 (Rep a l h)" and ?t = "length (takeWhile (atom_match a) (drop lp s))"
  let ?hi = "lp + min ?t (rep_max l h)" and ?arg = "pre @ (atom_op a OR RNGE) # atom_arg a"
  let ?adv = "\<lambda>q g'. advance n m prog q (length ?pre) g'"
  assume p: "prog = pre @ encode1 (Rep a l h) @ encode is @ post" "prog = ?pre @ encode is @ post"
    and g: "in_step B K S E g" "groups_ok B K S E lp" and lp: "lp \<le> length s"
  from s obtain tail where m: "m = s @ 0 # tail" by (rule subject_inD)
  have hi: "lp + ?t \<le> length s" using length_takeWhile_le [of "atom_match a" "drop lp s"] lp by simp
  have arg: "prog = ?arg @ [l, h] @ (encode is @ post)" using p(1) by simp
  have len: "length pre + 1 + length (atom_arg a) = length ?arg" "length ?arg + 2 = length ?pre" by simp_all
  obtain g' where g': "same_frame g g'" and run: "advance (Suc n) m prog lp (length pre) g =
      (if unat l \<le> ?t then star_loop ?adv (lp + unat l) (Suc ?hi) g' else Ok (False, g'))"
    using rnge_search [where p = "atom_match a" and adv = "\<lambda>ep' lp' g'. advance n m prog lp' ep' g'" and g = g,
        OF m lp arg wf(2) wf_atom_not_0 [OF wf(1)]]
    unfolding advance_Rep [OF p(1) wf(1), of n m lp g] len by blast
  have in': "in_step B K S E g'" and loc: "loc2 g' = loc2 g" "loc1 g' = loc1 g"
    using g(1) same_frame_in_step [OF g'] g' by (simp, simp_all add: same_frame_def)
  show "outcome s (Rep a l h # is) B K S E lp g (advance (Suc n) m prog lp (length pre) g)"
  proof (cases "unat l \<le> ?t")
    case True
    have "outcome s (Rep a l h # is) B K S E lp g (star_loop ?adv (lp + unat l) (Suc ?hi) g')"
    proof (rule outcome_search [OF _ in' _ loc])
      fix q g' assume "lp + unat l \<le> q" "q \<le> ?hi" "in_step B K S E g'"
      then show "outcome s is B K S E q g' (?adv q g')"
        using g hi by (intro simulatesD [OF rest p(2)]) (auto intro: groups_ok_mono)
    qed (use True wf in \<open>simp_all add: Let_def rep_max_def word_le_nat_alt\<close>)
    with True run show ?thesis by (simp del: star_loop.simps)
  next
    case False
    with run in' loc show ?thesis by (intro outcome_fail [where g' = g']) auto
  qed
qed
lemma simulates_Dol:
  assumes s: "subject_in s m" and rest: "simulates s m prog n B K is"
  shows "simulates s m prog (Suc n) B K (Dol # is)"
proof (rule simulatesI)
  fix pre post S E lp and g :: rx
  let ?pre = "pre @ encode1 Dol"
  assume p: "prog = pre @ encode1 Dol @ encode is @ post" "prog = ?pre @ encode is @ post"
    and g: "in_step B K S E g" "groups_ok B K S E lp" and lp: "lp \<le> length s"
  from s obtain tail where m: "m = s @ 0 # tail" "0 \<notin> set s" by (rule subject_inD)
  have op: "rd prog (length pre) = Ok CDOL" using p(1) by simp
  have rd: "rd m lp = Ok (m ! lp)" using m lp by simp
  have nul: "m ! lp = 0 \<longleftrightarrow> lp = length s"
  proof (cases "lp = length s")
    case False
    with lp have "s ! lp \<in> set s" "m ! lp = s ! lp" by (auto simp: m(1) nth_append)
    with m(2) False show ?thesis by auto
  qed (simp add: m)
  show "outcome s (Dol # is) B K S E lp g (advance (Suc n) m prog lp (length pre) g)"
  proof (cases "lp = length s")
    case True
    have "outcome s is B K S E lp g (advance n m prog lp (length ?pre) g)"
      by (rule simulatesD [OF rest p(2) g lp])
    moreover have "advance (Suc n) m prog lp (length pre) g = advance n m prog lp (length ?pre) g"
      using op rd nul True by (simp add: opcodes)
    ultimately show ?thesis
      using True by (auto intro!: outcome_step [of s "is" B K S E lp] simp del: advance.simps)
  next
    case False
    then have "advance (Suc n) m prog lp (length pre) g = Ok (False, g)"
      using op rd nul by (simp add: opcodes)
    with False g show ?thesis by (intro outcome_fail [where g' = g]) auto
  qed
qed

lemma simulates_Bra:
  assumes i: "unat i < NBRA" "i \<notin> B" "i \<notin> K" and rest: "simulates s m prog n (insert i B) K is"
  shows "simulates s m prog (Suc n) B K (Bra i # is)"
proof (rule simulatesI)
  fix pre post S E lp and g :: rx
  let ?pre = "pre @ encode1 (Bra i)" and ?g = "g\<lparr>braslist := (braslist g)[unat i := Some lp]\<rparr>"
  assume p: "prog = pre @ encode1 (Bra i) @ encode is @ post" "prog = ?pre @ encode is @ post"
    and g: "in_step B K S E g" "groups_ok B K S E lp" and lp: "lp \<le> length s"
  have op: "rd prog (length pre) = Ok CBRA" "rd prog (Suc (length pre)) = Ok i"
    using p(1) by (simp_all add: rd_def nth_append)
  have run: "advance (Suc n) m prog lp (length pre) g = advance n m prog lp (length ?pre) ?g"
    using op g i by (simp add: opcodes bra_set_def in_step_def)
  have "in_step (insert i B) K (S(i := lp)) E ?g"
    using g i by (auto simp: in_step_def nth_list_update dest: unsigned_word_eqI)
  moreover have "groups_ok (insert i B) K (S(i := lp)) E lp"
    using g i by (auto simp: groups_ok_def)
  ultimately have "outcome s is (insert i B) K (S(i := lp)) E lp ?g (advance n m prog lp (length ?pre) ?g)"
    using lp by (rule simulatesD [OF rest p(2)])
  moreover have "in_step B K S E g'" if "in_step (insert i B) K (S(i := lp)) E g'" for g'
    using that i by (auto simp: in_step_def)
  ultimately show "outcome s (Bra i # is) B K S E lp g (advance (Suc n) m prog lp (length pre) g)"
    unfolding run
    by (intro outcome_step [of s "is" "insert i B" K "S(i := lp)" E lp ?g]) auto
qed

lemma simulates_Ket:
  assumes i: "i \<in> B" "i \<notin> K" and rest: "simulates s m prog n B (insert i K) is"
  shows "simulates s m prog (Suc n) B K (Ket i # is)"
proof (rule simulatesI)
  fix pre post S E lp and g :: rx
  let ?pre = "pre @ encode1 (Ket i)" and ?g = "g\<lparr>braelist := (braelist g)[unat i := Some lp]\<rparr>"
  assume p: "prog = pre @ encode1 (Ket i) @ encode is @ post" "prog = ?pre @ encode is @ post"
    and g: "in_step B K S E g" "groups_ok B K S E lp" and lp: "lp \<le> length s"
  have op: "rd prog (length pre) = Ok CKET" "rd prog (Suc (length pre)) = Ok i"
    using p(1) by (simp_all add: rd_def nth_append)
  have nb: "unat i < NBRA" using g(2) i by (auto simp: groups_ok_def)
  then have run: "advance (Suc n) m prog lp (length pre) g = advance n m prog lp (length ?pre) ?g"
    using op g by (simp add: opcodes bra_set_def in_step_def)
  have "in_step B (insert i K) S (E(i := lp)) ?g"
    using g i nb by (auto simp: in_step_def nth_list_update dest: unsigned_word_eqI)
  moreover have "groups_ok B (insert i K) S (E(i := lp)) lp"
    using g i by (auto simp: groups_ok_def)
  ultimately have "outcome s is B (insert i K) S (E(i := lp)) lp ?g (advance n m prog lp (length ?pre) ?g)"
    using lp by (rule simulatesD [OF rest p(2)])
  moreover have "in_step B K S E g'" if "in_step B (insert i K) S (E(i := lp)) g'" for g'
    using that i by (auto simp: in_step_def)
  ultimately show "outcome s (Ket i # is) B K S E lp g (advance (Suc n) m prog lp (length pre) g)"
    unfolding run
    by (intro outcome_step [of s "is" B "insert i K" S "E(i := lp)" lp ?g]) auto
qed

lemma simulates_Back:
  assumes s: "subject_in s m" and iK: "i \<in> K" and rest: "simulates s m prog n B K is"
  shows "simulates s m prog (Suc n) B K (Back i # is)"
proof (rule simulatesI)
  fix pre post S E lp and g :: rx
  let ?pre = "pre @ encode1 (Back i)" and ?w = "take (E i - S i) (drop (S i) s)"
  let ?hit = "lp + length ?w \<le> length s \<and> take (length ?w) (drop lp s) = ?w"
  assume p: "prog = pre @ encode1 (Back i) @ encode is @ post" "prog = ?pre @ encode is @ post"
    and g: "in_step B K S E g" "groups_ok B K S E lp" and lp: "lp \<le> length s"
  from s obtain tail where m: "m = s @ 0 # tail" "0 \<notin> set s" "length s < 2 ^ 32" by (rule subject_inD)
  have op: "rd prog (length pre) = Ok CBACK" "rd prog (Suc (length pre)) = Ok i"
    using p(1) by (simp_all add: rd_def nth_append)
  have i: "i \<in> K" "i \<in> B" "unat i < NBRA" "S i \<le> E i" "E i \<le> length s"
    using iK g(2) lp by (auto simp: groups_ok_def)
  have w: "length ?w = E i - S i" using i by simp
  have ref: "back_ref prog (Suc (length pre)) g = Ok (S i, E i - S i)"
    using op g(1) i m(3) by (simp add: back_ref_def bra_get_def in_step_def back_count)
  have "ecmp (drop (S i) s @ 0 # tail) (drop lp s @ 0 # tail) (E i - S i) = Ok ?hit"
    using m(2) i lp w by (subst ecmp_prefix) (auto dest: in_set_dropD)
  then have "ecmp (drop (S i) m) (drop lp m) (E i - S i) = Ok ?hit" using m(1) i lp by simp
  with ref op w have run: "advance (Suc n) m prog lp (length pre) g =
      (if ?hit then advance n m prog (lp + length ?w) (length ?pre) g else Ok (False, g))"
    by (simp add: opcodes)
  show "outcome s (Back i # is) B K S E lp g (advance (Suc n) m prog lp (length pre) g)"
  proof (cases ?hit)
    case True
    then have "outcome s is B K S E (lp + length ?w) g (advance n m prog (lp + length ?w) (length ?pre) g)"
      using g by (intro simulatesD [OF rest p(2)]) (auto intro: groups_ok_mono)
    with True show ?thesis
      unfolding run by (intro outcome_step [of s "is" B K S E "lp + length ?w"])
        (auto simp: Let_def)
  next
    case False
    with run g show ?thesis
      by (intro outcome_fail [where g' = g]) (auto simp: Let_def)
  qed
qed

lemmas simulates_intros = simulates_Nil simulates_One simulates_Many simulates_Rep simulates_Dol
  simulates_Bra simulates_Ket simulates_Back

theorem advance_matches:
  assumes "subject_in s m"
  shows "wf_prog B K is \<Longrightarrow> length is < n \<Longrightarrow> simulates s m prog n B K is"
proof (induction B K "is" arbitrary: n rule: wf_prog.induct)
  case (1 B K)
  then show ?case by (cases n) (auto intro: simulates_Nil)
qed (use assms in \<open>auto elim!: less_natE simp: less_Suc_eq_le Suc_le_eq intro!: simulates_intros\<close>)

lemma first_some_None: "first_some f xs = None \<longleftrightarrow> (\<forall>x \<in> set xs. f x = None)"
  by (induction xs) (auto split: option.splits)

lemma first_some_Some: "first_some f xs = Some y \<Longrightarrow> \<exists>x \<in> set xs. f x = Some y"
  by (induction xs) (auto split: option.splits)

lemma set_downto [simp]: "set (downto hi lo) = {lo..hi}"
  by (auto simp: downto_def)

lemma greedy_matches:
  "greedy s is S E i = Some (S', E', j) \<Longrightarrow> i \<le> length s \<Longrightarrow> matches s is S E i S' E' j"
proof (induction s "is" S E i rule: greedy.induct)
  case (3 s a "is" S E i)
  let ?t = "length (takeWhile (atom_match a) (drop i s))"
  from 3(2) obtain q where q: "q \<in> {i..i + ?t}" "greedy s is S E q = Some (S', E', j)"
    by (auto simp: Let_def dest: first_some_Some)
  have "i + ?t \<le> length s" using length_takeWhile_le [of "atom_match a" "drop i s"] 3(3) by simp
  then have "matches s is S E q S' E' j" using q by (intro 3(1) [OF refl q(2)]) auto
  with q 3(3) show ?case
    by (auto simp: run_of_iff intro!: exI [of _ "q - i"])
next
  case (4 s a l h "is" S E i)
  let ?t = "length (takeWhile (atom_match a) (drop i s))"
  from 4(2) obtain q where l: "unat l \<le> ?t" and q: "q \<in> {i + unat l..i + min ?t (rep_max l h)}"
      "greedy s is S E q = Some (S', E', j)"
    by (auto simp: Let_def dest: first_some_Some split: if_splits)
  have "i + ?t \<le> length s" using length_takeWhile_le [of "atom_match a" "drop i s"] 4(3) by simp
  then have "matches s is S E q S' E' j" using q by (intro 4(1) [OF refl l q(2)]) auto
  with q 4(3) show ?case
    by (auto simp: run_of_iff intro!: exI [of _ "q - i"])
qed (auto simp: Let_def split: if_splits)

lemma greedy_None:
  "matches s is S E i S' E' j \<Longrightarrow> i \<le> length s \<Longrightarrow> greedy s is S E i \<noteq> None"
proof (induction s "is" S E i S' E' j rule: matches.induct)
  case (3 s a "is" S E i S' E' j)
  then obtain k where k: "run_of a s i k" "matches s is S E (i + k) S' E' j" by auto
  then have "i + k \<le> length s" by (simp add: run_of_def)
  with 3 k have "greedy s is S E (i + k) \<noteq> None" by blast
  with k 3(3) show ?case by (auto simp: Let_def run_of_iff first_some_None intro!: bexI [of _ "i + k"])
next
  case (4 s a l h "is" S E i S' E' j)
  then obtain k where k: "unat l \<le> k" "k \<le> rep_max l h" "run_of a s i k" "matches s is S E (i + k) S' E' j"
    by auto
  then have "i + k \<le> length s" by (simp add: run_of_def)
  with 4 k have "greedy s is S E (i + k) \<noteq> None" by blast
  with k 4(3) show ?case by (auto simp: Let_def run_of_iff first_some_None intro!: bexI [of _ "i + k"])
qed (auto simp: Let_def)

lemma fresh_in_step: "fresh g \<longleftrightarrow> in_step {} {} S E g"
  by (simp add: fresh_def in_step_def)

lemma step_fast_regular:
  assumes "rd prog p2 = Ok CCHR" "rd prog (p2 + 1) = Ok c"
  shows "step_fast (Suc n) s prog p2 c (drop p1 s) p1 g = step_regular (Suc n) s prog p2 (drop p1 s) p1 g"
proof (induction "drop p1 s" arbitrary: p1 g)
  case (Cons x xs)
  then have x: "p1 < length s" "x = s ! p1" "xs = drop (Suc p1) s"
    by (metis drop_eq_Nil linorder_not_less list.distinct(1),
        metis nth_via_drop, metis drop_Suc tl_drop list.sel(3))
  then have "rd s p1 = Ok x" by simp
  then have "(if x \<noteq> c then Ok (False, g) else advance (Suc n) s prog p1 p2 g) = advance (Suc n) s prog p1 p2 g"
    using assms by auto
  with Cons(1) [OF x(3)] x(3) Cons(2) show ?case
    unfolding Cons(2) [symmetric] by (simp del: advance.simps cong: if_cong)
qed simp

lemma step_regular_search:
  assumes s: "subject_in s m" and "p1 \<le> length s" and "fresh g"
    and adv: "\<And>q g. q \<le> length s \<Longrightarrow> fresh g \<Longrightarrow>
      outcome s is {} {} no_groups no_groups q g (advance n m prog q p2 g)"
  shows "\<exists>g'. step_regular n m prog p2 (drop p1 m) p1 g = Ok (leftmost s is p1 \<noteq> None, g') \<and>
    (case leftmost s is p1 of None \<Rightarrow> fresh g' \<and> loc2 g' = loc2 g
     | Some (i, S', E', j) \<Rightarrow> recorded is S' E' i j g' \<and> i \<le> j \<and> j \<le> length s)"
  using assms(2,3)
proof (induction "length s - p1" arbitrary: p1 g)
  case 0
  from s obtain tail where m: "m = s @ 0 # tail" by (rule subject_inD)
  have "p1 = length s" using 0 by simp
  with adv [of p1 g] 0 show ?case
    by (auto simp: m outcome_def leftmost_def recorded_def in_step_def fresh_def split: option.splits)
next
  case (Suc d)
  from s obtain tail where m: "m = s @ 0 # tail" "0 \<notin> set s" by (rule subject_inD)
  have lt: "p1 < length s" using Suc by simp
  then have "s ! p1 \<in> set s" by simp
  with m(2) have nz: "s ! p1 \<noteq> 0" by metis
  have d: "drop p1 m = s ! p1 # drop (p1 + 1) m" using lt by (simp add: m(1) Cons_nth_drop_Suc)
  have up: "[p1..<Suc (length s)] = p1 # [p1 + 1..<Suc (length s)]" using lt by (simp add: upt_rec)
  from adv [of p1 g] lt Suc.prems obtain g1 where
    a: "advance n m prog p1 p2 g = Ok (greedy s is no_groups no_groups p1 \<noteq> None, g1)" and
    r: "case greedy s is no_groups no_groups p1 of None \<Rightarrow> fresh g1 \<and> loc2 g1 = loc2 g
        | Some (S', E', j) \<Rightarrow> recorded is S' E' p1 j (g1\<lparr>loc1 := Some p1\<rparr>) \<and> p1 \<le> j \<and> j \<le> length s"
    by (auto simp: outcome_def recorded_def in_step_def fresh_def split: option.splits)
  show ?case
  proof (cases "greedy s is no_groups no_groups p1")
    case None
    then have "leftmost s is p1 = leftmost s is (p1 + 1)" by (simp add: leftmost_def up del: upt_Suc)
    moreover have "d = length s - (p1 + 1)" using Suc(2) by simp
    moreover have "fresh g1" "loc2 g1 = loc2 g" using None r by simp_all
    ultimately show ?thesis using None a d nz Suc(1) [of "p1 + 1" g1] lt by (simp cong: option.case_cong)
  next
    case (Some y)
    then have "leftmost s is p1 = Some (p1, y)" by (simp add: leftmost_def up del: upt_Suc)
    with Some r a d show ?thesis by (auto split: prod.splits)
  qed
qed

lemma first_some_upt:
  "first_some f [a..<b] = Some y \<Longrightarrow> \<exists>i. a \<le> i \<and> i < b \<and> f i = Some y \<and> (\<forall>k. a \<le> k \<and> k < i \<longrightarrow> f k = None)"
proof (induction "b - a" arbitrary: a)
  case (Suc d)
  then have "[a..<b] = a # [Suc a..<b]" "d = b - Suc a" by (simp_all add: upt_rec)
  note u = this
  show ?case
  proof (cases "f a")
    case None
    with u Suc(1) [of "Suc a"] Suc(3) obtain i where i: "Suc a \<le> i" "i < b" "f i = Some y"
        "\<forall>k. Suc a \<le> k \<and> k < i \<longrightarrow> f k = None" by auto
    then have "\<forall>k. a \<le> k \<and> k < i \<longrightarrow> f k = None" using None by (metis Suc_leI le_neq_implies_less)
    with i show ?thesis by (intro exI [of _ i]) auto
  qed (use u Suc in \<open>auto intro!: exI [of _ a]\<close>)
qed simp

lemma leftmost_Some:
  assumes "leftmost s is 0 = Some (i, S', E', j)"
  shows "i \<le> length s" "greedy s is no_groups no_groups i = Some (S', E', j)"
    "matches s is no_groups no_groups i S' E' j"
    "k < i \<Longrightarrow> \<not> matches s is no_groups no_groups k S'' E'' j'"
proof -
  from first_some_upt [OF assms [unfolded leftmost_def]]
  show i: "i \<le> length s" and g: "greedy s is no_groups no_groups i = Some (S', E', j)" by auto
  from first_some_upt [OF assms [unfolded leftmost_def]]
  have "greedy s is no_groups no_groups k = None" if "k < i" for k
    using that by auto
  then show "k < i \<Longrightarrow> \<not> matches s is no_groups no_groups k S'' E'' j'"
    using greedy_None [of s "is" no_groups no_groups k S'' E'' j'] i by auto
  from g i show "matches s is no_groups no_groups i S' E' j" by (rule greedy_matches)
qed

lemma leftmost_None:
  "leftmost s is 0 = None \<Longrightarrow> i \<le> length s \<Longrightarrow> \<not> matches s is no_groups no_groups i S' E' j"
  using greedy_None [of s "is" no_groups no_groups i S' E' j]
  by (auto simp: leftmost_def first_some_None simp del: upt_Suc)

lemma advance_fresh:
  assumes "subject_in s m" "wf_prog {} {} is" "length is < n" "prog = encode is @ post"
    "q \<le> length s" "fresh g"
  shows "outcome s is {} {} no_groups no_groups q g (advance n m prog q 0 g)"
  using simulatesD [OF advance_matches [OF assms(1,2,3)], of prog "[]" post no_groups no_groups g q] assms
  by (simp add: fresh_in_step [symmetric] groups_ok_def)

lemma step_regular_eq:
  assumes "\<not> circf g" "rd prog p2 = Ok op" "op = CCHR \<longrightarrow> p2 + 1 < length prog"
  shows "step (Suc n) s prog p1 p2 g = step_regular (Suc n) s prog p2 (drop p1 s) p1 g"
  using assms step_fast_regular [of prog p2 "prog ! (p2 + 1)" n s p1 g]
  by (auto simp: step_def simp del: advance.simps)

lemma encode_head:
  "\<exists>op rest. encode is = op # rest \<and> (op = CCHR \<longrightarrow> rest \<noteq> [])"
proof (cases "is")
  case (Cons x xs)
  then show ?thesis by (cases x) (auto simp: encode_def opcodes)
qed (auto simp: encode_def opcodes)

lemma step_search:
  assumes "subject_in s m" and "wf_prog {} {} is" and "length is < n"
    and "fresh g" and "\<not> circf g"
  shows "\<exists>g'. step n m (encode is @ post) 0 0 g = Ok (leftmost s is 0 \<noteq> None, g') \<and>
    (case leftmost s is 0 of
       None \<Rightarrow> loc2 g' = loc2 g \<and> (\<forall>i S E j. i \<le> length s \<longrightarrow> \<not> matches s is no_groups no_groups i S E j)
     | Some (i, S, E, j) \<Rightarrow> recorded is S E i j g' \<and> i \<le> j \<and> j \<le> length s \<and>
         matches s is no_groups no_groups i S E j \<and>
         (\<forall>k S' E' j'. k < i \<longrightarrow> \<not> matches s is no_groups no_groups k S' E' j'))"
proof -
  obtain op rest where h: "encode is = op # rest" "op = CCHR \<longrightarrow> rest \<noteq> []"
    using encode_head by blast
  obtain n' where n: "n = Suc n'" using assms(3) by (cases n) auto
  have "step n m (encode is @ post) 0 0 g = step_regular n m (encode is @ post) 0 (drop 0 m) 0 g"
    unfolding n using assms(5) h by (intro step_regular_eq) (auto simp: rd_def)
  moreover obtain g' where "step_regular n m (encode is @ post) 0 (drop 0 m) 0 g = Ok (leftmost s is 0 \<noteq> None, g')"
    "case leftmost s is 0 of None \<Rightarrow> fresh g' \<and> loc2 g' = loc2 g
     | Some (i, S', E', j) \<Rightarrow> recorded is S' E' i j g' \<and> i \<le> j \<and> j \<le> length s"
    using step_regular_search [OF assms(1) _ assms(4) advance_fresh [OF assms(1-3) refl], of 0 post] by auto
  ultimately show ?thesis
    using leftmost_Some [of s "is"] leftmost_None [of s "is"]
    by (intro exI [of _ g']) (auto split: option.splits)
qed

text \<open>The loop of a starred back-reference to an empty group makes no progress.\<close>

lemma back_loop_empty: "back_loop n s b 0 lp = OutOfFuel"
  by (induction n) simp_all

lemma advance_back_star:
  assumes "rd prog ep = Ok (CBACK OR STAR)" "rd prog (ep + 1) = Ok i"
    and "rd (braslist g) (unat i) = Ok (Some p)" "rd (braelist g) (unat i) = Ok (Some p)"
  shows "advance n m prog lp ep g = OutOfFuel"
  using assms by (cases n) (simp_all add: opcodes back_ref_def bra_get_def back_loop_empty)

section \<open>Properties\<close>

text \<open>C2: On a NUL-terminated subject and a well-formed unanchored program, \<open>step\<close> terminates without
  a fault. It succeeds exactly when the program matches from some position; it then reports the leftmost
  such position in \<open>loc1\<close>, the end of the match in \<open>loc2\<close> and the groups in \<open>braslist\<close> and
  \<open>braelist\<close>. On failure \<open>loc2\<close> is unchanged and no position matches.\<close>

theorem step_leftmost:
  assumes "subject_in s m" and "wf_prog {} {} is" and "length is < n"
    and "fresh g" and "\<not> circf g"
  shows "\<exists>g'. step n m (encode is @ post) 0 0 g = Ok (leftmost s is 0 \<noteq> None, g') \<and>
    (case leftmost s is 0 of
       None \<Rightarrow> loc2 g' = loc2 g \<and> (\<forall>i S E j. i \<le> length s \<longrightarrow> \<not> matches s is no_groups no_groups i S E j)
     | Some (i, S, E, j) \<Rightarrow> recorded is S E i j g' \<and> i \<le> j \<and> j \<le> length s \<and>
         matches s is no_groups no_groups i S E j \<and>
         (\<forall>k S' E' j'. k < i \<longrightarrow> \<not> matches s is no_groups no_groups k S' E' j'))"
  using assms by (rule step_search)

theorem step_leftmost_witness:
  "\<exists>g'. step 4 [120, 97, 98, 98, 0] (encode [One (AChr 97), Many (AChr 98), Dol]) 0 0 rx_init = Ok (True, g') \<and>
     loc1 g' = Some 1 \<and> loc2 g' = Some 4"
proof -
  let ?s = "[120, 97, 98, 98] :: u8 list" and ?is = "[One (AChr 97), Many (AChr 98), Dol]"
  have "subject_in ?s [120, 97, 98, 98, 0]" "wf_prog {} {} ?is" "fresh rx_init" "\<not> circf rx_init"
    by (simp_all add: subject_in_def fresh_def rx_init_def)
  moreover have "leftmost ?s ?is 0 = Some (1, no_groups, no_groups, 4)"
    by (simp add: leftmost_def upt_rec downto_def)
  ultimately show ?thesis
    using step_leftmost [of ?s "[120, 97, 98, 98, 0]" ?is 4 rx_init "[]"] by (auto simp: recorded_def)
qed

text \<open>C5: An anchored program (\<open>circf\<close> set) is tried at the start of the subject only; \<open>step\<close>
  succeeds exactly when it matches there and records that match.\<close>

theorem step_anchored:
  assumes "subject_in s m" and "wf_prog {} {} is" and "length is < n"
    and "fresh g" and "circf g"
  shows "\<exists>g'. step n m (encode is @ post) 0 0 g = Ok (greedy s is no_groups no_groups 0 \<noteq> None, g') \<and>
    (case greedy s is no_groups no_groups 0 of
       None \<Rightarrow> loc2 g' = loc2 g \<and> (\<forall>S E j. \<not> matches s is no_groups no_groups 0 S E j)
     | Some (S, E, j) \<Rightarrow> recorded is S E 0 j g' \<and> j \<le> length s \<and> matches s is no_groups no_groups 0 S E j)"
proof -
  let ?g = "g\<lparr>loc1 := Some 0\<rparr>"
  have "outcome s is {} {} no_groups no_groups 0 ?g (advance n m (encode is @ post) 0 0 ?g)"
    using assms by (intro advance_fresh) (auto simp: fresh_def)
  moreover have "step n m (encode is @ post) 0 0 g = advance n m (encode is @ post) 0 0 ?g"
    using assms(5) by (simp add: step_def)
  ultimately have "outcome s is {} {} no_groups no_groups 0 ?g (step n m (encode is @ post) 0 0 g)" by simp
  then obtain g' where r: "step n m (encode is @ post) 0 0 g = Ok (greedy s is no_groups no_groups 0 \<noteq> None, g')"
    "loc1 g' = Some 0" and
    "case greedy s is no_groups no_groups 0 of
          None \<Rightarrow> in_step {} {} no_groups no_groups g' \<and> loc2 g' = loc2 ?g
        | Some (S', E', j) \<Rightarrow> loc2 g' = Some j \<and> 0 \<le> j \<and> j \<le> length s \<and>
            groups_ok ({} \<union> bras is) ({} \<union> kets is) S' E' j \<and> in_step ({} \<union> bras is) ({} \<union> kets is) S' E' g'"
    unfolding outcome_def by auto
  then show ?thesis
    using greedy_matches [of s "is" no_groups no_groups 0] greedy_None [of s "is" no_groups no_groups 0]
    by (intro exI [of _ g'] conjI r(1)) (auto simp: in_step_def recorded_def split: option.splits)
qed


theorem step_anchored_witness:
  "\<exists>g'. step 3 [97, 98, 0] (encode [One (AChr 98)]) 0 0 (rx_init\<lparr>circf := True\<rparr>) = Ok (False, g') \<and> loc2 g' = None"
proof -
  have "subject_in [97, 98] [97, 98, 0 :: u8]" "wf_prog {} {} [One (AChr 98)]"
    "fresh (rx_init\<lparr>circf := True\<rparr>)" "circf (rx_init\<lparr>circf := True\<rparr>)"
    by (simp_all add: subject_in_def fresh_def rx_init_def)
  from step_anchored [OF this(1,2) _ this(3,4), of 3 "[]"] show ?thesis
    by (auto simp: rx_init_def)
qed

text \<open>C6: The fast path of \<open>step\<close>, which skips positions whose character differs from a leading
  literal, computes exactly what the regular loop computes, on every program and subject.\<close>

theorem step_fast_path:
  assumes "\<not> circf g" "rd prog p2 = Ok op" "op = CCHR \<longrightarrow> p2 + 1 < length prog"
  shows "step (Suc n) s prog p1 p2 g = step_regular (Suc n) s prog p2 (drop p1 s) p1 g"
  using assms by (rule step_regular_eq)

theorem step_fast_path_witness:
  "step (Suc 5) [98, 97, 0] [CCHR, 97, CCEOF] 0 0 rx_init =
     step_regular (Suc 5) [98, 97, 0] [CCHR, 97, CCEOF] 0 [98, 97, 0] 0 rx_init"
  using step_fast_path [of rx_init "[CCHR, 97, CCEOF]" 0 CCHR 5 "[98, 97, 0]" 0]
  by (simp add: rx_init_def rd_def del: advance.simps step_regular.simps)

end
