(* ===== verification/RegexpPattern.thy ===== *)
theory RegexpPattern
  imports RegexpCompile RegexpMatch
begin

unbundle bit_operations_syntax

text \<open>
  Patterns as text, and the composition of \<open>compile\<close> with \<open>step\<close>: compiling the text of a
  well-formed pattern gives exactly the encoding of its program, and running \<open>step\<close> on the result finds
  the leftmost match of that program.
\<close>

section \<open>Patterns and their text\<close>

text \<open>
  Patterns as the manual writes them: single characters, the dot, bracket expressions, repetition,
  the end anchor, groups and back-references. \<open>POpen\<close> and \<open>PClose\<close> are the two halves of a
  group, so a pattern is a flat list.
\<close>

datatype citem = CChr u8 | CRange u8 u8
datatype patom = PChr u8 | PAny | PSet bool "citem list"
datatype pat = POne patom | PMany patom | PRep patom u8 u8 | PEnd | POpen | PClose | PRef u8

text \<open>
  The character set of a bracket expression and its bit map, one bit per character code.
\<close>

definition bmap :: "nat \<Rightarrow> nat set \<Rightarrow> u8 list" where
  "bmap k C = map (\<lambda>j. horner_sum of_bool 2 (map (\<lambda>b. 8 * j + b \<in> C) [0..<8])) [0..<k]"

primrec item_set :: "citem \<Rightarrow> nat set" where
  "item_set (CChr c) = {unat c}"
| "item_set (CRange a b) = {unat a..unat b}"

text \<open>
  The text of a pattern and its conditions. A character listed in a bracket expression is neither NUL,
  newline, \<open>]\<close> nor \<open>-\<close>; the special characters and the delimiter are written with a
  backslash.
\<close>

primrec citem_text :: "citem \<Rightarrow> int list" where
  "citem_text (CChr c) = [uint c]"
| "citem_text (CRange a b) = [uint a, 45, uint b]"

definition plain :: "u8 \<Rightarrow> bool" where
  "plain c \<longleftrightarrow> c \<noteq> 0 \<and> c \<noteq> 10 \<and> c \<noteq> 93 \<and> c \<noteq> 45"

primrec wf_citem :: "citem \<Rightarrow> bool" where
  "wf_citem (CChr c) = plain c"
| "wf_citem (CRange a b) = (plain a \<and> b \<noteq> 93 \<and> a \<le> b)"

primrec ascii_item :: "citem \<Rightarrow> bool" where
  "ascii_item (CChr c) = (c < 128)"
| "ascii_item (CRange a b) = (b < 128)"

text \<open>
  Shape of the buffer while a bracket expression is read, and between two items of the pattern.
\<close>

definition class_at :: "u8 list \<Rightarrow> bool \<Rightarrow> nat set \<Rightarrow> nat \<Rightarrow> 's cstate \<Rightarrow> bool" where
  "class_at pre iflag C L st \<longleftrightarrow> (\<exists>r.
     buf st = pre @ (if iflag then CCL else CXCL) # bmap (if iflag then 16 else 32) C @ r \<and>
     ep st = Suc (length pre) \<and> length (buf st) = L \<and> (iflag \<longrightarrow> C \<subseteq> {..<128}))"

definition emitted :: "u8 list \<Rightarrow> nat \<Rightarrow> 's cstate \<Rightarrow> bool" where
  "emitted bs L st \<longleftrightarrow> (\<exists>r. buf st = bs @ r \<and> ep st = length bs \<and> length (buf st) = L)"

definition items_set :: "citem list \<Rightarrow> nat set" where
  "items_set its = (\<Union>i \<in> set its. item_set i)"

definition class_atom :: "bool \<Rightarrow> citem list \<Rightarrow> atom" where
  "class_atom neg its =
     (let C = items_set its in
      if list_all ascii_item its
      then if neg then ANcl (bmap 16 (insert 0 C)) else ACls (bmap 16 C)
      else AXcl (bmap 32 (if neg then {..<256} - insert 0 C else C)))"

definition items_text :: "citem list \<Rightarrow> int list" where
  "items_text its = concat (map citem_text its)"

definition wf_items :: "bool \<Rightarrow> citem list \<Rightarrow> bool" where
  "wf_items neg its \<longleftrightarrow> its \<noteq> [] \<and> list_all wf_citem its \<and> (neg \<or> hd (items_text its) \<noteq> 94)"

definition eof_ok :: "int \<Rightarrow> bool" where
  "eof_ok eof \<longleftrightarrow> eof \<notin> {10, 36, 40, 41, 42, 46, 91, 92, 94, 110, 123} \<and> \<not> (49 \<le> eof \<and> eof \<le> 57)"

definition chr_text :: "int \<Rightarrow> u8 \<Rightarrow> int list" where
  "chr_text eof c =
     (if c = 10 then [92, 110]
      else if c \<in> {36, 42, 46, 91, 92, 94} \<or> uint c = eof then [92, uint c] else [uint c])"

primrec patom_text :: "int \<Rightarrow> patom \<Rightarrow> int list" where
  "patom_text eof (PChr c) = chr_text eof c"
| "patom_text eof PAny = [46]"
| "patom_text eof (PSet neg its) = 91 # (if neg then [94] else []) @ items_text its @ [93]"

primrec patom_atom :: "patom \<Rightarrow> atom" where
  "patom_atom (PChr c) = AChr c"
| "patom_atom PAny = ADot"
| "patom_atom (PSet neg its) = class_atom neg its"

primrec wf_patom :: "patom \<Rightarrow> bool" where
  "wf_patom (PChr c) = (c \<noteq> 0)"
| "wf_patom PAny = True"
| "wf_patom (PSet neg its) = wf_items neg its"

definition dec :: "nat \<Rightarrow> int list" where
  "dec n = (if n < 10 then [48 + int n]
     else if n < 100 then [48 + int (n div 10), 48 + int (n mod 10)]
     else [48 + int (n div 100), 48 + int (n div 10 mod 10), 48 + int (n mod 10)])"

definition rep_text :: "u8 \<Rightarrow> u8 \<Rightarrow> int list" where
  "rep_text l h = [92, 123] @ dec (unat l) @
     (if h = l then [92] else if h = 255 then [44, 92] else 44 # dec (unat h) @ [92]) @ [125]"

primrec pat_text :: "int \<Rightarrow> pat \<Rightarrow> int list" where
  "pat_text eof (POne a) = patom_text eof a"
| "pat_text eof (PMany a) = patom_text eof a @ [42]"
| "pat_text eof (PRep a l h) = patom_text eof a @ rep_text l h"
| "pat_text eof PEnd = [36]"
| "pat_text eof POpen = [92, 40]"
| "pat_text eof PClose = [92, 41]"
| "pat_text eof (PRef i) = [92, 49 + uint i]"

definition pats_text :: "int \<Rightarrow> pat list \<Rightarrow> int list" where
  "pats_text eof ps = concat (map (pat_text eof) ps)"

text \<open>
  The program a pattern denotes: groups are numbered in the order they open. \<open>wf_pats\<close> is what
  \<open>compile\<close> accepts, \<open>refs_closed\<close> that each back-reference names a closed group.
\<close>

fun pats_instrs :: "nat \<Rightarrow> u8 list \<Rightarrow> pat list \<Rightarrow> instr list" where
  "pats_instrs k stk [] = []"
| "pats_instrs k stk (POne a # ps) = One (patom_atom a) # pats_instrs k stk ps"
| "pats_instrs k stk (PMany a # ps) = Many (patom_atom a) # pats_instrs k stk ps"
| "pats_instrs k stk (PRep a l h # ps) = Rep (patom_atom a) l h # pats_instrs k stk ps"
| "pats_instrs k stk (PEnd # ps) = Dol # pats_instrs k stk ps"
| "pats_instrs k stk (POpen # ps) = Bra (of_nat k) # pats_instrs (Suc k) (of_nat k # stk) ps"
| "pats_instrs k stk (PClose # ps) = Ket (hd stk) # pats_instrs k (tl stk) ps"
| "pats_instrs k stk (PRef i # ps) = Back i # pats_instrs k stk ps"

fun wf_pats :: "nat \<Rightarrow> u8 list \<Rightarrow> nat \<Rightarrow> pat list \<Rightarrow> bool" where
  "wf_pats k stk cl [] = (stk = [])"
| "wf_pats k stk cl (POne a # ps) = (wf_patom a \<and> wf_pats k stk cl ps)"
| "wf_pats k stk cl (PMany a # ps) = (wf_patom a \<and> wf_pats k stk cl ps)"
| "wf_pats k stk cl (PRep a l h # ps) = (wf_patom a \<and> l \<le> h \<and> l \<noteq> 255 \<and> wf_pats k stk cl ps)"
| "wf_pats k stk cl (PEnd # ps) = (ps = [] \<and> stk = [])"
| "wf_pats k stk cl (POpen # ps) = (k < NBRA \<and> wf_pats (Suc k) (of_nat k # stk) cl ps)"
| "wf_pats k stk cl (PClose # ps) = (stk \<noteq> [] \<and> wf_pats k (tl stk) (Suc cl) ps)"
| "wf_pats k stk cl (PRef i # ps) = (unat i < cl \<and> unat i < NBRA \<and> wf_pats k stk cl ps)"

definition at_point :: "('s \<Rightarrow> int list) \<Rightarrow> nat \<Rightarrow> u8 list \<Rightarrow> nat \<Rightarrow> u8 list \<Rightarrow> nat \<Rightarrow> rx \<Rightarrow> int list \<Rightarrow> 's cstate \<Rightarrow> bool" where
  "at_point pending L bs k stk cl g tail st \<longleftrightarrow> emitted bs L st \<and> bracket st = stk \<and> closed st = cl \<and>
     length stk + cl = k \<and> glob st = g\<lparr>nbra := k\<rparr> \<and> pending (src st) = tail"

fun refs_closed :: "nat \<Rightarrow> u8 list \<Rightarrow> pat list \<Rightarrow> bool" where
  "refs_closed k stk [] = True"
| "refs_closed k stk (POpen # ps) = refs_closed (Suc k) (of_nat k # stk) ps"
| "refs_closed k stk (PClose # ps) = refs_closed k (tl stk) ps"
| "refs_closed k stk (PRef i # ps) = (unat i < k \<and> i \<notin> set stk \<and> refs_closed k stk ps)"
| "refs_closed k stk (p # ps) = refs_closed k stk ps"

section \<open>Bit maps\<close>

lemma length_bmap [simp]: "length (bmap k C) = k"
  by (simp add: bmap_def)

lemma bit_bmap: "j < k \<Longrightarrow> bit (bmap k C ! j) b \<longleftrightarrow> b < 8 \<and> 8 * j + b \<in> C"
  by (auto simp: bmap_def bit_horner_sum_bit_iff dest: bit_imp_le_length)

lemma bmap_eqI:
  assumes "length xs = k" "\<And>j b. j < k \<Longrightarrow> b < 8 \<Longrightarrow> bit (xs ! j) b \<longleftrightarrow> 8 * j + b \<in> C"
  shows "xs = bmap k C"
proof (rule nth_equalityI)
  fix j assume "j < length xs"
  then show "xs ! j = bmap k C ! j"
    using assms by (intro bit_eqI) (auto simp: bit_bmap)
qed (simp add: assms)

lemma bmap_empty: "bmap k {} = replicate k 0"
  by (rule bmap_eqI [symmetric]) auto

lemma bmap_insert:
  assumes "c div 8 < k"
  shows "(bmap k C)[c div 8 := bmap k C ! (c div 8) OR bittab ! (c mod 8)] = bmap k (insert c C)"
proof (rule bmap_eqI)
  fix j b :: nat assume "j < k" "b < 8"
  moreover have "8 * j + b = c \<longleftrightarrow> j = c div 8 \<and> b = c mod 8" using \<open>b < 8\<close> by auto
  ultimately show "bit ((bmap k C)[c div 8 := bmap k C ! (c div 8) OR bittab ! (c mod 8)] ! j) b \<longleftrightarrow> 8 * j + b \<in> insert c C"
    using assms by (auto simp: nth_list_update bit_or_iff bit_bmap bittab_nth bit_exp_iff)
qed simp

lemma bmap_widen: "C \<subseteq> {..<128} \<Longrightarrow> bmap 16 C @ replicate 16 0 = bmap 32 C"
  by (rule bmap_eqI) (auto simp: nth_append bit_bmap subset_eq)

lemma bmap_complement:
  "(map (\<lambda>b. b XOR 255) (bmap 32 C))[0 := map (\<lambda>b. b XOR 255) (bmap 32 C) ! 0 AND 254] = bmap 32 ({..<256} - insert 0 C)"
proof (rule bmap_eqI)
  have b255: "bit (255 :: u8) b" if "b < 8" for b
    using that by (auto simp: less_Suc_eq numeral_eq_Suc)
  have b254: "bit (254 :: u8) b \<longleftrightarrow> b \<noteq> 0" if "b < 8" for b
    using that by (auto simp: less_Suc_eq numeral_eq_Suc)
  fix j b :: nat assume "j < 32" "b < 8"
  then show "bit ((map (\<lambda>b. b XOR 255) (bmap 32 C))[0 := map (\<lambda>b. b XOR 255) (bmap 32 C) ! 0 AND 254] ! j) b \<longleftrightarrow>
      8 * j + b \<in> {..<256} - insert 0 C"
    using b255 [of b] b254 [of b] by (cases "j = 0") (auto simp: bit_xor_iff bit_and_iff bit_bmap)
qed simp

lemma bmap_neg: "(bmap 16 C)[0 := bmap 16 C ! 0 OR 1] = bmap 16 (insert 0 C)"
  using bmap_insert [of 0 16 C] by (simp add: bittab_def)

lemma in_map_bmap: "unat c div 8 < k \<Longrightarrow> in_map (bmap k C) c \<longleftrightarrow> unat c \<in> C"
proof -
  have "unat (c AND 7) = unat c mod 8"
  proof -
    have "c AND 7 = take_bit 3 c" by (simp add: take_bit_eq_mask mask_eq_exp_minus_1)
    then have "unat (c AND 7) = take_bit 3 (unat c)" by (simp add: unsigned_take_bit_eq)
    then show ?thesis by (simp add: take_bit_eq_mod)
  qed
  moreover assume "unat c div 8 < k"
  ultimately show ?thesis by (simp add: in_map_def unat_map_index bit_bmap)
qed

lemma poke_append:
  "buf st = p @ x # r \<Longrightarrow> i = int (length p) \<Longrightarrow> poke i f st = Ok (st\<lparr>buf := p @ f x # r\<rparr>)"
  by (simp add: poke_def)

lemma zero_fill_append:
  "buf st = p @ xs @ r \<Longrightarrow> length p = ep st + i \<Longrightarrow> length xs = n \<Longrightarrow>
   zero_fill i n st = Ok (st\<lparr>buf := p @ replicate n 0 @ r\<rparr>)"
proof (induction n arbitrary: xs r)
  case 0
  then show ?case by (cases st) simp
next
  case (Suc n)
  then obtain ys y where xs: "xs = ys @ [y]" "length ys = n" by (metis append_butlast_last_id length_append_singleton length_0_conv nat.distinct(1) nat.inject)
  then have z: "zero_fill i n st = Ok (st\<lparr>buf := p @ replicate n 0 @ y # r\<rparr>)"
    using Suc.prems by (intro Suc.IH [of ys "y # r"]) auto
  have "poke (int (ep st + i + n)) (\<lambda>_. 0) (st\<lparr>buf := p @ replicate n 0 @ y # r\<rparr>) =
      Ok (st\<lparr>buf := p @ replicate n 0 @ y # r\<rparr>\<lparr>buf := (p @ replicate n 0) @ 0 # r\<rparr>)"
    using Suc.prems by (intro poke_append [where x = y]) auto
  with z show ?case by (simp add: replicate_append_same)
qed

lemma complement_append:
  "buf st = p @ xs @ r \<Longrightarrow> length p = ep st \<Longrightarrow> length xs = n \<Longrightarrow>
   complement n st = Ok (st\<lparr>buf := p @ map (\<lambda>b. b XOR 255) xs @ r\<rparr>)"
proof (induction n arbitrary: xs r)
  case 0
  then show ?case by (cases st) simp
next
  case (Suc n)
  then obtain ys y where xs: "xs = ys @ [y]" "length ys = n" by (metis append_butlast_last_id length_append_singleton length_0_conv nat.distinct(1) nat.inject)
  then have z: "complement n st = Ok (st\<lparr>buf := p @ map (\<lambda>b. b XOR 255) ys @ y # r\<rparr>)"
    using Suc.prems by (intro Suc.IH [of ys "y # r"]) auto
  have "poke (int (ep st + n)) (\<lambda>b. b XOR 255) (st\<lparr>buf := p @ map (\<lambda>b. b XOR 255) ys @ y # r\<rparr>) =
      Ok (st\<lparr>buf := p @ map (\<lambda>b. b XOR 255) ys @ y # r\<rparr>\<lparr>buf := (p @ map (\<lambda>b. b XOR 255) ys) @ (y XOR 255) # r\<rparr>)"
    using Suc.prems xs by (intro poke_append [where x = y]) auto
  with z xs show ?case by simp
qed

lemma class_at_src [simp]: "class_at pre iflag C L (st\<lparr>src := s\<rparr>) = class_at pre iflag C L st"
  by (simp add: class_at_def)

lemma class_at_PLACE:
  assumes "class_at pre iflag C L st" "0 \<le> c" "if iflag then c < 128 else c < 256"
  shows "\<exists>b. PLACE c st = Ok (st\<lparr>buf := b\<rparr>) \<and> class_at pre iflag (insert (nat c) C) L (st\<lparr>buf := b\<rparr>)"
proof -
  let ?op = "if iflag then CCL else CXCL" and ?k = "if iflag then 16 else 32 :: nat" and ?j = "nat c div 8"
  from assms obtain r where st: "buf st = pre @ ?op # bmap ?k C @ r" "ep st = Suc (length pre)" "length (buf st) = L"
      "iflag \<longrightarrow> C \<subseteq> {..<128}" unfolding class_at_def by blast
  have j: "?j < ?k" using assms(2,3) by (auto split: if_splits)
  have "bmap ?k C @ r = take ?j (bmap ?k C) @ bmap ?k C ! ?j # drop (Suc ?j) (bmap ?k C) @ r"
    using j id_take_nth_drop [of ?j "bmap ?k C"] by (metis append.assoc append_Cons length_bmap)
  with st have b: "buf st = (pre @ ?op # take ?j (bmap ?k C)) @ bmap ?k C ! ?j # drop (Suc ?j) (bmap ?k C) @ r" by simp
  have i: "int (ep st) + drop_bit 3 c = int (length (pre @ ?op # take ?j (bmap ?k C)))"
    using st(2) j assms(2) by (simp add: drop_bit_eq_div zdiv_int [symmetric] min_def)
  have m: "nat (c AND 7) = nat c mod 8"
  proof -
    have "c AND 7 = take_bit 3 c" by (simp add: take_bit_eq_mask mask_eq_exp_minus_1)
    then show ?thesis using assms(2) by (simp add: take_bit_eq_mod nat_mod_distrib)
  qed
  have "take ?j (bmap ?k C) @ (bmap ?k C ! ?j OR bittab ! (nat c mod 8)) # drop (Suc ?j) (bmap ?k C) = bmap ?k (insert (nat c) C)"
    using bmap_insert [OF j, of C] j by (simp add: upd_conv_take_nth_drop)
  then have "PLACE c st = Ok (st\<lparr>buf := pre @ ?op # bmap ?k (insert (nat c) C) @ r\<rparr>)"
    unfolding PLACE_def poke_append [OF b i] m by (metis append.assoc append_Cons)
  moreover have "length (pre @ ?op # bmap ?k (insert (nat c) C) @ r) = L" using st(1,3) by simp
  ultimately show ?thesis using st(2,4) assms(2,3) by (auto simp: class_at_def)
qed

lemma class_at_place_run:
  "class_at pre iflag C L st \<Longrightarrow> 0 \<le> lc \<Longrightarrow> (if iflag then lc + int n \<le> 128 else lc + int n \<le> 256) \<Longrightarrow>
   \<exists>b. place_run n lc st = Ok (st\<lparr>buf := b\<rparr>) \<and> class_at pre iflag (C \<union> {nat lc..<nat lc + n}) L (st\<lparr>buf := b\<rparr>)"
proof (induction n arbitrary: lc C st)
  case 0
  then show ?case by (intro exI [of _ "buf st"]) simp
next
  case (Suc n)
  then obtain b where b: "PLACE lc st = Ok (st\<lparr>buf := b\<rparr>)" "class_at pre iflag (insert (nat lc) C) L (st\<lparr>buf := b\<rparr>)"
    using class_at_PLACE [of pre iflag C L st lc] by (auto split: if_splits)
  from Suc.IH [OF b(2), of "lc + 1"] Suc.prems obtain b' where
    b': "place_run n (lc + 1) (st\<lparr>buf := b\<rparr>) = Ok (st\<lparr>buf := b'\<rparr>)"
    "class_at pre iflag (insert (nat lc) C \<union> {nat (lc + 1)..<nat (lc + 1) + n}) L (st\<lparr>buf := b'\<rparr>)"
    by (auto split: if_splits)
  moreover have "insert (nat lc) C \<union> {nat (lc + 1)..<nat (lc + 1) + n} = C \<union> {nat lc..<nat lc + Suc n}"
    using Suc.prems(2) by auto
  ultimately show ?case using b(1) by auto
qed

lemma class_at_widen:
  assumes "class_at pre iflag C L st" "0 \<le> c" "c < 256" "length pre + 33 < endbuf" "endbuf < L"
  shows "\<exists>b. widen endbuf c iflag st = Ok (iflag \<and> c < 128, st\<lparr>buf := b\<rparr>) \<and>
    class_at pre (iflag \<and> c < 128) C L (st\<lparr>buf := b\<rparr>)"
proof (cases "iflag \<and> \<not> c < 128")
  case True
  with assms obtain r where st: "buf st = pre @ CCL # bmap 16 C @ r" "ep st = Suc (length pre)" "length (buf st) = L" "C \<subseteq> {..<128}"
    unfolding class_at_def by auto
  then have "16 \<le> length r" using assms by simp
  then have r: "r = take 16 r @ drop 16 r" "length (take 16 r) = 16" by simp_all
  have p: "poke (int (ep st) - 1) (\<lambda>_. CXCL) st = Ok (st\<lparr>buf := pre @ CXCL # bmap 16 C @ r\<rparr>)"
    using st by (intro poke_append) auto
  have z: "zero_fill 16 16 (st\<lparr>buf := pre @ CXCL # bmap 16 C @ r\<rparr>) =
      Ok (st\<lparr>buf := pre @ CXCL # bmap 16 C @ r\<rparr>\<lparr>buf := (pre @ CXCL # bmap 16 C) @ replicate 16 0 @ drop 16 r\<rparr>)"
    using r st by (intro zero_fill_append [of _ _ "take 16 r"]) auto
  have "c AND 128 \<noteq> 0" using True assms low_half by auto
  then have "widen endbuf c iflag st = Ok (False, st\<lparr>buf := pre @ CXCL # bmap 32 C @ drop 16 r\<rparr>)"
    using p z True st assms by (simp add: widen_def bmap_widen [OF st(4), symmetric])
  moreover have "length (pre @ CXCL # bmap 32 C @ drop 16 r) = L" using st(1,3) \<open>16 \<le> length r\<close> by simp
  ultimately show ?thesis using True st by (auto simp: class_at_def)
next
  case False
  then have "widen endbuf c iflag st = Ok (iflag \<and> c < 128, st\<lparr>buf := buf st\<rparr>)"
    using assms low_half by (auto simp: widen_def)
  with False assms(1) show ?thesis by (intro exI [of _ "buf st"]) auto
qed

lemma uint_u8: "0 \<le> uint (c :: u8)" "uint (c :: u8) < 256"
proof -
  have "uint c < 2 ^ LENGTH(8)" by (rule unsigned_less)
  then show "uint c < 256" by simp
qed simp

lemma plain_uint:
  assumes "plain c"
  shows "uint c \<noteq> 0" "uint c \<noteq> 10" "uint c \<noteq> 93" "uint c \<noteq> 45"
  using assms by (simp_all add: plain_def word_uint_eq_iff)

lemma uint_less_128: "uint (c :: u8) < 128 \<longleftrightarrow> c < 128"
  by (simp add: word_less_def)

context pattern_source
begin

lemma getc_run:
  assumes "pending (src st) = c # cs"
  obtains s where "getc R st = Ok (c, st\<lparr>src := s\<rparr>)" "pending s = cs" "pending (UNGETC R c s) = c # cs"
proof -
  from getc_Cons [OF assms] obtain s where s: "GETC R (src st) = Some (c, s)" "pending s = cs" by blast
  with ungetc_law [OF s(1)] assms that show ?thesis by (simp add: getc_def)
qed

lemma peekc_run: "pending (src st) = c # cs \<Longrightarrow> peekc R st = Ok c"
  by (simp add: peekc_def peekc_law)

lemma class_char_step:
  assumes at: "class_at pre iflag C L st" and c: "plain c" and room: "length pre + 33 < endbuf" "endbuf < L"
  obtains b where "class_loop (Suc n) R endbuf lc (uint c) iflag st =
      run_bind (getc R (st\<lparr>buf := b\<rparr>)) (\<lambda>(c', st).
        if c' \<noteq> 93 then class_loop n R endbuf (uint c) c' (iflag \<and> c < 128) st else Ok (iflag \<and> c < 128, st))"
    "class_at pre (iflag \<and> c < 128) (insert (unat c) C) L (st\<lparr>buf := b\<rparr>)"
proof -
  let ?f = "iflag \<and> c < 128"
  obtain b where w: "widen endbuf (uint c) iflag st = Ok (?f, st\<lparr>buf := b\<rparr>)" "class_at pre ?f C L (st\<lparr>buf := b\<rparr>)"
    using class_at_widen [OF at uint_u8 room] by (auto simp: uint_less_128)
  have cc: "if ?f then uint c < 128 else uint c < 256" using uint_u8 [of c] by (simp add: uint_less_128)
  obtain b' where p: "PLACE (uint c) (st\<lparr>buf := b\<rparr>) = Ok (st\<lparr>buf := b'\<rparr>)"
      "class_at pre ?f (insert (nat (uint c)) C) L (st\<lparr>buf := b'\<rparr>)"
    using class_at_PLACE [OF w(2) uint_u8(1) cc] by auto
  show ?thesis
  proof (rule that [of b'])
    show "class_loop (Suc n) R endbuf lc (uint c) iflag st =
      run_bind (getc R (st\<lparr>buf := b'\<rparr>)) (\<lambda>(c', st).
        if c' \<noteq> 93 then class_loop n R endbuf (uint c) c' ?f st else Ok (?f, st))"
      using plain_uint [OF c] w(1) p(1) by (simp add: low_half(2) [OF uint_u8])
  qed (use p(2) in simp)
qed

lemma class_dash_step:
  assumes at: "class_at pre iflag C L st" and room: "length pre + 33 < endbuf" "endbuf < L"
    and a: "plain a" "iflag \<longrightarrow> a < 128" and d: "d \<noteq> 93" "a \<le> d" and p: "pending (src st) = uint d # cs"
  obtains b s where "class_loop (Suc n) R endbuf (uint a) 45 iflag st =
      run_bind (getc R (st\<lparr>src := s, buf := b\<rparr>)) (\<lambda>(c', st).
        if c' \<noteq> 93 then class_loop n R endbuf (uint d) c' (iflag \<and> d < 128) st else Ok (iflag \<and> d < 128, st))"
    "class_at pre (iflag \<and> d < 128) (C \<union> {unat a..unat d}) L (st\<lparr>src := s, buf := b\<rparr>)" "pending s = cs"
proof -
  let ?f = "iflag \<and> d < 128"
  obtain s where g: "getc R st = Ok (uint d, st\<lparr>src := s\<rparr>)" "pending s = cs" using getc_run [OF p] by metis
  have w0: "widen endbuf 45 iflag st = Ok (iflag, st)" by (simp add: widen_def low_half)
  obtain b where w: "widen endbuf (uint d) iflag (st\<lparr>src := s\<rparr>) = Ok (?f, st\<lparr>src := s, buf := b\<rparr>)"
      "class_at pre ?f C L (st\<lparr>src := s, buf := b\<rparr>)"
    using class_at_widen [of pre iflag C L "st\<lparr>src := s\<rparr>" "uint d" endbuf] at uint_u8 [of d] room
    by (auto simp: uint_less_128)
  have le: "uint a \<le> uint d" using d(2) by (simp add: word_le_def)
  have aa: "if ?f then uint a + int (nat (uint d - uint a)) \<le> 128 else uint a + int (nat (uint d - uint a)) \<le> 256"
    and dd: "if ?f then uint d < 128 else uint d < 256"
    using uint_u8 [of d] le by (auto simp: uint_less_128 [symmetric])
  obtain b1 where r: "place_run (nat (uint d - uint a)) (uint a) (st\<lparr>src := s, buf := b\<rparr>) = Ok (st\<lparr>src := s, buf := b1\<rparr>)"
      "class_at pre ?f (C \<union> {nat (uint a)..<nat (uint a) + nat (uint d - uint a)}) L (st\<lparr>src := s, buf := b1\<rparr>)"
    using class_at_place_run [OF w(2) uint_u8(1) aa] by auto
  obtain b2 where q: "PLACE (uint d) (st\<lparr>src := s, buf := b1\<rparr>) = Ok (st\<lparr>src := s, buf := b2\<rparr>)"
      "class_at pre ?f (insert (nat (uint d)) (C \<union> {nat (uint a)..<nat (uint a) + nat (uint d - uint a)})) L (st\<lparr>src := s, buf := b2\<rparr>)"
    using class_at_PLACE [OF r(2) uint_u8(1) dd] by auto
  have S: "insert (nat (uint d)) (C \<union> {nat (uint a)..<nat (uint a) + nat (uint d - uint a)}) = C \<union> {unat a..unat d}"
  proof -
    have "nat (uint d - uint a) = unat d - unat a" "unat a \<le> unat d"
      using d(2) by (simp add: nat_diff_distrib', simp add: word_le_nat_alt)
    then show ?thesis by auto
  qed
  have nz: "uint a \<noteq> 0" "uint d \<noteq> 93" using plain_uint [OF a(1)] d(1) by (simp_all add: word_uint_eq_iff)
  show ?thesis
  proof (rule that [of b2 s])
    show "class_loop (Suc n) R endbuf (uint a) 45 iflag st =
      run_bind (getc R (st\<lparr>src := s, buf := b2\<rparr>)) (\<lambda>(c', st).
        if c' \<noteq> 93 then class_loop n R endbuf (uint d) c' ?f st else Ok (?f, st))"
      using nz g(1) w0 w(1) r(1) q(1) by (simp add: low_half(2))
  qed (use q(2) g(2) in \<open>simp_all only: S\<close>)
qed

lemma class_items:
  assumes room: "length pre + 33 < endbuf" "endbuf < L"
  shows "concat (map citem_text its) = c # cs \<Longrightarrow> pending (src st) = cs @ 93 # tail \<Longrightarrow>
    list_all wf_citem its \<Longrightarrow> class_at pre iflag C L st \<Longrightarrow> length (pending (src st)) < n \<Longrightarrow>
    \<exists>b s. class_loop n R endbuf lc c iflag st =
        Ok (iflag \<and> list_all ascii_item its, st\<lparr>src := s, buf := b\<rparr>) \<and> pending s = tail \<and>
      class_at pre (iflag \<and> list_all ascii_item its) (C \<union> (\<Union>i \<in> set its. item_set i)) L (st\<lparr>src := s, buf := b\<rparr>)"
proof (induction its arbitrary: c cs st iflag C n lc)
  case (Cons i its)
  have rest: "\<exists>b s. run_bind (getc R st1) (\<lambda>(c', st).
        if c' \<noteq> 93 then class_loop m R endbuf lc1 c' f st else Ok (f, st)) =
        Ok (f \<and> list_all ascii_item its, st1\<lparr>src := s, buf := b\<rparr>) \<and> pending s = tail \<and>
      class_at pre (f \<and> list_all ascii_item its) (D \<union> (\<Union>i \<in> set its. item_set i)) L (st1\<lparr>src := s, buf := b\<rparr>)"
    if p: "pending (src st1) = concat (map citem_text its) @ 93 # tail" and at: "class_at pre f D L st1"
      and m: "length (pending (src st1)) \<le> m" for st1 m lc1 f D
  proof (cases its)
    case Nil
    with p obtain s where "getc R st1 = Ok (93, st1\<lparr>src := s\<rparr>)" "pending s = tail" by (auto elim: getc_run)
    with Nil at show ?thesis by (intro exI [of _ "buf st1"] exI [of _ s]) simp
  next
    case (Cons j js)
    obtain e es where e: "concat (map citem_text its) = e # es" "e \<noteq> 93"
      using Cons Cons.prems(3) by (cases j) (auto simp: plain_uint)
    with p obtain s where g: "getc R st1 = Ok (e, st1\<lparr>src := s\<rparr>)" "pending s = es @ 93 # tail"
      by (auto elim: getc_run)
    have "\<exists>b s'. class_loop m R endbuf lc1 e f (st1\<lparr>src := s\<rparr>) =
        Ok (f \<and> list_all ascii_item its, (st1\<lparr>src := s\<rparr>)\<lparr>src := s', buf := b\<rparr>) \<and> pending s' = tail \<and>
      class_at pre (f \<and> list_all ascii_item its) (D \<union> (\<Union>i \<in> set its. item_set i)) L ((st1\<lparr>src := s\<rparr>)\<lparr>src := s', buf := b\<rparr>)"
      using e g at m p Cons.prems(3) by (intro Cons.IH [of e es]) auto
    with g e show ?thesis by auto
  qed
  obtain m where n: "n = Suc m" "length cs + length tail < m" using Cons.prems(2,5) by (cases n) auto
  show ?case
  proof (cases i)
    case (CChr x)
    then have x: "plain x" "c = uint x" "cs = concat (map citem_text its)" using Cons.prems(1,3) by auto
    obtain b where b: "class_loop (Suc m) R endbuf lc (uint x) iflag st =
      run_bind (getc R (st\<lparr>buf := b\<rparr>)) (\<lambda>(c', st).
        if c' \<noteq> 93 then class_loop m R endbuf (uint x) c' (iflag \<and> x < 128) st else Ok (iflag \<and> x < 128, st))"
      "class_at pre (iflag \<and> x < 128) (insert (unat x) C) L (st\<lparr>buf := b\<rparr>)"
      by (rule class_char_step [OF Cons.prems(4) x(1) room])
    have "pending (src (st\<lparr>buf := b\<rparr>)) = concat (map citem_text its) @ 93 # tail"
      "length (pending (src (st\<lparr>buf := b\<rparr>))) \<le> m"
      using Cons.prems(2) x n by simp_all
    from rest [OF this(1) b(2) this(2), of "uint x"]
    show ?thesis unfolding n(1) x(2) b(1) by (simp add: CChr conj_assoc)
  next
    case (CRange x y)
    let ?f = "iflag \<and> x < 128"
    have x: "plain x" "y \<noteq> 93" "x \<le> y" "c = uint x" "cs = 45 # uint y # concat (map citem_text its)"
      using CRange Cons.prems(1,3) by auto
    obtain b where b: "class_loop (Suc m) R endbuf lc (uint x) iflag st =
      run_bind (getc R (st\<lparr>buf := b\<rparr>)) (\<lambda>(c', st).
        if c' \<noteq> 93 then class_loop m R endbuf (uint x) c' ?f st else Ok (?f, st))"
      "class_at pre ?f (insert (unat x) C) L (st\<lparr>buf := b\<rparr>)"
      by (rule class_char_step [OF Cons.prems(4) x(1) room])
    have "pending (src (st\<lparr>buf := b\<rparr>)) = 45 # (uint y # concat (map citem_text its) @ 93 # tail)"
      using Cons.prems(2) x by simp
    then obtain s where g: "getc R (st\<lparr>buf := b\<rparr>) = Ok (45, st\<lparr>buf := b\<rparr>\<lparr>src := s\<rparr>)"
        "pending s = uint y # concat (map citem_text its) @ 93 # tail"
      by (rule getc_run)
    define st2 where "st2 = st\<lparr>buf := b\<rparr>\<lparr>src := s\<rparr>"
    have at2: "class_at pre ?f (insert (unat x) C) L st2" and p2: "pending (src st2) = uint y # concat (map citem_text its) @ 93 # tail"
      using b(2) g(2) by (simp_all add: st2_def)
    obtain k where k: "m = Suc k" using n by (cases m) auto
    obtain b1 s1 where d: "class_loop (Suc k) R endbuf (uint x) 45 ?f st2 =
      run_bind (getc R (st2\<lparr>src := s1, buf := b1\<rparr>)) (\<lambda>(c', st).
        if c' \<noteq> 93 then class_loop k R endbuf (uint y) c' (?f \<and> y < 128) st
        else Ok (?f \<and> y < 128, st))"
      "class_at pre (?f \<and> y < 128) (insert (unat x) C \<union> {unat x..unat y}) L (st2\<lparr>src := s1, buf := b1\<rparr>)"
      "pending s1 = concat (map citem_text its) @ 93 # tail"
      by (rule class_dash_step [OF at2 room x(1) _ x(2,3) p2]) simp
    have e: "(?f \<and> y < 128) = (iflag \<and> y < 128)" "insert (unat x) C \<union> {unat x..unat y} = C \<union> {unat x..unat y}"
      using x(3) by (auto simp: word_le_nat_alt word_less_nat_alt)
    have "pending (src (st2\<lparr>src := s1, buf := b1\<rparr>)) = concat (map citem_text its) @ 93 # tail"
      "length (pending (src (st2\<lparr>src := s1, buf := b1\<rparr>))) \<le> k" using n k x(5) d(3) by simp_all
    from rest [OF this(1) d(2) this(2), of "uint y"]
    have r: "\<exists>b s. class_loop (Suc k) R endbuf (uint x) 45 ?f st2 = Ok ((iflag \<and> y < 128) \<and> list_all ascii_item its, st2\<lparr>src := s, buf := b\<rparr>) \<and>
      pending s = tail \<and> class_at pre ((iflag \<and> y < 128) \<and> list_all ascii_item its) (C \<union> {unat x..unat y} \<union> (\<Union>i \<in> set its. item_set i)) L (st2\<lparr>src := s, buf := b\<rparr>)"
      unfolding d(1) e by simp
    have "class_loop n R endbuf lc c iflag st = class_loop (Suc k) R endbuf (uint x) 45 ?f st2"
      unfolding n(1) x(4) k b(1) [unfolded k] g(1) st2_def by (simp del: class_loop.simps)
    then show ?thesis using r by (simp add: st2_def CRange Un_assoc conj_assoc del: class_loop.simps)
  qed
qed simp
end

lemma emitted_src [simp]: "emitted bs L (st\<lparr>src := s\<rparr>) = emitted bs L st"
  "emitted bs L (st\<lparr>lastep := l\<rparr>) = emitted bs L st" "emitted bs L (st\<lparr>bracket := k\<rparr>) = emitted bs L st"
  "emitted bs L (st\<lparr>closed := d\<rparr>) = emitted bs L st" "emitted bs L (st\<lparr>glob := g\<rparr>) = emitted bs L st"
  by (simp_all add: emitted_def)

lemma emit_run:
  assumes "emitted bs L st" "length bs < L"
  obtains b where "emit x st = Ok (st\<lparr>buf := b, ep := length (bs @ [x])\<rparr>)"
    "emitted (bs @ [x]) L (st\<lparr>buf := b, ep := length (bs @ [x])\<rparr>)"
proof -
  from assms obtain y r where r: "buf st = bs @ y # r" "ep st = length bs" "length (buf st) = L"
    unfolding emitted_def by (metis append.right_neutral less_irrefl list.exhaust)
  show ?thesis
  proof (rule that [of "bs @ x # r"])
    show "emit x st = Ok (st\<lparr>buf := bs @ x # r, ep := length (bs @ [x])\<rparr>)"
      using r poke_append [OF r(1), of "int (ep st)" "\<lambda>_. x"] by (simp add: emit_def)
  qed (use r in \<open>auto simp: emitted_def\<close>)
qed

lemma class_end_run:
  assumes "class_at pre iflag C L st" "C = items_set its" "iflag = list_all ascii_item its"
  obtains b where "class_end neg iflag st = Ok (st\<lparr>buf := b, ep := length (pre @ encode1 (One (class_atom neg its)))\<rparr>)"
    "emitted (pre @ encode1 (One (class_atom neg its))) L (st\<lparr>buf := b, ep := length (pre @ encode1 (One (class_atom neg its)))\<rparr>)"
proof -
  let ?k = "if iflag then 16 else 32 :: nat" and ?enc = "encode1 (One (class_atom neg its))"
  from assms obtain r where st: "buf st = pre @ (if iflag then CCL else CXCL) # bmap ?k C @ r"
      "ep st = Suc (length pre)" "length (buf st) = L" unfolding class_at_def by blast
  have "class_end neg iflag st = Ok (st\<lparr>buf := pre @ ?enc @ r, ep := length (pre @ ?enc)\<rparr>)"
  proof (cases neg)
    case False
    then show ?thesis using st assms(2,3) by (cases st) (simp add: class_end_def class_atom_def Let_def)
  next
    case neg: True
    show ?thesis
    proof (cases iflag)
      case True
      obtain x xs where x: "bmap 16 C = x # xs" using length_bmap [of 16 C] by (cases "bmap 16 C") auto
      let ?st1 = "st\<lparr>buf := pre @ NCCL # x # xs @ r\<rparr>"
      have p1: "poke (int (ep st) - 1) (\<lambda>_. NCCL) st = Ok ?st1" using st True x by (intro poke_append) auto
      have p2: "poke (int (ep st)) (\<lambda>b. b OR 1) ?st1 = Ok (?st1\<lparr>buf := (pre @ [NCCL]) @ (x OR 1) # xs @ r\<rparr>)"
        using st by (intro poke_append) auto
      have "bmap 16 (insert 0 C) = (x OR 1) # xs" using bmap_neg [of C] by (simp add: x)
      moreover have "length xs = 15" using length_bmap [of 16 C] by (simp add: x)
      ultimately show ?thesis using p1 p2 neg True st assms(2,3)
        by (simp add: class_end_def class_atom_def Let_def)
    next
      case False
      let ?m = "map (\<lambda>b. b XOR 255) (bmap 32 C)" and ?st1 = "st\<lparr>buf := (pre @ [CXCL]) @ map (\<lambda>b. b XOR 255) (bmap 32 C) @ r\<rparr>"
      have c: "complement 32 st = Ok ?st1" using st False by (intro complement_append) auto
      obtain x xs where x: "?m = x # xs" using length_bmap [of 32 C] by (cases "bmap 32 C") auto
      have p: "poke (int (ep st)) (\<lambda>b. b AND 254) ?st1 = Ok (?st1\<lparr>buf := (pre @ [CXCL]) @ (x AND 254) # xs @ r\<rparr>)"
        using st x by (intro poke_append) auto
      have "bmap 32 ({..<256} - insert 0 C) = (x AND 254) # xs" using bmap_complement [of C] by (simp only: x) simp
      moreover have "length xs = 31" using arg_cong [OF x, of length] by simp
      ultimately show ?thesis using c p neg False st assms(2,3)
        by (simp add: class_end_def class_atom_def Let_def)
    qed
  qed
  moreover have "length (pre @ ?enc @ r) = L" using st assms(3) by (auto simp: class_atom_def Let_def)
  ultimately show ?thesis by (intro that) (auto simp: emitted_def)
qed

lemma zero_class:
  assumes "emitted bs L st" "length bs + 34 < endbuf" "endbuf < L"
  obtains b where "run_bind (emit CCL st) (zero_fill 0 16) = Ok (st\<lparr>buf := b, ep := Suc (length bs)\<rparr>)"
    "class_at bs True {} L (st\<lparr>buf := b, ep := Suc (length bs)\<rparr>)"
proof -
  have "length bs < L" using assms by simp
  from assms(1) this obtain b where b: "emit CCL st = Ok (st\<lparr>buf := b, ep := length (bs @ [CCL])\<rparr>)"
    "emitted (bs @ [CCL]) L (st\<lparr>buf := b, ep := length (bs @ [CCL])\<rparr>)"
    by (rule emit_run)
  then obtain r where r: "b = (bs @ [CCL]) @ r" "length b = L" by (auto simp: emitted_def)
  then have r16: "r = take 16 r @ drop 16 r" "length (take 16 r) = 16" using assms by auto
  have z: "zero_fill 0 16 (st\<lparr>buf := b, ep := length (bs @ [CCL])\<rparr>) =
      Ok (st\<lparr>buf := b, ep := length (bs @ [CCL])\<rparr>\<lparr>buf := (bs @ [CCL]) @ replicate 16 0 @ drop 16 r\<rparr>)"
    using r r16 by (intro zero_fill_append [of _ _ "take 16 r"]) auto
  show ?thesis
  proof (rule that [of "(bs @ [CCL]) @ replicate 16 0 @ drop 16 r"])
    show "run_bind (emit CCL st) (zero_fill 0 16) = Ok (st\<lparr>buf := (bs @ [CCL]) @ replicate 16 0 @ drop 16 r, ep := Suc (length bs)\<rparr>)"
      using b(1) z by simp
    have "length r = L - Suc (length bs)" using r by simp
    then show "class_at bs True {} L (st\<lparr>buf := (bs @ [CCL]) @ replicate 16 0 @ drop 16 r, ep := Suc (length bs)\<rparr>)"
      using assms by (auto simp: class_at_def bmap_empty)
  qed
qed

context pattern_source
begin

lemma compile_class_run:
  assumes st: "emitted bs L st" and room: "length bs + 34 < endbuf" "endbuf < L" and wf: "wf_items neg its"
    and p: "pending (src st) = (if neg then [94] else []) @ items_text its @ 93 # tail"
    and n: "length (pending (src st)) < n"
  obtains b s where "compile_class n R endbuf st =
      Ok (st\<lparr>src := s, buf := b, ep := length (bs @ encode1 (One (class_atom neg its)))\<rparr>)" "pending s = tail"
    "emitted (bs @ encode1 (One (class_atom neg its))) L
       (st\<lparr>src := s, buf := b, ep := length (bs @ encode1 (One (class_atom neg its)))\<rparr>)"
proof -
  obtain b where b: "run_bind (emit CCL st) (zero_fill 0 16) = Ok (st\<lparr>buf := b, ep := Suc (length bs)\<rparr>)"
    "class_at bs True {} L (st\<lparr>buf := b, ep := Suc (length bs)\<rparr>)"
    by (rule zero_class [OF st room])
  define st1 where "st1 = st\<lparr>buf := b, ep := Suc (length bs)\<rparr>"
  obtain e es where e: "items_text its = e # es"
    using wf by (cases its; cases "hd its") (auto simp: wf_items_def items_text_def)
  obtain s where g: "run_bind (getc R st1) (\<lambda>(c, st). run_bind (if c = 94 then getc R st else Ok (c, st)) (\<lambda>(c', st).
        run_bind (class_loop n R endbuf 0 c' True st) (\<lambda>(iflag, st). class_end (c = 94) iflag st))) =
      run_bind (class_loop n R endbuf 0 e True (st1\<lparr>src := s\<rparr>)) (\<lambda>(iflag, st). class_end neg iflag st)"
    and s: "pending s = es @ 93 # tail"
  proof (cases neg)
    case True
    then have "pending (src st1) = 94 # (e # es @ 93 # tail)" using p e by (simp add: st1_def)
    then obtain s1 where s1: "getc R st1 = Ok (94, st1\<lparr>src := s1\<rparr>)" "pending s1 = e # es @ 93 # tail" by (rule getc_run)
    then have "pending (src (st1\<lparr>src := s1\<rparr>)) = e # (es @ 93 # tail)" by simp
    then obtain s2 where "getc R (st1\<lparr>src := s1\<rparr>) = Ok (e, st1\<lparr>src := s1\<rparr>\<lparr>src := s2\<rparr>)" "pending s2 = es @ 93 # tail" by (rule getc_run)
    with s1 True that [of s2] show ?thesis by simp
  next
    case False
    then have ne: "e \<noteq> 94" using wf e by (simp add: wf_items_def)
    have "pending (src st1) = e # (es @ 93 # tail)" using p e False by (simp add: st1_def)
    then obtain s1 where "getc R st1 = Ok (e, st1\<lparr>src := s1\<rparr>)" "pending s1 = es @ 93 # tail" by (rule getc_run)
    with ne False that [of s1] show ?thesis by simp
  qed
  let ?f = "list_all ascii_item its"
  have r1: "length bs + 33 < endbuf" using room by simp
  have at: "class_at bs True {} L (st1\<lparr>src := s\<rparr>)" "pending (src (st1\<lparr>src := s\<rparr>)) = es @ 93 # tail"
    "length (pending (src (st1\<lparr>src := s\<rparr>))) < n"
    using b(2) s n p e by (simp_all add: st1_def split: if_splits)
  have wl: "list_all wf_citem its" "concat (map citem_text its) = e # es"
    using wf e by (simp_all add: wf_items_def items_text_def)
  obtain b1 s1 where l: "class_loop n R endbuf 0 e True (st1\<lparr>src := s\<rparr>) = Ok (?f, st1\<lparr>src := s\<rparr>\<lparr>src := s1, buf := b1\<rparr>)"
      "pending s1 = tail" "class_at bs ?f (items_set its) L (st1\<lparr>src := s\<rparr>\<lparr>src := s1, buf := b1\<rparr>)"
    using class_items [OF r1 room(2) wl(2) at(2) wl(1) at(1) at(3), of 0] by (auto simp: items_set_def)
  obtain b2 where c: "class_end neg ?f (st1\<lparr>src := s\<rparr>\<lparr>src := s1, buf := b1\<rparr>) =
      Ok (st1\<lparr>src := s\<rparr>\<lparr>src := s1, buf := b1\<rparr>\<lparr>buf := b2, ep := length (bs @ encode1 (One (class_atom neg its)))\<rparr>)"
    "emitted (bs @ encode1 (One (class_atom neg its))) L
       (st1\<lparr>src := s\<rparr>\<lparr>src := s1, buf := b1\<rparr>\<lparr>buf := b2, ep := length (bs @ encode1 (One (class_atom neg its)))\<rparr>)"
    by (rule class_end_run [OF l(3) refl refl])
  have "endbuf \<le> ep st + 17 \<longleftrightarrow> False" using st room by (auto simp: emitted_def)
  then have "compile_class n R endbuf st = run_bind (run_bind (emit CCL st) (zero_fill 0 16)) (\<lambda>st.
        run_bind (getc R st) (\<lambda>(c, st). run_bind (if c = 94 then getc R st else Ok (c, st)) (\<lambda>(c', st).
        run_bind (class_loop n R endbuf 0 c' True st) (\<lambda>(iflag, st). class_end (c = 94) iflag st))))"
    by (simp add: compile_class_def run_bind_assoc)
  also have "\<dots> = class_end neg ?f (st1\<lparr>src := s\<rparr>\<lparr>src := s1, buf := b1\<rparr>)"
    unfolding b(1) run_bind.simps st1_def [symmetric] g l(1) by simp
  finally show ?thesis using c l(2) by (intro that [of b2 s1]) (simp_all add: st1_def)
qed
end

lemma cstate_order [simp]:
  "st\<lparr>buf := ya, src := xa\<rparr> = st\<lparr>src := xa, buf := ya\<rparr>"
  "st\<lparr>ep := yb, src := xb\<rparr> = st\<lparr>src := xb, ep := yb\<rparr>"
  "st\<lparr>lastep := yc, src := xc\<rparr> = st\<lparr>src := xc, lastep := yc\<rparr>"
  "st\<lparr>bracket := yd, src := xd\<rparr> = st\<lparr>src := xd, bracket := yd\<rparr>"
  "st\<lparr>closed := ye, src := xe\<rparr> = st\<lparr>src := xe, closed := ye\<rparr>"
  "st\<lparr>glob := yf, src := xf\<rparr> = st\<lparr>src := xf, glob := yf\<rparr>"
  "st\<lparr>ep := yg, buf := xg\<rparr> = st\<lparr>buf := xg, ep := yg\<rparr>"
  "st\<lparr>lastep := yh, buf := xh\<rparr> = st\<lparr>buf := xh, lastep := yh\<rparr>"
  "st\<lparr>bracket := yi, buf := xi\<rparr> = st\<lparr>buf := xi, bracket := yi\<rparr>"
  "st\<lparr>closed := yj, buf := xj\<rparr> = st\<lparr>buf := xj, closed := yj\<rparr>"
  "st\<lparr>glob := yk, buf := xk\<rparr> = st\<lparr>buf := xk, glob := yk\<rparr>"
  "st\<lparr>lastep := yl, ep := xl\<rparr> = st\<lparr>ep := xl, lastep := yl\<rparr>"
  "st\<lparr>bracket := ym, ep := xm\<rparr> = st\<lparr>ep := xm, bracket := ym\<rparr>"
  "st\<lparr>closed := yn, ep := xn\<rparr> = st\<lparr>ep := xn, closed := yn\<rparr>"
  "st\<lparr>glob := yo, ep := xo\<rparr> = st\<lparr>ep := xo, glob := yo\<rparr>"
  "st\<lparr>bracket := yp, lastep := xp\<rparr> = st\<lparr>lastep := xp, bracket := yp\<rparr>"
  "st\<lparr>closed := yq, lastep := xq\<rparr> = st\<lparr>lastep := xq, closed := yq\<rparr>"
  "st\<lparr>glob := yr, lastep := xr\<rparr> = st\<lparr>lastep := xr, glob := yr\<rparr>"
  "st\<lparr>closed := ys, bracket := xs\<rparr> = st\<lparr>bracket := xs, closed := ys\<rparr>"
  "st\<lparr>glob := yt, bracket := xt\<rparr> = st\<lparr>bracket := xt, glob := yt\<rparr>"
  "st\<lparr>glob := yu, closed := xu\<rparr> = st\<lparr>closed := xu, glob := yu\<rparr>"
  by simp_all

lemma escaped_ok:
  assumes "c \<in> {36, 42, 46, 91, 92, 94} \<or> uint (c :: u8) = eof" "eof_ok eof"
  shows "uint c \<notin> {10, 40, 41, 110, 123} \<and> \<not> (49 \<le> uint c \<and> uint c \<le> 57)"
  using assms(1)
proof
  assume "c \<in> {36, 42, 46, 91, 92, 94}"
  then have "uint c \<in> {36, 42, 46, 91, 92, 94}" by auto
  then show ?thesis by auto
qed (use assms(2) in \<open>auto simp: eof_ok_def\<close>)

lemma defchar_run:
  assumes "emitted bs L st" "Suc (length bs) < L"
  obtains b where "defchar (uint c) st = Ok (st\<lparr>buf := b, ep := length (bs @ [CCHR, c]), lastep := Some (length bs)\<rparr>)"
    "emitted (bs @ [CCHR, c]) L (st\<lparr>buf := b, ep := length (bs @ [CCHR, c]), lastep := Some (length bs)\<rparr>)"
proof -
  let ?st = "st\<lparr>lastep := Some (ep st)\<rparr>"
  have "emitted bs L ?st" "length bs < L" using assms by simp_all
  then obtain b1 where b1: "emit CCHR ?st = Ok (?st\<lparr>buf := b1, ep := length (bs @ [CCHR])\<rparr>)"
    "emitted (bs @ [CCHR]) L (?st\<lparr>buf := b1, ep := length (bs @ [CCHR])\<rparr>)" by (rule emit_run)
  have "length (bs @ [CCHR]) < L" using assms by simp
  from b1(2) this obtain b2 where b2: "emit c (?st\<lparr>buf := b1, ep := length (bs @ [CCHR])\<rparr>) =
      Ok (?st\<lparr>buf := b1, ep := length (bs @ [CCHR])\<rparr>\<lparr>buf := b2, ep := length ((bs @ [CCHR]) @ [c])\<rparr>)"
    "emitted ((bs @ [CCHR]) @ [c]) L (?st\<lparr>buf := b1, ep := length (bs @ [CCHR])\<rparr>\<lparr>buf := b2, ep := length ((bs @ [CCHR]) @ [c])\<rparr>)"
    by (rule emit_run)
  have "ep st = length bs" using assms by (auto simp: emitted_def)
  with b1(1) b2 show ?thesis by (intro that [of b2]) (simp_all add: defchar_def)
qed

context pattern_source
begin

lemma mark_plain: "c \<noteq> 42 \<Longrightarrow> c \<noteq> 92 \<Longrightarrow> mark_last R c st = Ok (st\<lparr>lastep := Some (ep st)\<rparr>)"
  by (simp add: mark_last_def)

lemma mark_escape: "pending (src st) = c # cs \<Longrightarrow> c \<noteq> 123 \<Longrightarrow> mark_last R 92 st = Ok (st\<lparr>lastep := Some (ep st)\<rparr>)"
  by (simp add: mark_last_def peekc_run)

lemma escape_iter:
  assumes st: "ep st < endbuf" and p: "pending (src st) = 92 # c # cs" and "c \<noteq> 123" "eof \<noteq> 92"
  obtains s where "pending s = cs" "compile_iter n R endbuf eof st =
    (let st1 = st\<lparr>src := s, lastep := Some (ep st)\<rparr> in
     run_bind (if c = 40 then open_group st1
       else if c = 41 then close_group st1
       else if c = 10 then Error 36
       else if c = 110 then defchar 10 st1
       else if 49 \<le> c \<and> c \<le> 57 then
         (if int (closed st1) \<le> c - 49 then Error 25
          else run_bind (emit CBACK st1) (emit (word_of_int (c - 49))))
       else defchar c st1) (\<lambda>st. Ok (False, st)))"
proof -
  obtain s1 where s1: "getc R st = Ok (92, st\<lparr>src := s1\<rparr>)" "pending s1 = c # cs" using getc_run [OF p] by metis
  let ?st1 = "st\<lparr>src := s1, lastep := Some (ep st)\<rparr>"
  have "pending (src ?st1) = c # cs" using s1 by simp
  then obtain s2 where s2: "getc R ?st1 = Ok (c, ?st1\<lparr>src := s2\<rparr>)" "pending s2 = cs" by (rule getc_run)
  have "mark_last R 92 (st\<lparr>src := s1\<rparr>) = Ok ?st1" using mark_escape [of "st\<lparr>src := s1\<rparr>" c cs] s1(2) assms(3) by simp
  then show ?thesis
    using s1(1) s2 assms by (intro that [of s2])
      (simp_all add: compile_iter_def compile_char_def compile_escape_def Let_def)
qed

lemma atom_iter:
  assumes st: "emitted bs L st" and room: "length bs + 34 < endbuf" "endbuf < L" and wf: "wf_patom a" "eof_ok eof"
    and p: "pending (src st) = patom_text eof a @ tail" and n: "length (pending (src st)) \<le> n"
  obtains b s where "compile_iter n R endbuf eof st = Ok (False, st\<lparr>src := s, buf := b,
        ep := length (bs @ encode1 (One (patom_atom a))), lastep := Some (length bs)\<rparr>)" "pending s = tail"
    "emitted (bs @ encode1 (One (patom_atom a))) L (st\<lparr>src := s, buf := b,
        ep := length (bs @ encode1 (One (patom_atom a))), lastep := Some (length bs)\<rparr>)"
proof -
  have e: "ep st = length bs" "ep st < endbuf" using st room by (auto simp: emitted_def)
  have room': "Suc (length bs) < L" "length bs < L" using room by auto
  show ?thesis
  proof (cases a)
    case (PChr c)
    note result = that
    have run: thesis if s: "pending s = tail" and
      i: "compile_iter n R endbuf eof st = run_bind (defchar (uint c) (st\<lparr>src := s, lastep := Some (ep st)\<rparr>)) (\<lambda>st. Ok (False, st))" for s
    proof -
      have "emitted bs L (st\<lparr>src := s, lastep := Some (ep st)\<rparr>)" using st by simp
      from this room'(1) obtain b where "defchar (uint c) (st\<lparr>src := s, lastep := Some (ep st)\<rparr>) =
          Ok (st\<lparr>src := s, lastep := Some (ep st)\<rparr>\<lparr>buf := b, ep := length (bs @ [CCHR, c]), lastep := Some (length bs)\<rparr>)"
        "emitted (bs @ [CCHR, c]) L (st\<lparr>src := s, lastep := Some (ep st)\<rparr>\<lparr>buf := b, ep := length (bs @ [CCHR, c]), lastep := Some (length bs)\<rparr>)"
        by (rule defchar_run)
      with s i PChr show ?thesis by (intro result [of b s]) simp_all
    qed
    note u = word_uint_eq_iff
    show ?thesis
    proof (cases "c \<in> {10, 36, 42, 46, 91, 92, 94} \<or> uint c = eof")
      case True
      let ?d = "if c = 10 then 110 else uint c"
      have d: "?d \<notin> {10, 40, 41, 123}" "\<not> (49 \<le> ?d \<and> ?d \<le> 57)" "?d = 110 \<longleftrightarrow> c = 10"
        using escaped_ok [of c eof] True wf(2) by (cases "c = 10"; simp)+
      have p1: "pending (src st) = 92 # ?d # tail" using True p PChr by (auto simp: chr_text_def)
      have "?d \<noteq> 123" "eof \<noteq> 92" using d wf(2) by (auto simp: eof_ok_def)
      then obtain s where s: "pending s = tail" and "compile_iter n R endbuf eof st =
        (let st1 = st\<lparr>src := s, lastep := Some (ep st)\<rparr> in
         run_bind (if ?d = 40 then open_group st1
           else if ?d = 41 then close_group st1
           else if ?d = 10 then Error 36
           else if ?d = 110 then defchar 10 st1
           else if 49 \<le> ?d \<and> ?d \<le> 57 then
             (if int (closed st1) \<le> ?d - 49 then Error 25
              else run_bind (emit CBACK st1) (emit (word_of_int (?d - 49))))
           else defchar ?d st1) (\<lambda>st. Ok (False, st)))"
        by (rule escape_iter [OF e(2) p1])
      with d show ?thesis by (intro run [OF s]) (auto simp: Let_def)
    next
      case False
      then have f: "uint c \<notin> {10, 36, 42, 46, 91, 92, 94}" "uint c \<noteq> eof" and "pending (src st) = uint c # tail"
        using p PChr by (auto simp: u chr_text_def)
      from this(3) obtain s where s: "getc R st = Ok (uint c, st\<lparr>src := s\<rparr>)" "pending s = tail" by (rule getc_run)
      show ?thesis using f s e by (intro run [OF s(2)]) (simp add: compile_iter_def mark_plain compile_char_def)
    qed
  next
    case PAny
    then have "pending (src st) = 46 # tail" using p by simp
    then obtain s where s: "getc R st = Ok (46, st\<lparr>src := s\<rparr>)" "pending s = tail" by (rule getc_run)
    let ?st = "st\<lparr>src := s, lastep := Some (length bs)\<rparr>"
    have "emitted bs L ?st" using st by simp
    from this room'(2) obtain b where b: "emit CDOT ?st = Ok (?st\<lparr>buf := b, ep := length (bs @ [CDOT])\<rparr>)"
      "emitted (bs @ [CDOT]) L (?st\<lparr>buf := b, ep := length (bs @ [CDOT])\<rparr>)" by (rule emit_run)
    show ?thesis using PAny b s e wf(2)
      by (intro that [of b s]) (simp_all add: compile_iter_def mark_plain compile_char_def eof_ok_def)
  next
    case (PSet neg its)
    then have "pending (src st) = 91 # ((if neg then [94] else []) @ items_text its @ 93 # tail)" using p by simp
    then obtain s where s: "getc R st = Ok (91, st\<lparr>src := s\<rparr>)" "pending s = (if neg then [94] else []) @ items_text its @ 93 # tail"
      by (rule getc_run)
    let ?st = "st\<lparr>src := s, lastep := Some (length bs)\<rparr>"
    have "emitted bs L ?st" "wf_items neg its" "pending (src ?st) = (if neg then [94] else []) @ items_text its @ 93 # tail"
      "length (pending (src ?st)) < n" using st wf PSet s p n by auto
    from compile_class_run [OF this(1) room this(2-4)] obtain b s1 where
      c: "compile_class n R endbuf ?st = Ok (?st\<lparr>src := s1, buf := b, ep := length (bs @ encode1 (One (class_atom neg its)))\<rparr>)"
        "pending s1 = tail" "emitted (bs @ encode1 (One (class_atom neg its))) L
           (?st\<lparr>src := s1, buf := b, ep := length (bs @ encode1 (One (class_atom neg its)))\<rparr>)"
      by metis
    show ?thesis using PSet c s e wf(2)
      by (intro that [of b s1]) (simp_all add: compile_iter_def mark_plain compile_char_def eof_ok_def del: encode1.simps)
  qed
qed
end

lemma emitted_poke:
  assumes "emitted (p @ x # q) L st" "l = int (length p)"
  obtains b where "poke l f st = Ok (st\<lparr>buf := b\<rparr>)" "emitted (p @ f x # q) L (st\<lparr>buf := b\<rparr>)"
proof -
  from assms obtain r where r: "buf st = p @ x # (q @ r)" "ep st = length (p @ x # q)" "length (buf st) = L"
    by (auto simp: emitted_def)
  show ?thesis
    by (rule that [of "p @ f x # (q @ r)"]) (use r assms(2) poke_append [OF r(1)] in \<open>auto simp: emitted_def\<close>)
qed

lemma emitted_rd: "emitted (p @ x # q) L st \<Longrightarrow> rd (buf st) (length p) = Ok x"
  by (auto simp: emitted_def rd_def nth_append)

lemma emit2_run:
  assumes "emitted bs L st" "Suc (length bs) < L"
  obtains b where "run_bind (emit x st) (emit y) = Ok (st\<lparr>buf := b, ep := length (bs @ [x, y])\<rparr>)"
    "emitted (bs @ [x, y]) L (st\<lparr>buf := b, ep := length (bs @ [x, y])\<rparr>)"
proof -
  have "length bs < L" using assms by simp
  from assms(1) this obtain b1 where b1: "emit x st = Ok (st\<lparr>buf := b1, ep := length (bs @ [x])\<rparr>)"
    "emitted (bs @ [x]) L (st\<lparr>buf := b1, ep := length (bs @ [x])\<rparr>)" by (rule emit_run)
  have "length (bs @ [x]) < L" using assms by simp
  from b1(2) this obtain b2 where "emit y (st\<lparr>buf := b1, ep := length (bs @ [x])\<rparr>) =
      Ok (st\<lparr>buf := b1, ep := length (bs @ [x])\<rparr>\<lparr>buf := b2, ep := length ((bs @ [x]) @ [y])\<rparr>)"
    "emitted ((bs @ [x]) @ [y]) L (st\<lparr>buf := b1, ep := length (bs @ [x])\<rparr>\<lparr>buf := b2, ep := length ((bs @ [x]) @ [y])\<rparr>)"
    by (rule emit_run)
  with b1(1) show ?thesis by (intro that [of b2]) simp_all
qed

lemma dec_digits: "n < 1000 \<Longrightarrow> \<forall>d \<in> set (dec n). 48 \<le> d \<and> d \<le> 57" "dec n \<noteq> []" "length (dec n) \<le> 3"
  by (auto simp: dec_def)

lemma dec_value:
  assumes "n < 1000"
  shows "foldl (\<lambda>i d. 10 * i + word_of_int d - 48) 0 (dec n) = (of_nat n :: u32)"
proof -
  let ?step = "\<lambda>i d. 10 * i + word_of_int d - (48 :: u32)"
  have dig: "?step i (48 + int k) = 10 * i + of_nat k" for i k by simp
  have two: "(10 * of_nat (m div 10) + of_nat (m mod 10) :: u32) = of_nat m" for m
    by (metis mult_div_mod_eq of_nat_add of_nat_mult of_nat_numeral)
  have "n div 10 div 10 = n div 100" by (simp flip: div_mult2_eq)
  then have three: "(10 * of_nat (n div 100) + of_nat (n div 10 mod 10) :: u32) = of_nat (n div 10)"
    using two [of "n div 10"] by simp
  note eval = foldl.simps dig and norm = mult_zero_right add_0 three two
  consider "n < 10" | "\<not> n < 10" "n < 100" | "\<not> n < 100" by blast
  then show ?thesis
  proof cases
    case 1
    then show ?thesis by (simp only: dec_def if_True eval, simp only: norm)
  next
    case 2
    then show ?thesis by (simp only: dec_def if_True if_False eval, simp only: norm)
  next
    case 3
    then have "\<not> n < 10" by simp
    with 3 show ?thesis by (simp only: dec_def if_False eval, simp only: norm)
  qed
qed

context pattern_source
begin

lemma num_loop_run:
  "\<forall>d \<in> set (c # ds). 48 \<le> d \<and> d \<le> 57 \<Longrightarrow> t = 92 \<or> t = 44 \<Longrightarrow> pending (src st) = ds @ t # tail \<Longrightarrow> length ds < n \<Longrightarrow>
   \<exists>s. num_loop n R c i st = Ok (foldl (\<lambda>i d. 10 * i + word_of_int d - 48) i (c # ds), t, st\<lparr>src := s\<rparr>) \<and> pending s = tail"
proof (induction ds arbitrary: c i st n)
  case Nil
  then obtain m where n: "n = Suc m" by (cases n) auto
  from Nil obtain s where "getc R st = Ok (t, st\<lparr>src := s\<rparr>)" "pending s = tail" by (auto elim: getc_run)
  with Nil n show ?case by auto
next
  case (Cons d ds)
  then obtain m where n: "n = Suc m" "length ds < m" by (cases n) auto
  from Cons.prems(3) obtain s where s: "getc R st = Ok (d, st\<lparr>src := s\<rparr>)" "pending s = ds @ t # tail"
    by (auto elim: getc_run)
  have "d \<noteq> 92" "d \<noteq> 44" using Cons.prems(1) by auto
  then have "num_loop n R c i st = num_loop m R d (10 * i + word_of_int c - 48) (st\<lparr>src := s\<rparr>)"
    using s n Cons.prems(1) by simp
  with Cons.IH [of d "st\<lparr>src := s\<rparr>" m "10 * i + word_of_int c - 48"] Cons.prems s n show ?case by auto
qed

lemma nlim_run:
  assumes st: "emitted bs L st" "length bs < L" and p: "pending (src st) = dec (unat v) @ t # tail" "t = 92 \<or> t = 44"
    and v: "v \<noteq> (255 :: u8)" and n: "length (pending (src st)) \<le> n"
  obtains b s where "nlim n R st = Ok (of_nat (unat v), t, st\<lparr>src := s, buf := b, ep := length (bs @ [v])\<rparr>)" "pending s = tail"
    "emitted (bs @ [v]) L (st\<lparr>src := s, buf := b, ep := length (bs @ [v])\<rparr>)"
proof -
  have lt: "unat v < 256" by (rule unat_u8_less)
  moreover have "unat v \<noteq> 255" using v by (simp add: word_unat_eq_iff)
  ultimately have lt': "unat v < 255" by simp
  obtain c ds where d: "dec (unat v) = c # ds" using dec_digits(2) by (cases "dec (unat v)") auto
  have dig: "\<forall>e \<in> set (c # ds). 48 \<le> e \<and> e \<le> 57" using dec_digits(1) [of "unat v"] lt d by simp
  have "pending (src st) = c # (ds @ t # tail)" using p d by simp
  then obtain s0 where g: "getc R st = Ok (c, st\<lparr>src := s0\<rparr>)" "pending s0 = ds @ t # tail" by (rule getc_run)
  have "pending (src (st\<lparr>src := s0\<rparr>)) = ds @ t # tail" "length ds < n" using g n p d by simp_all
  from num_loop_run [OF dig p(2) this, of 0] obtain s where
    l: "num_loop n R c 0 (st\<lparr>src := s0\<rparr>) = Ok (of_nat (unat v), t, st\<lparr>src := s\<rparr>)" "pending s = tail"
    using dec_value [of "unat v"] lt d by auto
  have i: "\<not> 255 \<le>s (of_nat (unat v) :: u32)"
  proof -
    have "sint (of_nat (unat v) :: u32) = int (unat v)" using lt' by (intro sint_of_nat_u32) simp
    moreover have "sint (255 :: u32) = 255" by simp
    ultimately show ?thesis unfolding word_sle_eq using lt' by linarith
  qed
  have u: "ucast (of_nat (unat v) :: u32) = v"
    by (rule bit_eqI) (auto simp: bit_ucast_iff dest: bit_imp_le_length)
  have "emitted bs L (st\<lparr>src := s\<rparr>)" using st by simp
  from this st(2) obtain b where "emit v (st\<lparr>src := s\<rparr>) = Ok (st\<lparr>src := s\<rparr>\<lparr>buf := b, ep := length (bs @ [v])\<rparr>)"
    "emitted (bs @ [v]) L (st\<lparr>src := s\<rparr>\<lparr>buf := b, ep := length (bs @ [v])\<rparr>)" by (rule emit_run)
  with g l i u show ?thesis by (intro that [of b s]) (simp_all add: nlim_def)
qed
end

context pattern_source
begin

lemma range_end_run:
  assumes st: "emitted bs L st" "length bs < L" and p: "pending (src st) = 125 # tail"
    and c: "cflg \<Longrightarrow> bs = bs' @ [l, h] \<and> l \<le> h"
  obtains b s where "range_end R cflg i st = Ok (st\<lparr>src := s, buf := b, ep := length (bs @ (if cflg then [] else [ucast i]))\<rparr>)"
    "pending s = tail" "emitted (bs @ (if cflg then [] else [ucast i])) L
       (st\<lparr>src := s, buf := b, ep := length (bs @ (if cflg then [] else [ucast i]))\<rparr>)"
proof -
  obtain s where s: "getc R st = Ok (125, st\<lparr>src := s\<rparr>)" "pending s = tail" using getc_run [OF p] by metis
  show ?thesis
  proof (cases cflg)
    case True
    then have bs: "bs = bs' @ [l, h]" "l \<le> h" using c by auto
    have e: "ep st = Suc (Suc (length bs'))" using st bs by (auto simp: emitted_def)
    have "rd (buf st) (length bs') = Ok l" "rd (buf st) (Suc (length bs')) = Ok h"
      using emitted_rd [of bs' l "[h]" L st] emitted_rd [of "bs' @ [l]" h "[]" L st] st(1) bs by simp_all
    moreover have "emitted bs L (st\<lparr>src := s, buf := buf st, ep := length bs\<rparr>)" using st by (auto simp: emitted_def)
    moreover have "st\<lparr>src := s, ep := length bs\<rparr> = st\<lparr>src := s\<rparr>" using e bs by simp
    ultimately show ?thesis using True s e bs
      by (intro that [of "buf st" s]) (auto simp: range_end_def)
  next
    case False
    have "emitted bs L (st\<lparr>src := s\<rparr>)" using st by simp
    from this st(2) obtain b where "emit (ucast i) (st\<lparr>src := s\<rparr>) = Ok (st\<lparr>src := s\<rparr>\<lparr>buf := b, ep := length (bs @ [ucast i])\<rparr>)"
      "emitted (bs @ [ucast i]) L (st\<lparr>src := s\<rparr>\<lparr>buf := b, ep := length (bs @ [ucast i])\<rparr>)" by (rule emit_run)
    with False s show ?thesis by (intro that [of b s]) (simp_all add: range_end_def)
  qed
qed

lemma ucast_count: "ucast (of_nat (unat v) :: u32) = (v :: u8)"
  by (rule bit_eqI) (auto simp: bit_ucast_iff dest: bit_imp_le_length)

lemma compile_range_run:
  assumes st: "emitted bs L st" "length bs + 3 < L" and lh: "l \<le> h" "l \<noteq> 255"
    and p: "[92, 123] @ pending (src st) = rep_text l h @ tail" and n: "length (pending (src st)) \<le> n"
  obtains b s where "compile_range n R st = Ok (st\<lparr>src := s, buf := b, ep := length (bs @ [l, h])\<rparr>)" "pending s = tail"
    "emitted (bs @ [l, h]) L (st\<lparr>src := s, buf := b, ep := length (bs @ [l, h])\<rparr>)"
proof -
  define t where "t = (if h = l then 92 else 44 :: int)"
  define more where "more = (if h = l then [] else if h = 255 then [92] else dec (unat h) @ [92]) @ 125 # tail"
  have p1: "pending (src st) = dec (unat l) @ t # more" "t = 92 \<or> t = 44"
    using p by (auto simp: rep_text_def t_def more_def)
  have len: "length bs < L" using st by simp
  from nlim_run [OF st(1) len p1 lh(2) n] obtain b1 s1 where
    n1: "nlim n R st = Ok (of_nat (unat l), t, st\<lparr>src := s1, buf := b1, ep := length (bs @ [l])\<rparr>)" "pending s1 = more"
      "emitted (bs @ [l]) L (st\<lparr>src := s1, buf := b1, ep := length (bs @ [l])\<rparr>)" by metis
  define st1 where "st1 = st\<lparr>src := s1, buf := b1, ep := length (bs @ [l])\<rparr>"
  have e1: "emitted (bs @ [l]) L st1" and p2: "pending (src st1) = more" using n1 by (simp_all add: st1_def)
  have len1: "length (bs @ [l]) < L" "length ((bs @ [l]) @ [h]) < L" using st by simp_all
  consider (eq) "h = l" | (inf) "h \<noteq> l" "h = 255" | (two) "h \<noteq> l" "h \<noteq> 255" by blast
  then show ?thesis
  proof cases
    case eq
    then have "pending (src st1) = 125 # tail" using p2 by (simp add: more_def)
    from range_end_run [OF e1 len1(1) this, of False "[]" l h "of_nat (unat l)"] obtain b s where
      "range_end R False (of_nat (unat l)) st1 = Ok (st1\<lparr>src := s, buf := b, ep := length ((bs @ [l]) @ [l])\<rparr>)" "pending s = tail"
      "emitted ((bs @ [l]) @ [l]) L (st1\<lparr>src := s, buf := b, ep := length ((bs @ [l]) @ [l])\<rparr>)"
      unfolding ucast_count if_False by blast
    with n1(1) eq show ?thesis
      by (intro that [of b s]) (simp_all add: compile_range_def t_def st1_def)
  next
    case inf
    then have p3: "pending (src st1) = 92 # (125 # tail)" using p2 by (simp add: more_def)
    then obtain s2 where g: "getc R st1 = Ok (92, st1\<lparr>src := s2\<rparr>)" "pending s2 = 125 # tail" by (rule getc_run)
    have "emitted (bs @ [l]) L (st1\<lparr>src := s2\<rparr>)" using e1 by simp
    from this len1(1) obtain b2 where b2: "emit 255 (st1\<lparr>src := s2\<rparr>) = Ok (st1\<lparr>src := s2\<rparr>\<lparr>buf := b2, ep := length ((bs @ [l]) @ [255])\<rparr>)"
      "emitted ((bs @ [l]) @ [255]) L (st1\<lparr>src := s2\<rparr>\<lparr>buf := b2, ep := length ((bs @ [l]) @ [255])\<rparr>)" by (rule emit_run)
    define st2 where "st2 = st1\<lparr>src := s2\<rparr>\<lparr>buf := b2, ep := length ((bs @ [l]) @ [255])\<rparr>"
    have "emitted ((bs @ [l]) @ [255]) L st2" "length ((bs @ [l]) @ [255]) < L" "pending (src st2) = 125 # tail"
      using b2 g len1 by (simp_all add: st2_def)
    from range_end_run [OF this, of True bs l 255 "of_nat (unat l)"] lh inf obtain b s where
      "range_end R True (of_nat (unat l)) st2 = Ok (st2\<lparr>src := s, buf := b, ep := length ((bs @ [l]) @ [255])\<rparr>)" "pending s = tail"
      "emitted ((bs @ [l]) @ [255]) L (st2\<lparr>src := s, buf := b, ep := length ((bs @ [l]) @ [255])\<rparr>)"
      by auto
    with n1(1) g(1) b2(1) inf show ?thesis
      by (intro that [of b s]) (simp_all add: compile_range_def t_def st1_def st2_def)
  next
    case two
    obtain d ds where d: "dec (unat h) = d # ds" using dec_digits(2) by (cases "dec (unat h)") auto
    have "unat h < 1000" using unat_u8_less [of h] by simp
    then have "d \<noteq> 92" using dec_digits(1) [of "unat h"] d by auto
    have p3: "pending (src st1) = d # (ds @ 92 # 125 # tail)" using p2 two d by (simp add: more_def)
    then obtain s2 where g: "getc R st1 = Ok (d, st1\<lparr>src := s2\<rparr>)" "pending s2 = ds @ 92 # 125 # tail"
      "pending (UNGETC R d s2) = d # ds @ 92 # 125 # tail" by (rule getc_run)
    define st2 where "st2 = ungetc R d (st1\<lparr>src := s2\<rparr>)"
    have e2: "emitted (bs @ [l]) L st2" "pending (src st2) = dec (unat h) @ 92 # (125 # tail)" "length (pending (src st2)) \<le> n"
      using e1 g d n p1 two by (simp_all add: st2_def ungetc_def more_def)
    from nlim_run [OF e2(1) len1(1) e2(2) _ two(2) e2(3)] obtain b3 s3 where
      n3: "nlim n R st2 = Ok (of_nat (unat h), 92, st2\<lparr>src := s3, buf := b3, ep := length ((bs @ [l]) @ [h])\<rparr>)" "pending s3 = 125 # tail"
        "emitted ((bs @ [l]) @ [h]) L (st2\<lparr>src := s3, buf := b3, ep := length ((bs @ [l]) @ [h])\<rparr>)" by auto
    define st3 where "st3 = st2\<lparr>src := s3, buf := b3, ep := length ((bs @ [l]) @ [h])\<rparr>"
    have "emitted ((bs @ [l]) @ [h]) L st3" "pending (src st3) = 125 # tail" using n3 by (simp_all add: st3_def)
    from range_end_run [OF this(1) len1(2) this(2), of True bs l h "of_nat (unat h)"] lh obtain b s where
      "range_end R True (of_nat (unat h)) st3 = Ok (st3\<lparr>src := s, buf := b, ep := length ((bs @ [l]) @ [h])\<rparr>)" "pending s = tail"
      "emitted ((bs @ [l]) @ [h]) L (st3\<lparr>src := s, buf := b, ep := length ((bs @ [l]) @ [h])\<rparr>)"
      by auto
    with n1(1) g(1) n3(1) two \<open>d \<noteq> 92\<close> show ?thesis
      by (intro that [of b s]) (simp_all add: compile_range_def t_def st1_def st3_def st2_def ungetc_def)
  qed
qed
end

lemma atom_op_star: "atom_op a \<noteq> CBRA" "atom_op a \<noteq> CKET"
  by (cases a; simp add: opcodes)+

context pattern_source
begin

lemma star_iter:
  assumes st: "emitted (bs @ op # arg) L st" and room: "length (bs @ op # arg) < endbuf" and p: "pending (src st) = 42 # tail"
    and l: "lastep st = Some (length bs)" and op: "op \<noteq> CBRA" "op \<noteq> CKET" and "eof_ok eof"
  obtains b s where "compile_iter n R endbuf eof st = Ok (False, st\<lparr>src := s, buf := b\<rparr>)" "pending s = tail"
    "emitted (bs @ (op OR STAR) # arg) L (st\<lparr>src := s, buf := b\<rparr>)"
proof -
  obtain s where s: "getc R st = Ok (42, st\<lparr>src := s\<rparr>)" "pending s = tail" using getc_run [OF p] by metis
  have e: "emitted (bs @ op # arg) L (st\<lparr>src := s\<rparr>)" using st by simp
  obtain b where b: "poke (int (length bs)) (\<lambda>x. x OR STAR) (st\<lparr>src := s\<rparr>) = Ok (st\<lparr>src := s\<rparr>\<lparr>buf := b\<rparr>)"
    "emitted (bs @ (op OR STAR) # arg) L (st\<lparr>src := s\<rparr>\<lparr>buf := b\<rparr>)"
    by (rule emitted_poke [OF e refl])
  have "ep st < endbuf" using st room by (auto simp: emitted_def)
  moreover have "rd (buf st) (length bs) = Ok op" using emitted_rd [OF st] .
  ultimately show ?thesis using s b l op assms(7)
    by (intro that [of b s]) (simp_all add: compile_iter_def mark_last_def compile_char_def compile_star_def eof_ok_def)
qed

lemma rep_iter:
  assumes st: "emitted (bs @ op # arg) L st" and room: "length (bs @ op # arg) + 3 < endbuf" "endbuf < L"
    and p: "pending (src st) = rep_text l h @ tail" and lh: "l \<le> h" "l \<noteq> 255"
    and ls: "lastep st = Some (length bs)" and eof: "eof_ok eof" and n: "length (pending (src st)) \<le> n"
  obtains b s where "compile_iter n R endbuf eof st =
      Ok (False, st\<lparr>src := s, buf := b, ep := length (bs @ (op OR RNGE) # arg @ [l, h])\<rparr>)" "pending s = tail"
    "emitted (bs @ (op OR RNGE) # arg @ [l, h]) L (st\<lparr>src := s, buf := b, ep := length (bs @ (op OR RNGE) # arg @ [l, h])\<rparr>)"
proof -
  define more where "more = drop 2 (rep_text l h) @ tail"
  have more: "rep_text l h @ tail = 92 # 123 # more" by (simp add: more_def rep_text_def)
  obtain s1 where s1: "getc R st = Ok (92, st\<lparr>src := s1\<rparr>)" "pending s1 = 123 # more"
    using getc_run [of st 92 "123 # more"] p more by metis
  have m: "mark_last R 92 (st\<lparr>src := s1\<rparr>) = Ok (st\<lparr>src := s1\<rparr>)"
    using peekc_run [of "st\<lparr>src := s1\<rparr>" 123 more] s1 by (simp add: mark_last_def)
  have "pending (src (st\<lparr>src := s1\<rparr>)) = 123 # more" using s1 by simp
  then obtain s2 where s2: "getc R (st\<lparr>src := s1\<rparr>) = Ok (123, st\<lparr>src := s1\<rparr>\<lparr>src := s2\<rparr>)" "pending s2 = more" by (rule getc_run)
  have e: "emitted (bs @ op # arg) L (st\<lparr>src := s2\<rparr>)" using st by simp
  obtain b where b: "poke (int (length bs)) (\<lambda>x. x OR RNGE) (st\<lparr>src := s2\<rparr>) = Ok (st\<lparr>src := s2\<rparr>\<lparr>buf := b\<rparr>)"
    "emitted (bs @ (op OR RNGE) # arg) L (st\<lparr>src := s2\<rparr>\<lparr>buf := b\<rparr>)"
    by (rule emitted_poke [OF e refl])
  let ?st2 = "st\<lparr>src := s2\<rparr>\<lparr>buf := b\<rparr>"
  have "length (bs @ (op OR RNGE) # arg) + 3 < L" "[92, 123] @ pending (src ?st2) = rep_text l h @ tail"
    "length (pending (src ?st2)) \<le> n"
    using room s2 more p n by simp_all
  from compile_range_run [OF b(2) this(1) lh this(2,3)] obtain b3 s3 where
    c: "compile_range n R ?st2 = Ok (?st2\<lparr>src := s3, buf := b3, ep := length ((bs @ (op OR RNGE) # arg) @ [l, h])\<rparr>)" "pending s3 = tail"
      "emitted ((bs @ (op OR RNGE) # arg) @ [l, h]) L (?st2\<lparr>src := s3, buf := b3, ep := length ((bs @ (op OR RNGE) # arg) @ [l, h])\<rparr>)"
    by metis
  have "ep st < endbuf" using st room by (auto simp: emitted_def)
  then show ?thesis using s1(1) m s2(1) b(1) c ls eof
    by (intro that [of b3 s3]) (simp_all add: compile_iter_def compile_char_def compile_escape_def eof_ok_def)
qed

lemma open_iter:
  assumes at: "at_point pending L bs k stk cl g (92 # 40 # tail) st" and room: "length bs + 3 < endbuf" "endbuf < L"
    and k: "k < NBRA" and eof: "eof_ok eof"
  obtains st' where "compile_iter n R endbuf eof st = Ok (False, st')"
    "at_point pending L (bs @ [CBRA, of_nat k]) (Suc k) (of_nat k # stk) cl g tail st'"
proof -
  have e: "ep st < endbuf" "nbra (glob st) = k" "length (bracket st) < NBRA" using at room k by (auto simp: at_point_def emitted_def)
  have p: "pending (src st) = 92 # 40 # tail" using at by (simp add: at_point_def)
  obtain s where s: "pending s = tail" and i: "compile_iter n R endbuf eof st =
     run_bind (open_group (st\<lparr>src := s, lastep := Some (ep st)\<rparr>)) (\<lambda>st. Ok (False, st))"
    using escape_iter [OF e(1) p, of eof n] eof by (auto simp: eof_ok_def Let_def)
  let ?st = "st\<lparr>src := s, lastep := Some (ep st), bracket := of_nat k # bracket st\<rparr>"
  have "emitted bs L ?st" "Suc (length bs) < L" using at room by (auto simp: at_point_def)
  then obtain b where b: "run_bind (emit CBRA ?st) (emit (of_nat k)) = Ok (?st\<lparr>buf := b, ep := length (bs @ [CBRA, of_nat k])\<rparr>)"
    "emitted (bs @ [CBRA, of_nat k]) L (?st\<lparr>buf := b, ep := length (bs @ [CBRA, of_nat k])\<rparr>)" by (rule emit2_run)
  have "open_group (st\<lparr>src := s, lastep := Some (ep st)\<rparr>) =
      run_bind (run_bind (emit CBRA ?st) (emit (of_nat k))) (\<lambda>st. Ok (st\<lparr>glob := (glob st)\<lparr>nbra := k + 1\<rparr>\<rparr>))"
    using e k by (simp add: open_group_def Let_def run_bind_assoc)
  then show ?thesis unfolding b(1) using i b(2) at s
    by (intro that [of "?st\<lparr>buf := b, ep := length (bs @ [CBRA, of_nat k])\<rparr>\<lparr>glob := (glob st)\<lparr>nbra := k + 1\<rparr>\<rparr>"])
       (simp_all add: at_point_def)
qed

lemma close_iter:
  assumes at: "at_point pending L bs k (i # stk) cl g (92 # 41 # tail) st" and room: "length bs + 3 < endbuf" "endbuf < L"
    and eof: "eof_ok eof"
  obtains st' where "compile_iter n R endbuf eof st = Ok (False, st')"
    "at_point pending L (bs @ [CKET, i]) k stk (Suc cl) g tail st'"
proof -
  have e: "ep st < endbuf" using at room by (auto simp: at_point_def emitted_def)
  have p: "pending (src st) = 92 # 41 # tail" using at by (simp add: at_point_def)
  obtain s where s: "pending s = tail" and it: "compile_iter n R endbuf eof st =
     run_bind (close_group (st\<lparr>src := s, lastep := Some (ep st)\<rparr>)) (\<lambda>st. Ok (False, st))"
    using escape_iter [OF e p, of eof n] eof by (auto simp: eof_ok_def Let_def)
  let ?st = "st\<lparr>src := s, lastep := Some (ep st)\<rparr>"
  have "emitted bs L ?st" "length bs < L" using at room by (auto simp: at_point_def)
  then obtain b where b: "emit CKET ?st = Ok (?st\<lparr>buf := b, ep := length (bs @ [CKET])\<rparr>)"
    "emitted (bs @ [CKET]) L (?st\<lparr>buf := b, ep := length (bs @ [CKET])\<rparr>)" by (rule emit_run)
  let ?st1 = "?st\<lparr>buf := b, ep := length (bs @ [CKET])\<rparr>\<lparr>bracket := stk\<rparr>"
  have "emitted (bs @ [CKET]) L ?st1" "length (bs @ [CKET]) < L" using b(2) room by (auto simp del: cstate_order)
  then obtain b1 where b1: "emit i ?st1 = Ok (?st1\<lparr>buf := b1, ep := length ((bs @ [CKET]) @ [i])\<rparr>)"
    "emitted ((bs @ [CKET]) @ [i]) L (?st1\<lparr>buf := b1, ep := length ((bs @ [CKET]) @ [i])\<rparr>)" by (rule emit_run)
  show ?thesis using it b(1) b1 at s
    by (intro that [of "?st1\<lparr>buf := b1, ep := length ((bs @ [CKET]) @ [i])\<rparr>\<lparr>closed := Suc cl\<rparr>"])
       (simp_all add: at_point_def close_group_def)
qed

lemma ref_iter:
  assumes at: "at_point pending L bs k stk cl g (92 # (49 + uint i) # tail) st" and room: "length bs + 3 < endbuf" "endbuf < L"
    and i: "unat i < cl" "unat i < NBRA" and eof: "eof_ok eof"
  obtains st' where "compile_iter n R endbuf eof st = Ok (False, st')"
    "at_point pending L (bs @ [CBACK, i]) k stk cl g tail st'"
proof -
  have e: "ep st < endbuf" "closed st = cl" using at room by (auto simp: at_point_def emitted_def)
  have "int (unat i) = uint i" by simp
  then have u: "uint i < 9" "0 \<le> uint i" "\<not> int (closed st) \<le> uint i"
    using i e(2) unfolding NBRA_def by linarith+
  have p: "pending (src st) = 92 # (49 + uint i) # tail" using at by (simp add: at_point_def)
  obtain s where s: "pending s = tail" and it: "compile_iter n R endbuf eof st =
     run_bind (run_bind (emit CBACK (st\<lparr>src := s, lastep := Some (ep st)\<rparr>)) (emit i)) (\<lambda>st. Ok (False, st))"
    by (rule escape_iter [OF e(1) p, of eof n]) (use eof u in \<open>auto simp: eof_ok_def Let_def\<close>)
  let ?st = "st\<lparr>src := s, lastep := Some (ep st)\<rparr>"
  have "emitted bs L ?st" "Suc (length bs) < L" using at room by (auto simp: at_point_def)
  then obtain b where "run_bind (emit CBACK ?st) (emit i) = Ok (?st\<lparr>buf := b, ep := length (bs @ [CBACK, i])\<rparr>)"
    "emitted (bs @ [CBACK, i]) L (?st\<lparr>buf := b, ep := length (bs @ [CBACK, i])\<rparr>)" by (rule emit2_run)
  then show ?thesis using it at s
    by (intro that [of "?st\<lparr>buf := b, ep := length (bs @ [CBACK, i])\<rparr>"]) (simp_all add: at_point_def)
qed

lemma dollar_iter:
  assumes at: "at_point pending L bs k stk cl g (36 # eof # tail) st" and room: "length bs + 3 < endbuf" "endbuf < L"
    and eof: "eof_ok eof"
  obtains st' where "compile_iter n R endbuf eof st = Ok (False, st')"
    "at_point pending L (bs @ [CDOL]) k stk cl g (eof # tail) st'"
proof -
  have e: "ep st < endbuf" using at room by (auto simp: at_point_def emitted_def)
  have p: "pending (src st) = 36 # eof # tail" using at by (simp add: at_point_def)
  then obtain s where s: "getc R st = Ok (36, st\<lparr>src := s\<rparr>)" "pending s = eof # tail" by (rule getc_run)
  let ?st = "st\<lparr>src := s, lastep := Some (ep st)\<rparr>"
  have pk: "peekc R ?st = Ok eof" using s by (intro peekc_run) simp
  have "emitted bs L ?st" "length bs < L" using at room by (auto simp: at_point_def)
  then obtain b where "emit CDOL ?st = Ok (?st\<lparr>buf := b, ep := length (bs @ [CDOL])\<rparr>)"
    "emitted (bs @ [CDOL]) L (?st\<lparr>buf := b, ep := length (bs @ [CDOL])\<rparr>)" by (rule emit_run)
  then show ?thesis using e s pk at eof
    by (intro that [of "?st\<lparr>buf := b, ep := length (bs @ [CDOL])\<rparr>"])
       (simp_all add: at_point_def compile_iter_def mark_plain compile_char_def compile_dollar_def eof_ok_def)
qed

lemma finish_iter:
  assumes at: "at_point pending L bs k [] cl g (eof # tail) st" and room: "length bs + 3 < endbuf" "endbuf < L"
    and eof: "eof_ok eof"
  obtains st' where "compile_iter n R endbuf eof st = Ok (True, st')"
    "at_point pending L (bs @ [CCEOF]) k [] cl g tail st'"
proof -
  have e: "ep st < endbuf" using at room by (auto simp: at_point_def emitted_def)
  have p: "pending (src st) = eof # tail" using at by (simp add: at_point_def)
  then obtain s where s: "getc R st = Ok (eof, st\<lparr>src := s\<rparr>)" "pending s = tail" by (rule getc_run)
  let ?st = "st\<lparr>src := s, lastep := Some (ep st)\<rparr>"
  have "emitted bs L ?st" "length bs < L" using at room by (auto simp: at_point_def)
  then obtain b where "emit CCEOF ?st = Ok (?st\<lparr>buf := b, ep := length (bs @ [CCEOF])\<rparr>)"
    "emitted (bs @ [CCEOF]) L (?st\<lparr>buf := b, ep := length (bs @ [CCEOF])\<rparr>)" by (rule emit_run)
  then show ?thesis using e s at eof
    by (intro that [of "?st\<lparr>buf := b, ep := length (bs @ [CCEOF])\<rparr>"])
       (simp_all add: at_point_def compile_iter_def mark_plain finish_def eof_ok_def)
qed
end

lemma chr_text_nonempty [simp]: "chr_text eof c \<noteq> []"
  by (simp add: chr_text_def)

lemma patom_text_nonempty [simp]: "patom_text eof a \<noteq> []"
  by (cases a) simp_all

context pattern_source
begin

lemma loop_next:
  assumes "compile_iter n R endbuf eof st = Ok (False, st')"
  shows "compile_loop (Suc n) R endbuf eof st = compile_loop n R endbuf eof st'"
  using assms by simp

lemma atom_point:
  assumes at: "at_point pending L bs k stk cl g (patom_text eof a @ tail) st" and room: "length bs + 34 < endbuf" "endbuf < L"
    and wf: "wf_patom a" "eof_ok eof" and n: "length (patom_text eof a @ tail) < n"
  obtains st' m where "compile_loop n R endbuf eof st = compile_loop m R endbuf eof st'" "length tail < m"
    "at_point pending L (bs @ encode1 (One (patom_atom a))) k stk cl g tail st'" "lastep st' = Some (length bs)"
proof -
  obtain m where m: "n = Suc m" "length (patom_text eof a @ tail) \<le> m" using n by (cases n) auto
  have st: "emitted bs L st" "pending (src st) = patom_text eof a @ tail" "length (pending (src st)) \<le> m"
    using at m by (simp_all add: at_point_def)
  obtain b s where r: "compile_iter m R endbuf eof st = Ok (False, st\<lparr>src := s, buf := b,
        ep := length (bs @ encode1 (One (patom_atom a))), lastep := Some (length bs)\<rparr>)" "pending s = tail"
    "emitted (bs @ encode1 (One (patom_atom a))) L (st\<lparr>src := s, buf := b,
        ep := length (bs @ encode1 (One (patom_atom a))), lastep := Some (length bs)\<rparr>)"
    by (rule atom_iter [OF st(1) room wf st(2,3)])
  have "length tail < m" using m by (cases "patom_text eof a") auto
  with at r show ?thesis
    by (intro that [OF loop_next [OF r(1), folded m(1)]]) (simp_all add: at_point_def del: encode1.simps)
qed

lemma star_point:
  assumes at: "at_point pending L (bs @ op # arg) k stk cl g (42 # tail) st" and room: "length (bs @ op # arg) < endbuf"
    and l: "lastep st = Some (length bs)" and op: "op \<noteq> CBRA" "op \<noteq> CKET" and eof: "eof_ok eof" and n: "length (42 # tail) < n"
  obtains st' m where "compile_loop n R endbuf eof st = compile_loop m R endbuf eof st'" "length tail < m"
    "at_point pending L (bs @ (op OR STAR) # arg) k stk cl g tail st'"
proof -
  obtain m where m: "n = Suc m" "length tail < m" using n by (cases n) auto
  have st: "emitted (bs @ op # arg) L st" "pending (src st) = 42 # tail" using at by (simp_all add: at_point_def)
  obtain b s where r: "compile_iter m R endbuf eof st = Ok (False, st\<lparr>src := s, buf := b\<rparr>)" "pending s = tail"
    "emitted (bs @ (op OR STAR) # arg) L (st\<lparr>src := s, buf := b\<rparr>)"
    by (rule star_iter [OF st(1) room st(2) l op eof])
  with at m show ?thesis by (intro that [OF loop_next [OF r(1), folded m(1)]]) (simp_all add: at_point_def)
qed

lemma rep_point:
  assumes at: "at_point pending L (bs @ op # arg) k stk cl g (rep_text l h @ tail) st"
    and room: "length (bs @ op # arg) + 3 < endbuf" "endbuf < L" and lh: "l \<le> h" "l \<noteq> 255"
    and ls: "lastep st = Some (length bs)" and eof: "eof_ok eof" and n: "length (rep_text l h @ tail) < n"
  obtains st' m where "compile_loop n R endbuf eof st = compile_loop m R endbuf eof st'" "length tail < m"
    "at_point pending L (bs @ (op OR RNGE) # arg @ [l, h]) k stk cl g tail st'"
proof -
  obtain m where m: "n = Suc m" "length (rep_text l h @ tail) \<le> m" using n by (cases n) auto
  have st: "emitted (bs @ op # arg) L st" "pending (src st) = rep_text l h @ tail" "length (pending (src st)) \<le> m"
    using at m by (simp_all add: at_point_def)
  obtain b s where r: "compile_iter m R endbuf eof st =
      Ok (False, st\<lparr>src := s, buf := b, ep := length (bs @ (op OR RNGE) # arg @ [l, h])\<rparr>)" "pending s = tail"
    "emitted (bs @ (op OR RNGE) # arg @ [l, h]) L (st\<lparr>src := s, buf := b, ep := length (bs @ (op OR RNGE) # arg @ [l, h])\<rparr>)"
    by (rule rep_iter [OF st(1) room st(2) lh ls eof st(3)])
  have "length tail < m" using m by (simp add: rep_text_def)
  with at r show ?thesis by (intro that [OF loop_next [OF r(1), folded m(1)]]) (simp_all add: at_point_def)
qed

lemma compile_pats:
  "wf_pats k stk cl ps \<Longrightarrow> at_point pending L bs k stk cl g (pats_text eof ps @ eof # tail) st \<Longrightarrow>
   length (bs @ encode (pats_instrs k stk ps)) + 34 < endbuf \<Longrightarrow> endbuf < L \<Longrightarrow> eof_ok eof \<Longrightarrow>
   length (pats_text eof ps @ eof # tail) < n \<Longrightarrow>
   \<exists>st' k'. compile_loop n R endbuf eof st = Ok st' \<and> emitted (bs @ encode (pats_instrs k stk ps)) L st' \<and>
     glob st' = g\<lparr>nbra := k'\<rparr> \<and> pending (src st') = tail"
proof (induction k stk cl ps arbitrary: bs st n rule: wf_pats.induct)
  case (1 k stk cl)
  then obtain m where m: "n = Suc m" by (cases n) auto
  have at: "at_point pending L bs k [] cl g (eof # tail) st" and room: "length bs + 3 < endbuf"
    using 1 by (simp_all add: pats_text_def encode_def)
  obtain st' where "compile_iter m R endbuf eof st = Ok (True, st')" "at_point pending L (bs @ [CCEOF]) k [] cl g tail st'"
    by (rule finish_iter [OF at room 1(4,5)])
  with m show ?case by (auto simp: encode_def at_point_def)
next
  case (2 k stk cl a ps)
  let ?more = "pats_text eof ps @ eof # tail"
  have at: "at_point pending L bs k stk cl g (patom_text eof a @ ?more) st" and room: "length bs + 34 < endbuf"
      and n: "length (patom_text eof a @ ?more) < n" using 2 by (simp_all add: pats_text_def)
  have wf: "wf_patom a" "wf_pats k stk cl ps" using 2(2) by simp_all
  obtain st' m where r: "compile_loop n R endbuf eof st = compile_loop m R endbuf eof st'" "length ?more < m"
    "at_point pending L (bs @ encode1 (One (patom_atom a))) k stk cl g ?more st'" "lastep st' = Some (length bs)"
    by (rule atom_point [OF at room 2(5) wf(1) 2(6) n])
  show ?case unfolding r(1) using 2(1) [OF wf(2) r(3) _ 2(5,6) r(2)] 2(4) by (simp add: encode_def)
next
  case (3 k stk cl a ps)
  let ?more = "pats_text eof ps @ eof # tail"
  have at: "at_point pending L bs k stk cl g (patom_text eof a @ 42 # ?more) st" and room: "length bs + 34 < endbuf"
      "length (bs @ atom_op (patom_atom a) # atom_arg (patom_atom a)) < endbuf"
      and n: "length (patom_text eof a @ 42 # ?more) < n" using 3 by (simp_all add: pats_text_def encode_def)
  have wf: "wf_patom a" "wf_pats k stk cl ps" using 3(2) by simp_all
  obtain st1 m1 where r1: "compile_loop n R endbuf eof st = compile_loop m1 R endbuf eof st1" "length (42 # ?more) < m1"
    "at_point pending L (bs @ encode1 (One (patom_atom a))) k stk cl g (42 # ?more) st1" "lastep st1 = Some (length bs)"
    by (rule atom_point [OF at room(1) 3(5) wf(1) 3(6) n])
  obtain st2 m2 where r2: "compile_loop m1 R endbuf eof st1 = compile_loop m2 R endbuf eof st2" "length ?more < m2"
    "at_point pending L (bs @ (atom_op (patom_atom a) OR STAR) # atom_arg (patom_atom a)) k stk cl g ?more st2"
    by (rule star_point [OF r1(3) [unfolded encode1.simps] room(2) r1(4) atom_op_star 3(6) r1(2)])
  show ?case unfolding r1(1) r2(1) using 3(1) [OF wf(2) r2(3) _ 3(5,6) r2(2)] 3(4) by (simp add: encode_def)
next
  case (4 k stk cl a l h ps)
  let ?more = "pats_text eof ps @ eof # tail"
  have at: "at_point pending L bs k stk cl g (patom_text eof a @ rep_text l h @ ?more) st" and room: "length bs + 34 < endbuf"
      "length (bs @ atom_op (patom_atom a) # atom_arg (patom_atom a)) + 3 < endbuf"
      and n: "length (patom_text eof a @ rep_text l h @ ?more) < n" using 4 by (simp_all add: pats_text_def encode_def)
  have wf: "wf_patom a" "l \<le> h" "l \<noteq> 255" "wf_pats k stk cl ps" using 4(2) by simp_all
  obtain st1 m1 where r1: "compile_loop n R endbuf eof st = compile_loop m1 R endbuf eof st1" "length (rep_text l h @ ?more) < m1"
    "at_point pending L (bs @ encode1 (One (patom_atom a))) k stk cl g (rep_text l h @ ?more) st1" "lastep st1 = Some (length bs)"
    by (rule atom_point [OF at room(1) 4(5) wf(1) 4(6) n])
  obtain st2 m2 where r2: "compile_loop m1 R endbuf eof st1 = compile_loop m2 R endbuf eof st2" "length ?more < m2"
    "at_point pending L (bs @ (atom_op (patom_atom a) OR RNGE) # atom_arg (patom_atom a) @ [l, h]) k stk cl g ?more st2"
    by (rule rep_point [OF r1(3) [unfolded encode1.simps] room(2) 4(5) wf(2,3) r1(4) 4(6) r1(2)])
  show ?case unfolding r1(1) r2(1) using 4(1) [OF wf(4) r2(3) _ 4(5,6) r2(2)] 4(4) by (simp add: encode_def)
next
  case (5 k stk cl ps)
  then obtain m where m: "n = Suc (Suc m)" by (cases n; cases "n - 1") (auto simp: pats_text_def)
  have at: "at_point pending L bs k stk cl g (36 # eof # tail) st" and room: "length bs + 3 < endbuf" "length (bs @ [CDOL]) + 3 < endbuf"
    and ps: "ps = []" "stk = []"
    using 5 by (simp_all add: pats_text_def encode_def)
  obtain st1 where r1: "compile_iter (Suc m) R endbuf eof st = Ok (False, st1)" "at_point pending L (bs @ [CDOL]) k stk cl g (eof # tail) st1"
    by (rule dollar_iter [OF at room(1) 5(4,5)])
  obtain st' where r2: "compile_iter m R endbuf eof st1 = Ok (True, st')" "at_point pending L ((bs @ [CDOL]) @ [CCEOF]) k [] cl g tail st'"
    by (rule finish_iter [OF r1(2) [unfolded ps] room(2) 5(4,5)])
  show ?case unfolding m loop_next [OF r1(1)] using r2 ps by (auto simp: encode_def at_point_def)
next
  case (6 k stk cl ps)
  let ?more = "pats_text eof ps @ eof # tail"
  obtain m where m: "n = Suc m" "length ?more < m" using 6(7) by (cases n) (auto simp: pats_text_def)
  have at: "at_point pending L bs k stk cl g (92 # 40 # ?more) st" and room: "length bs + 3 < endbuf"
    using 6 by (simp_all add: pats_text_def)
  have wf: "k < NBRA" "wf_pats (Suc k) (of_nat k # stk) cl ps" using 6(2) by simp_all
  obtain st1 where r: "compile_iter m R endbuf eof st = Ok (False, st1)"
    "at_point pending L (bs @ [CBRA, of_nat k]) (Suc k) (of_nat k # stk) cl g ?more st1"
    by (rule open_iter [OF at room 6(5) wf(1) 6(6)])
  show ?case unfolding m(1) loop_next [OF r(1)] using 6(1) [OF wf(2) r(2) _ 6(5,6) m(2)] 6(4) by (simp add: encode_def)
next
  case (7 k stk cl ps)
  let ?more = "pats_text eof ps @ eof # tail"
  obtain m where m: "n = Suc m" "length ?more < m" using 7(7) by (cases n) (auto simp: pats_text_def)
  obtain i ks where stk: "stk = i # ks" using 7(2) by (cases stk) auto
  have at: "at_point pending L bs k (i # ks) cl g (92 # 41 # ?more) st" and room: "length bs + 3 < endbuf"
    using 7 stk by (simp_all add: pats_text_def)
  have wf: "wf_pats k (tl stk) (Suc cl) ps" using 7(2) by simp
  obtain st1 where r: "compile_iter m R endbuf eof st = Ok (False, st1)"
    "at_point pending L (bs @ [CKET, i]) k ks (Suc cl) g ?more st1"
    by (rule close_iter [OF at room 7(5,6)])
  have r2: "at_point pending L (bs @ [CKET, i]) k (tl stk) (Suc cl) g ?more st1" using r(2) stk by simp
  show ?case unfolding m(1) loop_next [OF r(1)] using 7(1) [OF wf r2 _ 7(5,6) m(2)] 7(4) stk by (simp add: encode_def)
next
  case (8 k stk cl i ps)
  let ?more = "pats_text eof ps @ eof # tail"
  obtain m where m: "n = Suc m" "length ?more < m" using 8(7) by (cases n) (auto simp: pats_text_def)
  have at: "at_point pending L bs k stk cl g (92 # (49 + uint i) # ?more) st" and room: "length bs + 3 < endbuf"
    using 8 by (simp_all add: pats_text_def)
  have wf: "unat i < cl" "unat i < NBRA" "wf_pats k stk cl ps" using 8(2) by simp_all
  obtain st1 where r: "compile_iter m R endbuf eof st = Ok (False, st1)"
    "at_point pending L (bs @ [CBACK, i]) k stk cl g ?more st1"
    by (rule ref_iter [OF at room 8(5) wf(1,2) 8(6)])
  show ?case unfolding m(1) loop_next [OF r(1)] using 8(1) [OF wf(3) r(2) _ 8(5,6) m(2)] 8(4) by (simp add: encode_def)
qed
end

lemma patom_head:
  assumes "wf_patom a" "eof_ok eof" "patom_text eof a = c # cs"
  shows "c \<noteq> eof" "c \<noteq> 10" "c \<noteq> 94"
proof -
  have u: "uint (x :: u8) \<in> {10, 94} \<Longrightarrow> x \<in> {10, 94}" for x by (auto simp: word_uint_eq_iff)
  have "c \<noteq> eof \<and> c \<noteq> 10 \<and> c \<noteq> 94"
    using assms u by (cases a) (auto simp: chr_text_def eof_ok_def split: if_splits)
  then show "c \<noteq> eof" "c \<noteq> 10" "c \<noteq> 94" by auto
qed

lemma pats_head:
  assumes "wf_pats k stk cl ps" "ps \<noteq> []" "eof_ok eof"
  obtains c cs where "pats_text eof ps = c # cs" "c \<noteq> eof" "c \<noteq> 10" "c \<noteq> 94"
proof -
  obtain p qs where ps: "ps = p # qs" using assms(2) by (cases ps) auto
  have "\<exists>c cs. pat_text eof p = c # cs \<and> c \<noteq> eof \<and> c \<noteq> 10 \<and> c \<noteq> 94"
  proof (cases p)
    case (POne a)
    then show ?thesis using assms ps patom_head [of a eof] by (cases "patom_text eof a") auto
  next
    case (PMany a)
    then show ?thesis using assms ps patom_head [of a eof] by (cases "patom_text eof a") auto
  next
    case (PRep a l h)
    then show ?thesis using assms ps patom_head [of a eof] by (cases "patom_text eof a") auto
  qed (use assms(3) in \<open>auto simp: eof_ok_def\<close>)
  then show ?thesis using that ps by (auto simp: pats_text_def)
qed

lemma not_0_items: "list_all wf_citem its \<Longrightarrow> 0 \<notin> items_set its"
proof -
  assume wf: "list_all wf_citem its"
  have "0 \<notin> item_set i" if "wf_citem i" for i
    using that by (cases i) (auto simp: plain_def unat_eq_0)
  then show "0 \<notin> items_set its" using wf by (auto simp: items_set_def list_all_iff)
qed

lemma items_ascii: "list_all ascii_item its \<Longrightarrow> n \<in> items_set its \<Longrightarrow> n < 128"
proof -
  assume *: "list_all ascii_item its" "n \<in> items_set its"
  have "n < 128" if "ascii_item i" "n \<in> item_set i" for i
    using that by (cases i) (auto simp: word_less_nat_alt)
  with * show ?thesis by (auto simp: items_set_def list_all_iff)
qed

lemma bit7_iff: "bit (c :: u8) 7 \<longleftrightarrow> 128 \<le> unat c"
proof
  assume "bit c 7"
  then have "bit (unat c) 7" by (simp add: bit_unsigned_iff)
  then have "odd (unat c div 128)" by (simp add: bit_iff_odd)
  then show "128 \<le> unat c" by (cases "unat c < 128") auto
next
  assume "128 \<le> unat c"
  then show "bit c 7" using unat_ascii [of c] by linarith
qed

lemma class_atom_match:
  assumes "list_all wf_citem its"
  shows "atom_match (class_atom neg its) c \<longleftrightarrow>
    (if neg then c \<noteq> 0 \<and> unat c \<notin> items_set its else unat c \<in> items_set its)"
proof -
  have lt: "unat c < 256" by (rule unat_u8_less)
  then have i32: "unat c div 8 < 32" by simp
  have i16: "unat c div 8 < 16" if "\<not> bit c 7" using that by (simp add: bit7_iff)
  have z: "unat c = 0 \<longleftrightarrow> c = 0" by (simp add: unat_eq_0)
  show ?thesis
  proof (cases "bit c 7")
    case True
    then have "unat c \<notin> items_set its" if "list_all ascii_item its" using items_ascii [OF that, of "unat c"] by (auto simp: bit7_iff)
    moreover have "c \<noteq> 0" using True by auto
    ultimately show ?thesis
      using True i32 z lt by (auto simp: class_atom_def Let_def in_map_bmap)
  next
    case False
    then show ?thesis using i16 i32 z lt by (auto simp: class_atom_def Let_def in_map_bmap)
  qed
qed

lemma class_atom_wf:
  assumes "list_all wf_citem its" shows "wf_atom (class_atom neg its)"
  using not_0_items [OF assms] by (auto simp: class_atom_def Let_def in_map_bmap)

lemma patom_wf: "wf_patom a \<Longrightarrow> wf_atom (patom_atom a)"
  by (cases a) (auto simp: wf_items_def class_atom_wf)

lemma pats_wf_prog:
  "wf_pats k stk cl ps \<Longrightarrow> refs_closed k stk ps \<Longrightarrow> k \<le> NBRA \<Longrightarrow> distinct stk \<Longrightarrow>
   B = of_nat ` {..<k} \<Longrightarrow> set stk \<union> K = B \<Longrightarrow> set stk \<inter> K = {} \<Longrightarrow> wf_prog B K (pats_instrs k stk ps)"
proof (induction k stk cl ps arbitrary: B K rule: wf_pats.induct)
  case (6 k stk cl ps)
  have lt: "i < 256" if "i \<le> k" for i using that 6(2,4) by (simp add: NBRA_def)
  have u: "unat (of_nat k :: u8) = k" using lt [of k] by (intro of_nat_inverse [OF refl]) simp
  have new: "(of_nat k :: u8) \<notin> B"
  proof
    assume "(of_nat k :: u8) \<in> B"
    then obtain i where i: "i < k" "(of_nat k :: u8) = of_nat i" using 6(6) by auto
    have "unat (of_nat i :: u8) = i" using i lt [of i] by (intro of_nat_inverse [OF refl]) simp
    with u i show False by simp
  qed
  have "insert (of_nat k) B = of_nat ` {..<Suc k}" using 6(6) by (auto simp: lessThan_Suc)
  moreover have "set (of_nat k # stk) \<union> K = insert (of_nat k) B" "set (of_nat k # stk) \<inter> K = {}" "distinct (of_nat k # stk)"
    using 6(5-8) new by auto
  ultimately have "wf_prog (insert (of_nat k) B) K (pats_instrs (Suc k) (of_nat k # stk) ps)"
    using 6(2-4) by (intro 6(1)) auto
  moreover have "(of_nat k :: u8) \<notin> K" using new 6(7) by auto
  ultimately show ?case using new u 6(2) by simp
next
  case (7 k stk cl ps)
  then obtain i ks where stk: "stk = i # ks" by (cases stk) auto
  have "wf_prog B (insert i K) (pats_instrs k ks ps)"
    using 7 stk by (intro 7(1) [simplified stk list.sel]) auto
  then show ?case using 7 stk by auto
next
  case (8 k stk cl i ps)
  then have "i \<in> B" by (auto intro!: image_eqI [of _ _ "unat i"])
  with 8 show ?case by auto
qed (auto simp: patom_wf)

context pattern_source
begin

lemma compile_text:
  assumes p: "pending instring = (if anch then [94] else []) @ pats_text eof ps @ eof # tail"
    and wf: "wf_pats 0 [] 0 ps" "anch \<or> ps \<noteq> []" "eof_ok eof"
    and n: "length (pending instring) < n"
    and room: "length (encode (pats_instrs 0 [] ps)) + 34 < endbuf" "endbuf < length b"
  shows "\<exists>st k. compile n R instring b 0 endbuf eof g = Ok st \<and>
     emitted (encode (pats_instrs 0 [] ps)) (length b) st \<and> glob st = g\<lparr>circf := anch, nbra := k\<rparr> \<and> pending (src st) = tail"
proof -
  let ?st = "\<lambda>s. \<lparr>src = s, buf = b, ep = 0, lastep = None, bracket = [], closed = 0, glob = g\<lparr>circf := anch, nbra := 0\<rparr>\<rparr>"
  have loop: "\<exists>st k. compile_loop n R endbuf eof (?st s) = Ok st \<and> emitted (encode (pats_instrs 0 [] ps)) (length b) st \<and>
      glob st = g\<lparr>circf := anch, nbra := k\<rparr> \<and> pending (src st) = tail"
    if "pending s = pats_text eof ps @ eof # tail" for s
  proof -
    have "at_point pending (length b) [] 0 [] 0 (g\<lparr>circf := anch\<rparr>) (pats_text eof ps @ eof # tail) (?st s)"
      using that by (simp add: at_point_def emitted_def)
    from compile_pats [OF wf(1) this _ room(2) wf(3), of n] room(1) n p show ?thesis by (auto split: if_splits)
  qed
  show ?thesis
  proof (cases anch)
    case True
    then obtain s where g: "GETC R instring = Some (94, s)" "pending s = pats_text eof ps @ eof # tail"
      using getc_Cons [of instring 94] p by auto
    have "compile n R instring b 0 endbuf eof g = compile_loop n R endbuf eof (?st s)"
      using g True wf(3) by (simp add: compile_def getc_def eof_ok_def)
    with loop [OF g(2)] show ?thesis by simp
  next
    case False
    then obtain c cs where c: "pats_text eof ps = c # cs" "c \<noteq> eof" "c \<noteq> 10" "c \<noteq> 94"
      using pats_head [OF wf(1) _ wf(3)] wf(2) by metis
    then obtain s where g: "GETC R instring = Some (c, s)" using getc_Cons [of instring c] p False by auto
    have "pending (UNGETC R c s) = pats_text eof ps @ eof # tail" using ungetc_law [OF g] p False by simp
    moreover have "compile n R instring b 0 endbuf eof g = compile_loop n R endbuf eof (?st (UNGETC R c s))"
      using g False c by (simp add: compile_def getc_def ungetc_def)
    ultimately show ?thesis using loop by simp
  qed
qed

end

lemma length_pats_instrs: "length (pats_instrs k stk ps) = length ps"
  by (induction k stk ps rule: pats_instrs.induct) simp_all

section \<open>Properties\<close>

text \<open>C3: Compiling the text of a well-formed pattern succeeds and leaves exactly the encoding of the
  pattern's program in the buffer, with \<open>circf\<close> set precisely when the text starts with a circumflex, and
  with the text after the delimiter unread. This covers escapes, bracket expressions with ranges, negation and
  eight-bit characters, repetition counts, groups and back-references.\<close>

theorem compile_encodes:
  assumes "pattern_source R pending"
    and "pending instring = (if anch then [94] else []) @ pats_text eof ps @ eof # tail"
    and "wf_pats 0 [] 0 ps" "anch \<or> ps \<noteq> []" "eof_ok eof" "length (pending instring) < n"
    and "length (encode (pats_instrs 0 [] ps)) + 34 < endbuf" "endbuf < length b"
  shows "\<exists>st r. compile n R instring b 0 endbuf eof g = Ok st \<and> buf st = encode (pats_instrs 0 [] ps) @ r \<and>
    ep st = length (encode (pats_instrs 0 [] ps)) \<and> circf (glob st) = anch \<and> pending (src st) = tail"
  using pattern_source.compile_text [OF assms, of g] by (auto simp: emitted_def)

theorem compile_encodes_witness:
  "\<exists>st r. compile 20 text_reader ([97, 42, 92, 40, 46, 92, 41, 47], 0) (replicate 60 0) 0 50 47 rx_init = Ok st \<and>
     buf st = [CCHR OR STAR, 97, CBRA, 0, CDOT, CKET, 0, CCEOF] @ r \<and> ep st = 8"
proof -
  let ?ps = "[PMany (PChr 97), POpen, POne PAny, PClose]"
  have t: "pats_text 47 ?ps = [97, 42, 92, 40, 46, 92, 41]" and e: "eof_ok 47" and w: "wf_pats 0 [] 0 ?ps"
    and i: "encode (pats_instrs 0 [] ?ps) = [CCHR OR STAR, 97, CBRA, 0, CDOT, CKET, 0, CCEOF]"
    by (simp_all add: pats_text_def chr_text_def eof_ok_def NBRA_def encode_def)
  show ?thesis
    using compile_encodes [OF text_source.pattern_source_axioms, of "([97, 42, 92, 40, 46, 92, 41, 47], 0)" False 47 ?ps "[]" 20 50
        "replicate 60 0" rx_init] e w unfolding t i by (auto simp: text_pending_def)
qed

text \<open>C1: Compiling a pattern and searching a subject with the result finds the leftmost match of the
  pattern, and reports failure only when no position matches.\<close>

theorem compile_then_step:
  assumes "pattern_source R pending" and "pending instring = pats_text eof ps @ eof # tail"
    and "wf_pats 0 [] 0 ps" "refs_closed 0 [] ps" "ps \<noteq> []" "eof_ok eof" "length (pending instring) < n"
    and "length (encode (pats_instrs 0 [] ps)) + 34 < endbuf" "endbuf < length b"
    and "fresh g" "subject_in s m" "length ps < n'"
  shows "\<exists>st g'. compile n R instring b 0 endbuf eof g = Ok st \<and>
    step n' m (buf st) 0 0 (glob st) = Ok (leftmost s (pats_instrs 0 [] ps) 0 \<noteq> None, g') \<and>
    (case leftmost s (pats_instrs 0 [] ps) 0 of
       None \<Rightarrow> \<forall>i S E j. i \<le> length s \<longrightarrow> \<not> matches s (pats_instrs 0 [] ps) no_groups no_groups i S E j
     | Some (i, S, E, j) \<Rightarrow> recorded (pats_instrs 0 [] ps) S E i j g' \<and>
         matches s (pats_instrs 0 [] ps) no_groups no_groups i S E j \<and>
         (\<forall>k S' E' j'. k < i \<longrightarrow> \<not> matches s (pats_instrs 0 [] ps) no_groups no_groups k S' E' j'))"
proof -
  let ?is = "pats_instrs 0 [] ps"
  have p: "pending instring = (if False then [94] else []) @ pats_text eof ps @ eof # tail" using assms(2) by simp
  have "False \<or> ps \<noteq> []" using assms(5) by simp
  from pattern_source.compile_text [OF assms(1) p assms(3) this assms(6-9), of g]
  obtain st k r where st: "compile n R instring b 0 endbuf eof g = Ok st" "buf st = encode ?is @ r"
      "glob st = g\<lparr>circf := False, nbra := k\<rparr>" by (auto simp: emitted_def)
  have "wf_prog {} {} ?is" using assms(3,4) by (intro pats_wf_prog) auto
  moreover have "fresh (glob st)" "\<not> circf (glob st)" using assms(10) st(3) by (simp_all add: fresh_def)
  ultimately obtain g' where "step n' m (encode ?is @ r) 0 0 (glob st) = Ok (leftmost s ?is 0 \<noteq> None, g')"
    "case leftmost s ?is 0 of
       None \<Rightarrow> loc2 g' = loc2 (glob st) \<and> (\<forall>i S E j. i \<le> length s \<longrightarrow> \<not> matches s ?is no_groups no_groups i S E j)
     | Some (i, S, E, j) \<Rightarrow> recorded ?is S E i j g' \<and> i \<le> j \<and> j \<le> length s \<and>
         matches s ?is no_groups no_groups i S E j \<and>
         (\<forall>k S' E' j'. k < i \<longrightarrow> \<not> matches s ?is no_groups no_groups k S' E' j')"
    using step_search [OF assms(11), of ?is n' "glob st" r] assms(12) by (auto simp: length_pats_instrs)
  then show ?thesis
    by (intro exI [of _ st] exI [of _ g'] conjI st(1)) (auto simp: st(2) split: option.splits)
qed

theorem compile_then_step_witness:
  "\<exists>st g'. compile 20 text_reader ([91, 97, 45, 99, 93, 42, 100, 47], 0) (replicate 90 0) 0 80 47 rx_init = Ok st \<and>
     step 9 [120, 98, 97, 100, 0] (buf st) 0 0 (glob st) = Ok (True, g') \<and> loc1 g' = Some 1 \<and> loc2 g' = Some 4"
proof -
  let ?ps = "[PMany (PSet False [CRange 97 99]), POne (PChr 100)]" and ?s = "[120, 98, 97, 100] :: u8 list"
  have t: "pats_text 47 ?ps = [91, 97, 45, 99, 93, 42, 100]" and e: "eof_ok 47" and w: "wf_pats 0 [] 0 ?ps" "refs_closed 0 [] ?ps"
    and f: "fresh rx_init" and s: "subject_in ?s [120, 98, 97, 100, 0]" and l: "length (encode (pats_instrs 0 [] ?ps)) = 20"
    by (simp_all add: pats_text_def chr_text_def eof_ok_def items_text_def wf_items_def plain_def fresh_def rx_init_def
        subject_in_def class_atom_def encode_def Let_def)
  have m: "atom_match (class_atom False [CRange 97 99]) c \<longleftrightarrow> 97 \<le> unat c \<and> unat c \<le> 99" for c
    by (subst class_atom_match) (simp_all add: plain_def items_set_def)
  have lm: "leftmost ?s (pats_instrs 0 [] ?ps) 0 = Some (1, no_groups, no_groups, 4)"
    by (simp add: leftmost_def upt_rec downto_def m)
  show ?thesis
    using compile_then_step [OF text_source.pattern_source_axioms, of "([91, 97, 45, 99, 93, 42, 100, 47], 0)" 47 ?ps "[]" 20 80
        "replicate 90 0" rx_init ?s "[120, 98, 97, 100, 0]" 9] e w f s unfolding t l lm by (auto simp: text_pending_def recorded_def)
qed

section \<open>Departures from the documentation\<close>

text \<open>
  The emission of a two-byte operator after the test \<open>ep >= endbuf\<close> stores one byte past a buffer that
  ends at \<open>endbuf\<close>.
\<close>

lemma compile_overruns_endbuf:
  "compile 10 text_reader ([97, 98, 47], 0) (replicate 3 0) 0 3 47 rx_init = Fault"
  by code_simp

text \<open>
  A backslash, or an open range in a bracket expression, before the terminating NUL is not an error: the
  text after the terminator is read.
\<close>

lemma compile_reads_past_nul:
  "compile 10 text_reader ([92, 0], 0) (replicate 40 0) 0 39 0 rx_init = Overread"
  "compile 10 text_reader ([91, 97, 45, 0], 0) (replicate 60 0) 0 59 0 rx_init = Overread"
  by code_simp+

text \<open>
  A back-reference is compared with the number of closed groups, so \<open>\(\(a\)\1\)\<close> is accepted
  although group 1 is still open; matching it then uses an unset end pointer.
\<close>

lemma open_group_reference:
  "map_run (\<lambda>st. step 20 [97, 97, 0] (buf st) 0 0 (glob st))
     (compile 20 text_reader ([92, 40, 92, 40, 97, 92, 41, 92, 49, 92, 41, 0], 0) (replicate 20 0) 0 19 0 rx_init) =
   Ok Fault"
  by code_simp

text \<open>
  A repetition count after a group is accepted but turns the \<open>CKET\<close> opcode into one \<open>advance\<close> does
  not know: the pattern for two repetitions of a group matches a single one.
\<close>

lemma group_repetition_misread:
  "map_run (\<lambda>st. map_run (\<lambda>(m, g). (m, loc1 g, loc2 g)) (step 20 [97, 98, 0] (buf st) 0 0 (glob st)))
     (compile 20 text_reader ([92, 40, 97, 92, 41, 92, 123, 50, 92, 125, 0], 0) (replicate 20 0) 0 19 0 rx_init) =
   Ok (Ok (True, Some 0, Some 1))"
  by code_simp

text \<open>
  The pattern \<open>\(a*\)\1*\<close>, its compiled form, and what \<open>advance\<close> does with it on a subject that does not start
  with \<open>a\<close>: the group matches the empty string.
\<close>

definition empty_group_prog :: "u8 list" where
  "empty_group_prog = [CBRA, 0, CCHR OR STAR, 97, CKET, 0, CBACK OR STAR, 0, CCEOF] @ replicate 21 0"

lemma compile_empty_group:
  "map_run (\<lambda>st. (buf st, glob st)) (compile 20 text_reader ([92, 40, 97, 42, 92, 41, 92, 49, 42, 0], 0) (replicate 30 0) 0 29 0 rx_init) =
     Ok (empty_group_prog, rx_init\<lparr>nbra := 1\<rparr>)"
  by code_simp

lemma empty_group_rd:
  "rd empty_group_prog 0 = Ok CBRA" "rd empty_group_prog 1 = Ok 0" "rd empty_group_prog 2 = Ok (CCHR OR STAR)"
  "rd empty_group_prog 3 = Ok 97" "rd empty_group_prog 4 = Ok CKET" "rd empty_group_prog 5 = Ok 0"
  "rd empty_group_prog 6 = Ok (CBACK OR STAR)" "rd empty_group_prog 7 = Ok 0"
  by (simp_all add: empty_group_prog_def rd_def nth_append)

lemma advance_empty_group_end:
  assumes "rd (braslist g) 0 = Ok (Some lp)" "0 < length (braelist g)"
  shows "advance n s empty_group_prog lp 4 g = OutOfFuel"
proof (cases n)
  case (Suc k)
  have "rd ((braelist g)[0 := Some lp]) 0 = Ok (Some lp)" using assms(2) by (simp add: rd_def)
  then have "advance k s empty_group_prog lp 6 (g\<lparr>braelist := (braelist g)[0 := Some lp]\<rparr>) = OutOfFuel"
    using assms by (intro advance_back_star [where i = 0 and p = lp]) (simp_all add: empty_group_rd)
  then show ?thesis
    using assms(2) by (simp add: Suc empty_group_rd opcodes bra_set_def mem_put_def)
qed simp

lemma advance_empty_group:
  assumes "rd s lp = Ok x" "x \<noteq> 97" "0 < length (braslist g)" "0 < length (braelist g)" "locs g = None"
  shows "advance n s empty_group_prog lp 0 g = OutOfFuel"
proof -
  let ?g = "g\<lparr>braslist := (braslist g)[0 := Some lp]\<rparr>"
  have ket: "advance k s empty_group_prog lp 4 ?g = OutOfFuel" for k
    using assms(3,4) by (intro advance_empty_group_end) (simp_all add: rd_def)
  have "drop lp s = x # drop (lp + 1) s"
    using assms(1) by (auto simp: rd_def mem_get_def Cons_nth_drop_Suc split: if_splits)
  then have star: "advance k s empty_group_prog lp 2 ?g = OutOfFuel" for k
    using assms(2,5) ket by (cases k) (simp_all add: empty_group_rd opcodes)
  show ?thesis
    using assms(3) star [unfolded numeral_2_eq_2]
    by (cases n) (simp_all add: empty_group_rd [unfolded One_nat_def] opcodes bra_set_def mem_put_def)
qed

text \<open>C7: A starred back-reference to a group that matched the empty string never ends: wherever \<open>advance\<close> meets the opcode
  \<open>CBACK | STAR\<close> with the number of a group whose recorded start and end are the same, it runs out of every amount of fuel.
  Compiled programs get there: \<open>\(a*\)\1*\<close> is accepted, and \<open>step\<close> with its program ends on no subject that starts with
  another character than \<open>a\<close>.\<close>

theorem back_star_diverges:
  assumes "rd prog q = Ok (CBACK OR STAR)" "rd prog (q + 1) = Ok i"
    and "rd (braslist g) (unat i) = Ok (Some p)" "rd (braelist g) (unat i) = Ok (Some p)"
  shows "advance n m prog lp q g = OutOfFuel \<and>
    (\<exists>st. compile 20 text_reader ([92, 40, 97, 42, 92, 41, 92, 49, 42, 0], 0) (replicate 30 0) 0 29 0 rx_init = Ok st \<and>
      (\<forall>k x s. x \<noteq> 97 \<longrightarrow> step k (x # s) (buf st) 0 0 (glob st) = OutOfFuel))"
proof
  show "advance n m prog lp q g = OutOfFuel" using assms by (rule advance_back_star)
  obtain st where st: "compile 20 text_reader ([92, 40, 97, 42, 92, 41, 92, 49, 42, 0], 0) (replicate 30 0) 0 29 0 rx_init = Ok st"
    "buf st = empty_group_prog" "glob st = rx_init\<lparr>nbra := 1\<rparr>"
    using compile_empty_group
    by (cases "compile 20 text_reader ([92, 40, 97, 42, 92, 41, 92, 49, 42, 0], 0) (replicate 30 0) 0 29 0 rx_init") auto
  have "advance k (x # s) empty_group_prog 0 0 (rx_init\<lparr>nbra := 1\<rparr>) = OutOfFuel" if "x \<noteq> 97" for k x s
    using that by (intro advance_empty_group) (simp_all add: rd_def rx_init_def NBRA_def)
  then have "step k (x # s) (buf st) 0 0 (glob st) = OutOfFuel" if "x \<noteq> 97" for k x s
    using that by (simp add: st step_def rx_init_def empty_group_rd opcodes)
  with st(1) show "\<exists>st. compile 20 text_reader ([92, 40, 97, 42, 92, 41, 92, 49, 42, 0], 0) (replicate 30 0) 0 29 0 rx_init = Ok st \<and>
      (\<forall>k x s. x \<noteq> 97 \<longrightarrow> step k (x # s) (buf st) 0 0 (glob st) = OutOfFuel)" by blast
qed

theorem back_star_diverges_witness:
  "advance 1000 [0] [CDOT, CBACK OR STAR, 1, CCEOF] 0 1 (rx_init\<lparr>braslist := [None, Some 0], braelist := [None, Some 0]\<rparr>) = OutOfFuel \<and>
   (\<exists>st. compile 20 text_reader ([92, 40, 97, 42, 92, 41, 92, 49, 42, 0], 0) (replicate 30 0) 0 29 0 rx_init = Ok st \<and>
     step 1000 [98, 0] (buf st) 0 0 (glob st) = OutOfFuel)"
proof -
  let ?g = "rx_init\<lparr>braslist := [None, Some 0], braelist := [None, Some 0]\<rparr>"
  have "rd [CDOT, CBACK OR STAR, 1, CCEOF] 1 = Ok (CBACK OR STAR)" "rd [CDOT, CBACK OR STAR, 1, CCEOF] (1 + 1) = Ok 1"
    "rd (braslist ?g) (unat (1 :: u8)) = Ok (Some 0)" "rd (braelist ?g) (unat (1 :: u8)) = Ok (Some 0)"
    by (simp_all add: rd_def)
  from back_star_diverges [OF this, of 1000 "[0]" 0] obtain st where
    "advance 1000 [0] [CDOT, CBACK OR STAR, 1, CCEOF] 0 1 ?g = OutOfFuel"
    "compile 20 text_reader ([92, 40, 97, 42, 92, 41, 92, 49, 42, 0], 0) (replicate 30 0) 0 29 0 rx_init = Ok st"
    "\<forall>k x s. x \<noteq> 97 \<longrightarrow> step k (x # s) (buf st) 0 0 (glob st) = OutOfFuel" by blast
  moreover from this(3) have "step 1000 [98, 0] (buf st) 0 0 (glob st) = OutOfFuel" by simp
  ultimately show ?thesis by blast
qed

end
