(* ===== verification/Sysmacros.thy ===== *)
theory Sysmacros
  imports SysvPrelude
begin

unbundle bit_operations_syntax

text \<open>
  The arithmetic macros of \<^verbatim>\<open>sys/sysmacros.h\<close>, the unit conversions of
  \<^verbatim>\<open>sys/param.h\<close> and the byte order macros of \<^verbatim>\<open>sys/byteorder.h\<close>. A macro takes the type
  of its operands, so each definition is over words of every width
  (\<open>'a::len word\<close>, unsigned operands) where the C macro is generic, and over the
  fixed type where it casts. Shifts by a count fixed in the header are
  \<^const>\<open>push_bit\<close> and \<^const>\<open>drop_bit\<close>; all arithmetic wraps.
\<close>

section \<open>Unit conversion\<close>

definition DEV_BSIZE :: nat where "DEV_BSIZE = 512"

definition DEV_BSHIFT :: nat where "DEV_BSHIFT = 9"

definition dtob :: "u32 \<Rightarrow> u32" where "dtob DD = push_bit DEV_BSHIFT DD"

definition btod :: "u32 \<Rightarrow> u32" where
  "btod BB = drop_bit DEV_BSHIFT (BB + of_nat DEV_BSIZE - 1)"

definition btodt :: "u32 \<Rightarrow> u32" where "btodt BB = drop_bit DEV_BSHIFT BB"

definition lbtod :: "u32 \<Rightarrow> u64" where
  "lbtod BB = drop_bit DEV_BSHIFT (ucast BB + of_nat DEV_BSIZE - 1)"

definition btodb :: "u32 \<Rightarrow> u32" where "btodb bytes = drop_bit DEV_BSHIFT bytes"

definition dbtob :: "u32 \<Rightarrow> u32" where "dbtob db = push_bit DEV_BSHIFT db"

definition lbtodb :: "u64 \<Rightarrow> u64" where "lbtodb bytes = drop_bit DEV_BSHIFT bytes"

definition ldbtob :: "u64 \<Rightarrow> u64" where "ldbtob db = push_bit DEV_BSHIFT db"

text \<open>
  The page macros. The page shift is a variable of the running kernel
  (\<^verbatim>\<open>_pageshift\<close>), here the argument \<open>ps\<close>; the page size and offset are derived
  from it as the kernel does.
\<close>

definition ptob :: "nat \<Rightarrow> u32 \<Rightarrow> u32" where "ptob ps x = push_bit ps x"

definition btop :: "nat \<Rightarrow> u32 \<Rightarrow> u32" where "btop ps x = drop_bit ps x"

definition btopr :: "nat \<Rightarrow> u32 \<Rightarrow> u32" where
  "btopr ps x = drop_bit ps (x + (push_bit ps 1 - 1))"

definition ptod :: "nat \<Rightarrow> u32 \<Rightarrow> u32" where "ptod ps x = push_bit (ps - DEV_BSHIFT) x"

definition dtop :: "nat \<Rightarrow> u32 \<Rightarrow> u32" where
  "dtop ps DD = drop_bit (ps - DEV_BSHIFT) (DD + of_nat (2 ^ ps div DEV_BSIZE) - 1)"

definition dtopt :: "nat \<Rightarrow> u32 \<Rightarrow> u32" where "dtopt ps DD = drop_bit (ps - DEV_BSHIFT) DD"

definition MIN_macro :: "'a::linorder \<Rightarrow> 'a \<Rightarrow> 'a" where "MIN_macro a b = (if a < b then a else b)"

definition MAX_macro :: "'a::linorder \<Rightarrow> 'a \<Rightarrow> 'a" where "MAX_macro a b = (if a < b then b else a)"

definition ABS :: "u32 \<Rightarrow> u32" where "ABS a = (if a <s 0 then - a else a)"

section \<open>Device numbers\<close>

definition O_BITSMINOR :: nat where "O_BITSMINOR = 8"

definition O_MAXMAJ :: "'a::len word" where "O_MAXMAJ = 0x7f"

definition O_MAXMIN :: "'a::len word" where "O_MAXMIN = 0xff"

definition L_BITSMINOR32 :: nat where "L_BITSMINOR32 = 18"

definition L_MAXMAJ32 :: "'a::len word" where "L_MAXMAJ32 = 0x3fff"

definition L_MAXMIN32 :: "'a::len word" where "L_MAXMIN32 = 0x3ffff"

definition L_BITSMINOR64 :: nat where "L_BITSMINOR64 = 32"

definition L_MAXMAJ64 :: u64 where "L_MAXMAJ64 = 0xffffffff"

definition L_MAXMIN64 :: u64 where "L_MAXMIN64 = 0xffffffff"

definition NODEV :: "'a::len word" where "NODEV = - 1"

definition major :: "u32 \<Rightarrow> u32" where "major x = drop_bit O_BITSMINOR x AND O_MAXMAJ"

definition minor :: "u32 \<Rightarrow> u32" where "minor x = x AND O_MAXMIN"

definition getmajor :: "u32 \<Rightarrow> u32" where "getmajor x = drop_bit L_BITSMINOR32 x AND L_MAXMAJ32"

definition getminor :: "u32 \<Rightarrow> u32" where "getminor x = x AND L_MAXMIN32"

definition makedev :: "u32 \<Rightarrow> u32 \<Rightarrow> u16" where
  "makedev x y = ucast (push_bit O_BITSMINOR x OR (y AND O_MAXMIN))"

definition makedevice :: "u32 \<Rightarrow> u32 \<Rightarrow> u32" where
  "makedevice x y = push_bit L_BITSMINOR32 x OR (y AND L_MAXMIN32)"

definition emajor :: "u32 \<Rightarrow> u32" where
  "emajor x = (if O_MAXMAJ < drop_bit O_BITSMINOR x then NODEV
     else drop_bit O_BITSMINOR x AND O_MAXMAJ)"

definition eminor :: "u32 \<Rightarrow> u32" where "eminor x = x AND O_MAXMIN"

definition getemajor :: "u32 \<Rightarrow> u32" where
  "getemajor x = (if L_MAXMAJ32 < drop_bit L_BITSMINOR32 x then NODEV
     else drop_bit L_BITSMINOR32 x AND L_MAXMAJ32)"

definition geteminor :: "u32 \<Rightarrow> u32" where "geteminor x = x AND L_MAXMIN32"

text \<open>The 64-bit kernel's forms: \<^verbatim>\<open>dev_t\<close> has 32 major and 32 minor bits.\<close>

definition makedevice64 :: "u64 \<Rightarrow> u64 \<Rightarrow> u64" where
  "makedevice64 x y = push_bit L_BITSMINOR64 x OR (y AND L_MAXMIN64)"

definition DEVCMPL :: "u64 \<Rightarrow> u32" where
  "DEVCMPL x = (if L_MAXMAJ32 < drop_bit L_BITSMINOR64 x \<or> L_MAXMIN32 < x AND L_MAXMIN64 then NODEV
     else ucast (push_bit L_BITSMINOR32 (drop_bit L_BITSMINOR64 x) OR (x AND L_MAXMIN32)))"

definition DEVEXPL :: "u32 \<Rightarrow> u64" where
  "DEVEXPL x = (if x = NODEV then NODEV
     else makedevice64 (ucast (drop_bit L_BITSMINOR32 x AND L_MAXMAJ32)) (ucast (x AND L_MAXMIN32)))"

definition cmpdev :: "u32 \<Rightarrow> u16" where
  "cmpdev x = (if O_MAXMAJ < drop_bit L_BITSMINOR32 x \<or> O_MAXMIN < x AND L_MAXMIN32 then NODEV
     else ucast (push_bit O_BITSMINOR (drop_bit L_BITSMINOR32 x) OR (x AND O_MAXMIN)))"

definition expdev :: "u16 \<Rightarrow> u32" where
  "expdev x = push_bit L_BITSMINOR32 (drop_bit O_BITSMINOR (scast x) AND O_MAXMAJ) OR (scast x AND O_MAXMIN)"

section \<open>Counting, rounding and alignment\<close>

definition IS_P2ALIGNED :: "u32 \<Rightarrow> u32 \<Rightarrow> bool" where
  "IS_P2ALIGNED v a \<longleftrightarrow> v AND (a - 1) = 0"

definition howmany :: "'a::len word \<Rightarrow> 'a word \<Rightarrow> 'a word" where
  "howmany x y = (x + (y - 1)) div y"

definition roundup :: "'a::len word \<Rightarrow> 'a word \<Rightarrow> 'a word" where
  "roundup x y = (x + (y - 1)) div y * y"

definition ISP2 :: "'a::len word \<Rightarrow> bool" where "ISP2 x \<longleftrightarrow> x AND (x - 1) = 0"

definition P2ALIGN :: "'a::len word \<Rightarrow> 'a word \<Rightarrow> 'a word" where
  "P2ALIGN x align = x AND - align"

definition P2PHASE :: "'a::len word \<Rightarrow> 'a word \<Rightarrow> 'a word" where
  "P2PHASE x align = x AND (align - 1)"

definition P2NPHASE :: "'a::len word \<Rightarrow> 'a word \<Rightarrow> 'a word" where
  "P2NPHASE x align = - x AND (align - 1)"

definition P2ROUNDUP :: "'a::len word \<Rightarrow> 'a word \<Rightarrow> 'a word" where
  "P2ROUNDUP x align = - (- x AND - align)"

definition P2END :: "'a::len word \<Rightarrow> 'a word \<Rightarrow> 'a word" where
  "P2END x align = - (NOT x AND - align)"

definition P2PHASEUP :: "'a::len word \<Rightarrow> 'a word \<Rightarrow> 'a word \<Rightarrow> 'a word" where
  "P2PHASEUP x align phase = phase - ((phase - x) AND - align)"

definition P2CROSS :: "'a::len word \<Rightarrow> 'a word \<Rightarrow> 'a word \<Rightarrow> bool" where
  "P2CROSS x y align \<longleftrightarrow> align - 1 < x XOR y"

definition P2SAMEHIGHBIT :: "'a::len word \<Rightarrow> 'a word \<Rightarrow> bool" where
  "P2SAMEHIGHBIT x y \<longleftrightarrow> x XOR y < x AND y"

text \<open>The typed forms convert every operand to the result type first.\<close>

definition P2ALIGN_TYPED :: "'b::len word \<Rightarrow> 'c::len word \<Rightarrow> 'a::len word" where
  "P2ALIGN_TYPED x align = ucast x AND - ucast align"

definition P2PHASE_TYPED :: "'b::len word \<Rightarrow> 'c::len word \<Rightarrow> 'a::len word" where
  "P2PHASE_TYPED x align = ucast x AND (ucast align - 1)"

definition P2NPHASE_TYPED :: "'b::len word \<Rightarrow> 'c::len word \<Rightarrow> 'a::len word" where
  "P2NPHASE_TYPED x align = - ucast x AND (ucast align - 1)"

definition P2ROUNDUP_TYPED :: "'b::len word \<Rightarrow> 'c::len word \<Rightarrow> 'a::len word" where
  "P2ROUNDUP_TYPED x align = - (- ucast x AND - ucast align)"

definition P2END_TYPED :: "'b::len word \<Rightarrow> 'c::len word \<Rightarrow> 'a::len word" where
  "P2END_TYPED x align = - (NOT (ucast x) AND - ucast align)"

definition P2PHASEUP_TYPED :: "'b::len word \<Rightarrow> 'c::len word \<Rightarrow> 'd::len word \<Rightarrow> 'a::len word" where
  "P2PHASEUP_TYPED x align phase = ucast phase - ((ucast phase - ucast x) AND - ucast align)"

section \<open>Byte order\<close>

definition BSWAP_8 :: "'a::len word \<Rightarrow> 'a word" where "BSWAP_8 x = x AND 0xff"

definition BSWAP_16 :: "'a::len word \<Rightarrow> 'a word" where
  "BSWAP_16 x = push_bit 8 (BSWAP_8 x) OR BSWAP_8 (drop_bit 8 x)"

definition BSWAP_32 :: "'a::len word \<Rightarrow> 'a word" where
  "BSWAP_32 x = push_bit 16 (BSWAP_16 x) OR BSWAP_16 (drop_bit 16 x)"

definition BSWAP_64 :: "'a::len word \<Rightarrow> 'a word" where
  "BSWAP_64 x = push_bit 32 (BSWAP_32 x) OR BSWAP_32 (drop_bit 32 x)"

definition BMASK_8 :: "'a::len word \<Rightarrow> 'a word" where "BMASK_8 x = x AND 0xff"

definition BMASK_16 :: "'a::len word \<Rightarrow> 'a word" where "BMASK_16 x = x AND 0xffff"

definition BMASK_32 :: "'a::len word \<Rightarrow> 'a word" where "BMASK_32 x = x AND 0xffffffff"

definition BMASK_64 :: "'a::len word \<Rightarrow> 'a word" where "BMASK_64 x = x"

text \<open>The conversions of a little-endian target.\<close>

definition LE_16 :: "'a::len word \<Rightarrow> 'a word" where "LE_16 x = BMASK_16 x"

definition LE_32 :: "'a::len word \<Rightarrow> 'a word" where "LE_32 x = BMASK_32 x"

definition LE_64 :: "'a::len word \<Rightarrow> 'a word" where "LE_64 x = BMASK_64 x"

definition BE_16 :: "'a::len word \<Rightarrow> 'a word" where "BE_16 x = BSWAP_16 x"

definition BE_32 :: "'a::len word \<Rightarrow> 'a word" where "BE_32 x = BSWAP_32 x"

definition BE_64 :: "'a::len word \<Rightarrow> 'a word" where "BE_64 x = BSWAP_64 x"

definition ntohs :: "u16 \<Rightarrow> u16" where "ntohs x = BSWAP_16 x"

definition htons :: "u16 \<Rightarrow> u16" where "htons x = BSWAP_16 x"

definition ntohl :: "u32 \<Rightarrow> u32" where "ntohl x = BSWAP_32 x"

text \<open>The octets of a word, least significant first: the order in which a little-endian machine stores it.\<close>

definition octets :: "'a::len word \<Rightarrow> nat \<Rightarrow> u8 list" where
  "octets x n = map (\<lambda>i. ucast (drop_bit (8 * i) x)) [0..<n]"

section \<open>Laws of the macros\<close>

lemma P2SAMEHIGHBIT_iff:
  "P2SAMEHIGHBIT x y \<longleftrightarrow> (\<exists>k. bit x k \<and> bit y k \<and> (\<forall>j > k. \<not> bit x j \<and> \<not> bit y j))"
proof
  assume "P2SAMEHIGHBIT x y"
  then show "\<exists>k. bit x k \<and> bit y k \<and> (\<forall>j > k. \<not> bit x j \<and> \<not> bit y j)"
    unfolding P2SAMEHIGHBIT_def by (rule word_less_bitE) (auto simp: bit_simps)
next
  assume "\<exists>k. bit x k \<and> bit y k \<and> (\<forall>j > k. \<not> bit x j \<and> \<not> bit y j)"
  then obtain k where "bit x k" "bit y k" "\<And>j. k < j \<Longrightarrow> \<not> bit x j \<and> \<not> bit y j" by blast
  then show "P2SAMEHIGHBIT x y"
    unfolding P2SAMEHIGHBIT_def by (intro word_less_bitI [of _ k]) (auto simp: bit_simps)
qed

lemma P2_align: "P2ALIGN x (2 ^ n) = x - P2PHASE x (2 ^ n)"
  by (simp add: P2ALIGN_def P2PHASE_def and_pred_exp and_neg_exp)

lemma P2_roundup: "P2ROUNDUP x (2 ^ n) = x + P2NPHASE x (2 ^ n)"
  by (simp add: P2ROUNDUP_def P2NPHASE_def and_pred_exp and_neg_exp)

lemma P2_end: "P2END x (2 ^ n) = P2ALIGN x (2 ^ n) + 2 ^ n"
  unfolding P2END_def P2ALIGN_def and_neg_exp take_bit_not_eq_mask_diff mask_eq_exp_minus_1
  by (simp add: not_eq_complement)

lemma unat_P2PHASE: "unat (P2PHASE x (2 ^ n)) = unat x mod 2 ^ n"
  by (simp add: P2PHASE_def and_pred_exp unat_take_bit)

lemma unat_P2ALIGN: "unat (P2ALIGN x (2 ^ n)) = unat x div 2 ^ n * 2 ^ n"
proof -
  have "take_bit n x \<le> x" by (simp add: word_le_nat_alt unat_take_bit)
  then have "unat (x - take_bit n x) = unat x - unat x mod 2 ^ n"
    by (simp add: unat_sub unat_take_bit)
  then show ?thesis by (simp add: P2_align P2PHASE_def and_pred_exp minus_mod_eq_div_mult)
qed

lemma P2_roundup_align: "P2ROUNDUP x (2 ^ n) = P2ALIGN (x + (2 ^ n - 1)) (2 ^ n)"
  using take_bit_pred_minus [of n "- x"]
  by (simp add: P2ROUNDUP_def P2ALIGN_def and_neg_exp algebra_simps)

lemma P2ALIGN_push_drop: "P2ALIGN x (2 ^ n) = push_bit n (drop_bit n x)"
  unfolding P2ALIGN_def minus_exp_eq_not_mask by (rule bit_eqI) (auto simp: bit_simps)

lemma roundup_align: "roundup x (2 ^ n) = P2ALIGN (x + (2 ^ n - 1)) (2 ^ n)"
  by (simp add: roundup_def P2ALIGN_push_drop push_bit_eq_mult drop_bit_eq_div)

lemma P2PHASEUP_offset: "P2PHASEUP x (2 ^ n) p = x + P2PHASE (p - x) (2 ^ n)"
  by (simp add: P2PHASEUP_def P2PHASE_def and_neg_exp and_pred_exp)

lemma P2PHASEUP_phase: "P2PHASE (P2PHASEUP x (2 ^ n) p - p) (2 ^ n) = 0"
proof -
  have "P2PHASEUP x (2 ^ n) p - p = - push_bit n (drop_bit n (p - x))"
    by (simp add: P2PHASEUP_def flip: P2ALIGN_def P2ALIGN_push_drop)
  then have "P2PHASEUP x (2 ^ n) p - p = push_bit n (- drop_bit n (p - x))"
    by (simp add: push_bit_minus)
  then show ?thesis unfolding P2PHASE_def and_pred_exp by (simp only: take_bit_push_bit_self)
qed

lemma P2CROSS_iff: "P2CROSS x y (2 ^ n) \<longleftrightarrow> unat x div 2 ^ n \<noteq> unat y div 2 ^ n"
proof -
  have "P2CROSS x y (2 ^ n) \<longleftrightarrow> drop_bit n x XOR drop_bit n y \<noteq> 0"
    by (simp add: P2CROSS_def mask_less_iff)
  also have "\<dots> \<longleftrightarrow> drop_bit n x \<noteq> drop_bit n y"
    by (metis xor_self_eq xor_right_cancel)
  finally show ?thesis by (simp add: word_unat_eq_iff unat_drop_bit)
qed

lemma ISP2_exp: "ISP2 (2 ^ n)"
  unfolding ISP2_def and_pred_exp by (rule bit_eqI) (auto simp: bit_simps)

lemma ISP2_iff: "ISP2 (x :: 'a::len word) \<longleftrightarrow> x = 0 \<or> (\<exists>n < LENGTH('a). x = 2 ^ n)"
proof (cases "x = 0")
  case False
  then have pos: "1 \<le> unat x" by (simp add: Suc_le_eq unat_gt_0)
  then obtain k where k: "2 ^ k \<le> unat x" "unat x < 2 ^ (k + 1)"
    using ex_power_ivl1 [of 2 "unat x"] by auto
  have "(2::nat) ^ k < 2 ^ LENGTH('a)" using k(1) unsigned_less [of x] by (rule le_less_trans)
  then have len: "k < LENGTH('a)" by simp
  have high: "bit y k" if "2 ^ k \<le> unat y" "unat y < 2 ^ (k + 1)" for y :: "'a word"
  proof -
    have "unat y div 2 ^ k = 1" using that by (simp add: div_nat_eqI)
    then have "bit (unat y) k" by (simp add: bit_iff_odd)
    then show ?thesis by (simp add: bit_unat)
  qed
  have pred: "unat (x - 1) = unat x - 1" by (rule unat_minus_one [OF False])
  have "unat x = 2 ^ k" if "ISP2 x"
  proof (rule ccontr)
    assume "unat x \<noteq> 2 ^ k"
    then have "bit (x AND (x - 1)) k"
      using k high [of x] high [of "x - 1"] by (simp add: bit_and_iff pred)
    with \<open>ISP2 x\<close> show False by (simp add: ISP2_def)
  qed
  then have "x = 2 ^ k" if "ISP2 x" using that len by (simp add: word_unat_eq_iff unat_2_power)
  with len False show ?thesis by (auto simp: ISP2_exp)
qed (simp add: ISP2_def)

lemmas dev_defs = O_BITSMINOR_def O_MAXMAJ_def O_MAXMIN_def L_BITSMINOR32_def L_MAXMAJ32_def
  L_MAXMIN32_def L_BITSMINOR64_def L_MAXMIN64_def L_MAXMAJ64_def NODEV_def

lemma getmajor_eq: "getmajor d = drop_bit 18 d"
  unfolding getmajor_def dev_defs and_low_masks
  by (rule bit_eqI) (auto simp: bit_simps dest: bit_imp_le_length)

lemma make_get:
  "getmajor (makedevice x y) = take_bit 14 x" "getminor (makedevice x y) = take_bit 18 y"
  unfolding getmajor_def getminor_def makedevice_def dev_defs and_low_masks
  by (rule bit_eqI; auto simp: bit_simps)+

lemma get_make: "makedevice (getmajor d) (getminor d) = d"
  unfolding getmajor_def getminor_def makedevice_def dev_defs and_low_masks
  by (rule bit_eqI) (auto simp: bit_simps)

lemma BSWAP_8_bit: "bit (BSWAP_8 x) n \<longleftrightarrow> n < 8 \<and> bit x n"
  unfolding BSWAP_8_def and_low_masks by (auto simp: bit_simps)

lemma BSWAP_16_bit: "bit (BSWAP_16 (x::'a::len word)) n \<longleftrightarrow> n < LENGTH('a) \<and> (if n < 8 then bit x (8 + n) else n < 16 \<and> bit x (n - 8))"
  unfolding BSWAP_16_def by (auto simp: bit_simps BSWAP_8_bit dest: bit_imp_le_length)

lemma BSWAP_32_bit: "bit (BSWAP_32 (x::'a::len word)) n \<longleftrightarrow> n < LENGTH('a) \<and>
   (if n < 8 then bit x (24 + n) else if n < 16 then bit x (8 + n) else if n < 24 then bit x (n - 8) else n < 32 \<and> bit x (n - 24))"
  unfolding BSWAP_32_def by (auto simp: bit_simps BSWAP_16_bit dest: bit_imp_le_length)

lemma BSWAP_64_bit: "bit (BSWAP_64 (x::'a::len word)) n \<longleftrightarrow> n < LENGTH('a) \<and>
   (if n < 8 then bit x (56 + n) else if n < 16 then bit x (40 + n) else if n < 24 then bit x (24 + n)
    else if n < 32 then bit x (8 + n) else if n < 40 then bit x (n - 8) else if n < 48 then bit x (n - 24)
    else if n < 56 then bit x (n - 40) else n < 64 \<and> bit x (n - 56))"
  unfolding BSWAP_64_def by (auto simp: bit_simps BSWAP_32_bit dest: bit_imp_le_length)

lemma octets_BSWAP_16: "octets (BSWAP_16 (x :: u16)) 2 = rev (octets x 2)"
  by (simp add: octets_def upt_rec) (auto intro!: bit_eqI simp: bit_simps BSWAP_16_bit)

lemma octets_BSWAP_32: "octets (BSWAP_32 (x :: u32)) 4 = rev (octets x 4)"
  by (simp add: octets_def upt_rec) (auto intro!: bit_eqI simp: bit_simps BSWAP_32_bit)

lemma octets_BSWAP_64: "octets (BSWAP_64 (x :: u64)) 8 = rev (octets x 8)"
  by (simp add: octets_def upt_rec) (auto intro!: bit_eqI simp: bit_simps BSWAP_64_bit)

lemma octets_inj:
  assumes "octets x n = octets y n" "LENGTH('a) \<le> 8 * n"
  shows "x = (y :: 'a::len word)"
proof (rule bit_eqI)
  fix k assume "possible_bit TYPE('a word) k"
  then have "k div 8 < n" using assms(2) by (simp add: possible_bit_word div_less_iff_less_mult mult.commute)
  with assms(1) have "(ucast (drop_bit (8 * (k div 8)) x) :: u8) = ucast (drop_bit (8 * (k div 8)) y)"
    by (auto simp: octets_def)
  then have "bit (ucast (drop_bit (8 * (k div 8)) x) :: u8) (k mod 8) = bit (ucast (drop_bit (8 * (k div 8)) y) :: u8) (k mod 8)"
    by simp
  then show "bit x k = bit y k" by (simp add: bit_simps)
qed

lemma exp_cmp:
  assumes "getmajor d \<le> 0x7f" "getminor d \<le> 0xff"
  shows "expdev (cmpdev d) = d"
proof -
  have maj: "drop_bit 7 (drop_bit 18 d) = 0" and min: "drop_bit 8 (take_bit 18 d) = 0"
    using assms unfolding getmajor_eq getminor_def dev_defs and_low_masks
    by (simp_all only: less_masks not_less [symmetric] not_not)
  have hi: "\<not> bit d k" if "25 \<le> k" for k
    using bit_drop_0 [OF maj, of "k - 18"] that by (simp add: bit_simps)
  have lo: "\<not> bit d k" if "8 \<le> k" "k < 18" for k
    using bit_drop_0 [OF min, of k] that by (simp add: bit_simps)
  have "cmpdev d = ucast (push_bit 8 (drop_bit 18 d) OR take_bit 8 d)"
    unfolding cmpdev_def dev_defs and_low_masks less_masks maj min by simp
  then have *: "expdev (cmpdev d) = push_bit 18 (take_bit 7 (drop_bit 8 (scast (ucast (push_bit 8 (drop_bit 18 d) OR take_bit 8 d) :: u16)))) OR
    take_bit 8 (scast (ucast (push_bit 8 (drop_bit 18 d) OR take_bit 8 d) :: u16))"
    unfolding expdev_def dev_defs and_low_masks by simp
  show ?thesis
  proof (rule bit_eqI)
    fix n assume "possible_bit TYPE(u32) n"
    consider "n < 8" | "8 \<le> n" "n < 18" | "18 \<le> n" "n < 25" | "25 \<le> n" by linarith
    then show "bit (expdev (cmpdev d)) n = bit d n"
      unfolding * by cases (auto simp: bit_simps hi lo min_def)
  qed
qed

lemma cmp_exp: "cmpdev (expdev v) = take_bit 15 v" for v :: u16
proof -
  let ?d = "expdev v"
  have d: "?d = push_bit 18 (take_bit 7 (drop_bit 8 (scast v))) OR take_bit 8 (scast v)"
    unfolding expdev_def dev_defs and_low_masks ..
  have maj: "drop_bit 18 ?d = take_bit 7 (drop_bit 8 (scast v))"
    unfolding d by (rule bit_eqI) (auto simp: bit_simps)
  have min: "take_bit 18 ?d = take_bit 8 (scast v)"
    unfolding d by (rule bit_eqI) (auto simp: bit_simps)
  have "drop_bit 7 (drop_bit 18 ?d) = 0" "drop_bit 8 (take_bit 18 ?d) = 0"
    unfolding maj min by (auto intro!: bit_eqI simp: bit_simps)
  then have "cmpdev ?d = ucast (push_bit 8 (drop_bit 18 ?d) OR take_bit 8 ?d)"
    unfolding cmpdev_def dev_defs and_low_masks less_masks by simp
  also have "\<dots> = take_bit 15 v"
  proof (rule bit_eqI)
    fix n assume "possible_bit TYPE(u16) n"
    then have n: "n < 16" by (simp add: possible_bit_word)
    then have "n = 15 \<or> n < 15" by linarith
    then show "bit (ucast (push_bit 8 (drop_bit 18 ?d) OR take_bit 8 ?d) :: u16) n = bit (take_bit 15 v) n"
      unfolding maj unfolding d using n by (elim disjE) (auto simp: bit_simps min_def)
  qed
  finally show ?thesis .
qed

lemma cmp_error: "0x7f < getmajor d \<or> 0xff < getminor d \<Longrightarrow> cmpdev d = NODEV"
  unfolding cmpdev_def getmajor_eq getminor_def dev_defs by auto

lemma expdev_NODEV: "expdev NODEV = 0x1fc00ff"
  by (simp add: expdev_def dev_defs mask_eq_exp_minus_1)

lemma devl_roundtrip:
  assumes "drop_bit 32 x \<le> 0x3fff" "x AND 0xffffffff \<le> 0x3ffff" "x \<noteq> makedevice64 0x3fff 0x3ffff"
  shows "DEVEXPL (DEVCMPL x) = x"
proof -
  have maj: "drop_bit 14 (drop_bit 32 x) = 0" and min: "drop_bit 18 (take_bit 32 x) = 0"
    using assms(1,2) unfolding and_low_masks by (simp_all only: less_masks not_less [symmetric] not_not)
  have hi: "\<not> bit x k" if "46 \<le> k" for k
    using bit_drop_0 [OF maj, of "k - 32"] that by (simp add: bit_simps)
  have lo: "\<not> bit x k" if "18 \<le> k" "k < 32" for k
    using bit_drop_0 [OF min, of k] that by (simp add: bit_simps)
  have cmp: "DEVCMPL x = ucast (push_bit 18 (drop_bit 32 x) OR take_bit 18 x)"
    unfolding DEVCMPL_def dev_defs and_low_masks less_masks maj min by simp
  have exp: "x = makedevice64 (ucast (take_bit 14 (drop_bit 18 (DEVCMPL x)))) (ucast (take_bit 18 (DEVCMPL x)))"
  proof (rule bit_eqI)
    fix n assume "possible_bit TYPE(u64) n"
    consider "n < 18" | "18 \<le> n" "n < 32" | "32 \<le> n" "n < 46" | "46 \<le> n" by linarith
    then show "bit x n = bit (makedevice64 (ucast (take_bit 14 (drop_bit 18 (DEVCMPL x)))) (ucast (take_bit 18 (DEVCMPL x)))) n"
      unfolding cmp makedevice64_def dev_defs and_low_masks
      by cases (auto simp: bit_simps hi lo)
  qed
  have "DEVCMPL x \<noteq> - 1"
  proof
    assume "DEVCMPL x = - 1"
    with exp have "x = makedevice64 (ucast (take_bit 14 (drop_bit 18 (- 1 :: u32)))) (ucast (take_bit 18 (- 1 :: u32)))"
      by simp
    with assms(3) show False by (simp add: mask_eq_exp_minus_1)
  qed
  then show ?thesis using exp
    unfolding DEVEXPL_def dev_defs and_low_masks by simp
qed

lemma devl_collision: "DEVCMPL (makedevice64 0x3fff 0x3ffff) = NODEV"
  by (simp add: DEVCMPL_def makedevice64_def dev_defs)

lemma unat_lbtod: "unat (lbtod b) = (unat b + 511) div 512"
proof -
  have "unat (511 + ucast b :: u64) = unat b + 511"
    using unat_u32_less [of b] by (simp add: unat_word_ariths unsigned_ucast_eq take_bit_nat_eq_self)
  then show ?thesis
    by (simp add: lbtod_def DEV_BSIZE_def DEV_BSHIFT_def unat_drop_bit)
qed

lemma unat_btod: "unat (btod b) = (if unat b + 511 < 2 ^ 32 then (unat b + 511) div 512 else 0)"
proof -
  have "unat (511 + b) = (if unat b + 511 < 2 ^ 32 then unat b + 511 else unat b + 511 - 2 ^ 32)"
    by (simp add: unat_plus_if')
  moreover have "(unat b + 511 - 2 ^ 32) div 512 = 0" using unat_u32_less [of b] by simp
  moreover have "unat (btod b) = unat (511 + b) div 512"
    by (simp add: btod_def DEV_BSIZE_def DEV_BSHIFT_def unat_drop_bit)
  ultimately show ?thesis by (metis (full_types))
qed

section \<open>Properties\<close>

text \<open>C35: for a power of two alignment the macros compute the phase, the aligned value below
  and the end of the enclosing block as division with remainder does, the distance to the next
  boundary is the negative phase, and \<^verbatim>\<open>P2PHASEUP\<close> gives the first value at or
  after \<open>x\<close> (in wrapping order) that has the given phase.\<close>

theorem p2_rounding:
  fixes x p :: "'a::len word"
  shows "unat (P2PHASE x (2 ^ n)) = unat x mod 2 ^ n \<and>
    unat (P2ALIGN x (2 ^ n)) = unat x div 2 ^ n * 2 ^ n \<and>
    P2END x (2 ^ n) = P2ALIGN x (2 ^ n) + 2 ^ n \<and>
    P2ROUNDUP x (2 ^ n) = x + P2NPHASE x (2 ^ n) \<and>
    P2PHASE (P2PHASEUP x (2 ^ n) p - p) (2 ^ n) = 0 \<and>
    unat (P2PHASEUP x (2 ^ n) p - x) = unat (p - x) mod 2 ^ n"
proof (intro conjI)
  show "unat (P2PHASEUP x (2 ^ n) p - x) = unat (p - x) mod 2 ^ n"
    by (simp add: P2PHASEUP_offset unat_P2PHASE)
qed (simp_all only: unat_P2PHASE unat_P2ALIGN P2_end P2_roundup P2PHASEUP_phase)

text \<open>On every power of two alignment the masking form \<^verbatim>\<open>P2ROUNDUP\<close> and the
  dividing form \<^verbatim>\<open>roundup\<close> are the same function, wrapped results included.\<close>

theorem p2_roundup_is_roundup: "P2ROUNDUP x (2 ^ n) = roundup x (2 ^ n)"
  by (simp add: P2_roundup_align roundup_align)

text \<open>\<^verbatim>\<open>ISP2\<close> holds of zero and of the powers of two only; \<^verbatim>\<open>P2CROSS\<close> holds
  when the two values lie in different blocks; \<^verbatim>\<open>P2SAMEHIGHBIT\<close> holds when both values are
  not zero and have the same highest bit.\<close>

theorem p2_predicates:
  fixes x y :: "'a::len word"
  shows "(ISP2 x \<longleftrightarrow> x = 0 \<or> x \<in> (\<lambda>n. 2 ^ n) ` {..<LENGTH('a)}) \<and>
    (P2CROSS x y (2 ^ n) \<longleftrightarrow> unat x div 2 ^ n \<noteq> unat y div 2 ^ n) \<and>
    (P2SAMEHIGHBIT x y \<longleftrightarrow> (\<exists>k. bit x k \<and> bit y k \<and> drop_bit (k + 1) x = 0 \<and> drop_bit (k + 1) y = 0))"
proof -
  have above: "drop_bit (Suc k) w = 0 \<longleftrightarrow> (\<forall>j > k. \<not> bit w j)" for k and w :: "'a word"
    using bit_drop_0 [of "Suc k" w] by (auto simp: bit_eq_iff bit_drop_bit_eq Suc_le_eq)
  show ?thesis by (auto simp: ISP2_iff P2CROSS_iff P2SAMEHIGHBIT_iff above image_iff)
qed

text \<open>C36: compressing a device number to the old 16-bit format and expanding it again gives the device back when its
  major and minor parts fit. Otherwise the compression gives \<^verbatim>\<open>NODEV\<close>; \<^verbatim>\<open>expdev\<close> does not know that value and makes
  of it the device with the largest old major and minor numbers, \<^verbatim>\<open>0x1fc00ff\<close>. The other way round an old number keeps its
  lower 15 bits, so exactly the numbers that are not negative survive.\<close>

theorem cmpdev_expdev:
  "(if getmajor d \<le> 0x7f \<and> getminor d \<le> 0xff then expdev (cmpdev d) = d
    else cmpdev d = NODEV \<and> expdev (cmpdev d) = 0x1fc00ff) \<and>
   getmajor 0x1fc00ff = 0x7f \<and> getminor 0x1fc00ff = 0xff \<and>
   cmpdev (expdev v) = take_bit 15 v"
proof (intro conjI)
  show "if getmajor d \<le> 0x7f \<and> getminor d \<le> 0xff then expdev (cmpdev d) = d
    else cmpdev d = NODEV \<and> expdev (cmpdev d) = 0x1fc00ff"
    using exp_cmp [of d] cmp_error [of d] by (auto simp: not_le expdev_NODEV)
  show "getmajor 0x1fc00ff = 0x7f" "getminor 0x1fc00ff = 0xff"
    by (simp_all add: getmajor_eq getminor_def dev_defs)
qed (rule cmp_exp)



text \<open>The swap macros reverse the octets of 16-, 32- and 64-bit values, so each is its own
  inverse and the network order conversions of a little-endian target round trip.\<close>

theorem bswap_reverses:
  fixes x :: u16 and y :: u32 and z :: u64
  shows "octets (htons x) 2 = rev (octets x 2) \<and> ntohs (htons x) = x \<and>
    octets (ntohl y) 4 = rev (octets y 4) \<and> ntohl (ntohl y) = y \<and>
    octets (BE_64 z) 8 = rev (octets z 8) \<and> BE_64 (BE_64 z) = z \<and> LE_64 z = z"
proof -
  have "BSWAP_16 (BSWAP_16 x) = x" by (rule octets_inj [of _ 2]) (simp_all add: octets_BSWAP_16)
  moreover have "BSWAP_32 (BSWAP_32 y) = y" by (rule octets_inj [of _ 4]) (simp_all add: octets_BSWAP_32)
  moreover have "BSWAP_64 (BSWAP_64 z) = z" by (rule octets_inj [of _ 8]) (simp_all add: octets_BSWAP_64)
  ultimately show ?thesis
    by (simp add: htons_def ntohs_def ntohl_def BE_64_def LE_64_def BMASK_64_def
      octets_BSWAP_16 octets_BSWAP_32 octets_BSWAP_64)
qed

text \<open>\<^verbatim>\<open>lbtod\<close> counts the disk blocks that hold any 32-bit number of bytes;
  \<^verbatim>\<open>btod\<close>, which adds in 32 bits, does so except in the last 511 values, where it gives 0.\<close>

theorem btod_bounds:
  "unat (lbtod b) = (unat b + 511) div 512 \<and>
   (if b \<le> 0xFFFFFE00 then unat (btod b) = unat (lbtod b) else btod b = 0)"
proof -
  have "b \<le> 0xFFFFFE00 \<longleftrightarrow> unat b + 511 < 2 ^ 32" by (simp add: word_le_nat_alt) linarith
  then show ?thesis using unat_btod [of b] by (simp add: unat_lbtod flip: unat_eq_0)
qed

end
