(* ===== verification/Layout.thy ===== *)
theory Layout
  imports SysvPrelude
begin

text \<open>
  The layout of C aggregates. Many headers declare structures that leave the
  program that compiled them: on-disk blocks, ioctl arguments, object file headers. A
  declaration is translated to a value of \<open>ctype\<close>, with its fields in source
  order, and the size, alignment and offsets follow from the rules of the
  compiler: a field starts at the next multiple of its alignment, a structure is
  padded to its own alignment, the members of a union share offset 0. The sizes that differ
  between the targets of the headers (\<^verbatim>\<open>long\<close>, pointers, and the alignment of
  8-byte integers) are the fields of \<open>abi\<close>; \<^verbatim>\<open>#pragma pack(n)\<close> is a cap on
  every alignment.
\<close>

section \<open>Types and their layout\<close>

record abi =
  long_size :: nat
  ptr_size :: nat
  ll_align :: nat
  pack :: nat

datatype ctype =
    CChar | CShort | CInt | CLong | CLongLong | CPtr
  | Array nat ctype
  | Struct "(string \<times> ctype) list"
  | Union "(string \<times> ctype) list"

definition i386 :: abi where
  "i386 = \<lparr>long_size = 4, ptr_size = 4, ll_align = 4, pack = 8\<rparr>"

definition sparc :: abi where
  "sparc = \<lparr>long_size = 4, ptr_size = 4, ll_align = 8, pack = 8\<rparr>"

definition lp64 :: abi where
  "lp64 = \<lparr>long_size = 8, ptr_size = 8, ll_align = 8, pack = 8\<rparr>"

definition align_up :: "nat \<Rightarrow> nat \<Rightarrow> nat" where
  "align_up x a = (x + (a - 1)) div a * a"

text \<open>Size and alignment of a sequence of members laid out one after the other, and of overlaid ones.\<close>

fun seq_lay :: "nat \<Rightarrow> nat \<Rightarrow> (nat \<times> nat) list \<Rightarrow> nat \<times> nat" where
  "seq_lay off a [] = (align_up off a, a)"
| "seq_lay off a ((s, b) # ms) = seq_lay (align_up off b + s) (max a b) ms"

fun overlay_lay :: "nat \<Rightarrow> nat \<Rightarrow> (nat \<times> nat) list \<Rightarrow> nat \<times> nat" where
  "overlay_lay n a [] = (align_up n a, a)"
| "overlay_lay n a ((s, b) # ms) = overlay_lay (max n s) (max a b) ms"

primrec lay :: "abi \<Rightarrow> ctype \<Rightarrow> nat \<times> nat" where
  "lay A CChar = (1, 1)"
| "lay A CShort = (2, min 2 (pack A))"
| "lay A CInt = (4, min 4 (pack A))"
| "lay A CLong = (long_size A, min (long_size A) (pack A))"
| "lay A CLongLong = (8, min (ll_align A) (pack A))"
| "lay A CPtr = (ptr_size A, min (ptr_size A) (pack A))"
| "lay A (Array n c) = (n * fst (lay A c), snd (lay A c))"
| "lay A (Struct fs) = seq_lay 0 1 (map snd (map (map_prod id (lay A)) fs))"
| "lay A (Union fs) = overlay_lay 0 1 (map snd (map (map_prod id (lay A)) fs))"

abbreviation size_of :: "abi \<Rightarrow> ctype \<Rightarrow> nat" where
  "size_of A c \<equiv> fst (lay A c)"

abbreviation align_of :: "abi \<Rightarrow> ctype \<Rightarrow> nat" where
  "align_of A c \<equiv> snd (lay A c)"

fun offsets_from :: "abi \<Rightarrow> nat \<Rightarrow> (string \<times> ctype) list \<Rightarrow> (string \<times> nat \<times> nat) list"
  and place :: "abi \<Rightarrow> nat \<Rightarrow> nat \<Rightarrow> string \<Rightarrow> (string \<times> ctype) list \<Rightarrow> (string \<times> nat \<times> nat) list" where
  "offsets_from A off [] = []"
| "offsets_from A off ((f, c) # fs) = place A (align_up off (align_of A c)) (size_of A c) f fs"
| "place A p s f fs = (f, p, s) # offsets_from A (p + s) fs"

fun fields :: "ctype \<Rightarrow> (string \<times> ctype) list" where
  "fields (Struct fs) = fs"
| "fields (Union fs) = fs"
| "fields c = []"

definition offsets :: "abi \<Rightarrow> ctype \<Rightarrow> (string \<times> nat \<times> nat) list" where
  "offsets A c = (case c of Struct fs \<Rightarrow> offsets_from A 0 fs
     | Union fs \<Rightarrow> map (\<lambda>(f, d). (f, 0, size_of A d)) fs
     | _ \<Rightarrow> [])"

fun find_field :: "string \<Rightarrow> (string \<times> nat \<times> nat) list \<Rightarrow> nat option" where
  "find_field f [] = None"
| "find_field f ((g, p, s) # r) = (if f = g then Some p else find_field f r)"

definition offset_of :: "abi \<Rightarrow> ctype \<Rightarrow> string \<Rightarrow> nat option" where
  "offset_of A c f = find_field f (offsets A c)"

text \<open>A layout without padding: every field starts where the one before it ends, up to the size of the whole.\<close>

fun contiguous :: "nat \<Rightarrow> (string \<times> nat \<times> nat) list \<Rightarrow> nat \<Rightarrow> bool" where
  "contiguous off [] n = (off = n)"
| "contiguous off ((f, p, s) # r) n = (p = off \<and> contiguous (p + s) r n)"

definition unpadded :: "abi \<Rightarrow> ctype \<Rightarrow> bool" where
  "unpadded A c = contiguous 0 (offsets A c) (size_of A c)"

text \<open>The fields are in order, do not overlap and end within the first \<open>n\<close> bytes.\<close>

fun ordered_within :: "nat \<Rightarrow> (string \<times> nat \<times> nat) list \<Rightarrow> nat \<Rightarrow> bool" where
  "ordered_within off [] n = (off \<le> n)"
| "ordered_within off ((f, p, s) # r) n = (off \<le> p \<and> ordered_within (p + s) r n)"

section \<open>Laws of the layout\<close>

lemma align_up_ge: "0 < a \<Longrightarrow> x \<le> align_up x a"
proof -
  assume a: "0 < a"
  have "x + (a - 1) = (x + (a - 1)) div a * a + (x + (a - 1)) mod a" by simp
  moreover have "(x + (a - 1)) mod a \<le> a - 1" using a by (simp add: Suc_le_eq flip: less_Suc_eq_le)
  ultimately show ?thesis unfolding align_up_def by linarith
qed

lemma align_up_dvd: "a dvd align_up x a"
  by (simp add: align_up_def)

lemma align_up_less: "0 < a \<Longrightarrow> align_up x a < x + a"
proof -
  assume "0 < a"
  moreover have "(x + (a - 1)) div a * a \<le> x + (a - 1)" by (rule div_times_less_eq_dividend)
  ultimately show ?thesis unfolding align_up_def by linarith
qed

lemma seq_lay_align: "snd (seq_lay off a ms) dvd fst (seq_lay off a ms)"
  by (induction ms arbitrary: off a) (auto simp: align_up_dvd)

definition sound_abi :: "abi \<Rightarrow> bool" where
  "sound_abi A \<longleftrightarrow> 0 < long_size A \<and> 0 < ptr_size A \<and> 0 < ll_align A \<and> 0 < pack A"

lemma sound_abis [simp]: "sound_abi i386" "sound_abi sparc" "sound_abi lp64"
  by (simp_all add: sound_abi_def i386_def sparc_def lp64_def)

lemma seq_lay_pos: "0 < a \<Longrightarrow> 0 < snd (seq_lay off a ms)"
  by (induction ms arbitrary: off a) auto

lemma overlay_lay_pos: "0 < a \<Longrightarrow> 0 < snd (overlay_lay n a ms)"
  by (induction ms arbitrary: n a) auto

lemma align_of_pos: "sound_abi A \<Longrightarrow> 0 < align_of A c"
  by (induction c) (auto simp: sound_abi_def seq_lay_pos overlay_lay_pos)

lemma offsets_from_ordered:
  assumes "sound_abi A" "0 < a"
  shows "ordered_within off (offsets_from A off fs)
    (fst (seq_lay off a (map snd (map (map_prod id (lay A)) fs))))"
  using assms
proof (induction fs arbitrary: off a)
  case Nil
  then show ?case by (simp add: align_up_ge)
next
  case (Cons x fs)
  obtain f c where x: "x = (f, c)" by (cases x)
  obtain s b where lay: "lay A c = (s, b)" by (cases "lay A c")
  have "0 < b" using align_of_pos [OF Cons.prems(1), of c] lay by simp
  then have "off \<le> align_up off b" by (rule align_up_ge)
  with \<open>0 < b\<close> show ?case
    using Cons.IH [of "max a b" "align_up off b + s"] Cons.prems by (simp add: x lay)
qed

lemma struct_fields_ordered:
  "sound_abi A \<Longrightarrow> ordered_within 0 (offsets A (Struct fs)) (size_of A (Struct fs))"
  using offsets_from_ordered [of A 1 0 fs] by (simp add: offsets_def)

lemma offsets_aligned:
  "(f, p, s) \<in> set (offsets_from A off fs) \<Longrightarrow> \<exists>c. (f, c) \<in> set fs \<and> s = size_of A c \<and> align_of A c dvd p"
  by (induction fs arbitrary: off) (fastforce simp: align_up_dvd)+

text \<open>Two targets place the fields of a structure alike when at each field the sizes and the rounded offsets agree.\<close>

fun same_places :: "abi \<Rightarrow> abi \<Rightarrow> nat \<Rightarrow> ctype list \<Rightarrow> bool" where
  "same_places A B off [] \<longleftrightarrow> True"
| "same_places A B off (c # cs) \<longleftrightarrow> size_of A c = size_of B c \<and> align_up off (align_of A c) = align_up off (align_of B c) \<and>
     same_places A B (align_up off (align_of B c) + size_of B c) cs"

lemma offsets_from_cong: "same_places A B off (map snd fs) \<Longrightarrow> offsets_from A off fs = offsets_from B off fs"
  by (induction fs arbitrary: off) auto

text \<open>The equations that compute the layout of a literal declaration.\<close>

lemma lay_scalars:
  "lay i386 CChar = (1, 1)" "lay i386 CShort = (2, 2)" "lay i386 CInt = (4, 4)" "lay i386 CLong = (4, 4)"
  "lay i386 CLongLong = (8, 4)" "lay i386 CPtr = (4, 4)"
  "lay sparc CChar = (1, 1)" "lay sparc CShort = (2, 2)" "lay sparc CInt = (4, 4)" "lay sparc CLong = (4, 4)"
  "lay sparc CLongLong = (8, 8)" "lay sparc CPtr = (4, 4)"
  "lay lp64 CChar = (1, 1)" "lay lp64 CShort = (2, 2)" "lay lp64 CInt = (4, 4)" "lay lp64 CLong = (8, 8)"
  "lay lp64 CLongLong = (8, 8)" "lay lp64 CPtr = (8, 8)"
  by (simp_all add: i386_def sparc_def lp64_def)

declare lay.simps(1-6) [simp del]

lemmas layout_eval = lay_scalars offset_of_def offsets_def unpadded_def align_up_def

end
