(* ===== verification/Ioccom.thy ===== *)
theory Ioccom
  imports Layout
begin

unbundle bit_operations_syntax

text \<open>
  The ioctl command words of \<^verbatim>\<open>sys/ioccom.h\<close>: direction in the top bits, size of the
  argument in bits 16 to 23, group character in bits 8 to 15 and command number
  in the low byte. The size of an argument type is taken from its layout, so a
  command is a function of the ABI.
\<close>

definition IOCPARM_MASK :: u32 where "IOCPARM_MASK = 0xff"

definition IOC_VOID :: u32 where "IOC_VOID = 0x20000000"

definition IOC_OUT :: u32 where "IOC_OUT = 0x40000000"

definition IOC_IN :: u32 where "IOC_IN = 0x80000000"

definition IOC_INOUT :: u32 where "IOC_INOUT = IOC_IN OR IOC_OUT"

definition IO :: "u32 \<Rightarrow> u32 \<Rightarrow> u32" where
  "IO x y = IOC_VOID OR push_bit 8 x OR y"

definition IORN :: "u32 \<Rightarrow> u32 \<Rightarrow> u32 \<Rightarrow> u32" where
  "IORN x y t = IOC_OUT OR push_bit 16 (t AND IOCPARM_MASK) OR push_bit 8 x OR y"

definition IOR :: "abi \<Rightarrow> u32 \<Rightarrow> u32 \<Rightarrow> ctype \<Rightarrow> u32" where
  "IOR A x y t = IOC_OUT OR push_bit 16 (of_nat (size_of A t) AND IOCPARM_MASK) OR push_bit 8 x OR y"

definition IOWN :: "u32 \<Rightarrow> u32 \<Rightarrow> u32 \<Rightarrow> u32" where
  "IOWN x y t = IOC_IN OR push_bit 16 (t AND IOCPARM_MASK) OR push_bit 8 x OR y"

definition IOW :: "abi \<Rightarrow> u32 \<Rightarrow> u32 \<Rightarrow> ctype \<Rightarrow> u32" where
  "IOW A x y t = IOC_IN OR push_bit 16 (of_nat (size_of A t) AND IOCPARM_MASK) OR push_bit 8 x OR y"

definition IOWRN :: "u32 \<Rightarrow> u32 \<Rightarrow> u32 \<Rightarrow> u32" where
  "IOWRN x y t = IOC_INOUT OR push_bit 16 (t AND IOCPARM_MASK) OR push_bit 8 x OR y"

definition IOWR :: "abi \<Rightarrow> u32 \<Rightarrow> u32 \<Rightarrow> ctype \<Rightarrow> u32" where
  "IOWR A x y t = IOC_INOUT OR push_bit 16 (of_nat (size_of A t) AND IOCPARM_MASK) OR push_bit 8 x OR y"

text \<open>What a driver reads back from a command word: direction, size, group and number.\<close>

definition ioc_decode :: "u32 \<Rightarrow> u32 \<times> nat \<times> u32 \<times> u32" where
  "ioc_decode c = (c AND (IOC_VOID OR IOC_INOUT), unat (drop_bit 16 c AND IOCPARM_MASK),
     drop_bit 8 c AND 0xff, c AND 0xff)"

section \<open>Decoding\<close>

lemmas ioc_consts = IOC_VOID_def IOC_OUT_def IOC_IN_def IOC_INOUT_def IOCPARM_MASK_def

lemma octet_eq: "z \<le> (0xff :: u32) \<Longrightarrow> take_bit 8 z = z"
proof -
  assume "z \<le> 0xff"
  then have zero: "drop_bit 8 z = 0" using less_masks(2) [of z] by (auto simp: not_less)
  have "k < 8" if "bit z k" for k using bit_drop_0 [OF zero, of k] that by (cases "k < 8") auto
  then show ?thesis by (auto intro: bit_eqI simp: bit_take_bit_iff)
qed

lemma direction_part: "c AND 0xE0000000 = push_bit 29 (drop_bit 29 (c :: u32))"
proof -
  have "0xE0000000 = (NOT (mask 29) :: u32)" by (simp add: mask_eq_exp_minus_1)
  then have "c AND 0xE0000000 = c AND NOT (mask 29)" by (rule arg_cong)
  also have "\<dots> = push_bit 29 (drop_bit 29 c)" by (rule bit_eqI) (auto simp: bit_simps)
  finally show ?thesis .
qed

lemma packed_parts:
  fixes e s x y :: u32
  defines "c \<equiv> push_bit 29 e OR push_bit 16 (take_bit 8 s) OR push_bit 8 (take_bit 8 x) OR take_bit 8 y"
  shows "push_bit 29 (drop_bit 29 c) = push_bit 29 e" "take_bit 8 (drop_bit 16 c) = take_bit 8 s"
    "take_bit 8 (drop_bit 8 c) = take_bit 8 x" "take_bit 8 c = take_bit 8 y"
  unfolding c_def by (rule bit_eqI; auto simp: bit_simps)+

lemma ioc_decode_packed:
  assumes "x \<le> 0xff" "y \<le> 0xff" "d = push_bit 29 e"
  shows "ioc_decode (d OR push_bit 16 (s AND IOCPARM_MASK) OR push_bit 8 x OR y) =
    (d, unat s mod 256, x, y)"
proof -
  have "ioc_decode c = (push_bit 29 (drop_bit 29 c), unat (take_bit 8 (drop_bit 16 c)),
     take_bit 8 (drop_bit 8 c), take_bit 8 c)" for c
    by (simp add: ioc_decode_def ioc_consts and_low_masks direction_part)
  moreover have "unat (take_bit 8 s) = unat s mod 256" by (simp add: unat_take_bit)
  ultimately show ?thesis
    unfolding IOCPARM_MASK_def and_low_masks assms(3)
    using packed_parts [of e s x y, unfolded octet_eq [OF assms(1)] octet_eq [OF assms(2)]]
    by (simp only: prod.inject)
qed

lemma directions:
  "IOC_VOID = push_bit 29 1" "IOC_OUT = push_bit 29 2" "IOC_IN = push_bit 29 4" "IOC_INOUT = push_bit 29 6"
  by (simp_all add: ioc_consts)

text \<open>C38: a command word built from a group and a number of one byte each can be taken apart: the
  driver reads back the direction, the group, the number and the size of the argument modulo 256, so two
  commands with arguments of at most 255 bytes are equal only if all four agree.\<close>

theorem ioc_commands_decode:
  assumes "x \<le> 0xff" "y \<le> 0xff"
  shows "ioc_decode (IO x y) = (IOC_VOID, 0, x, y) \<and>
    ioc_decode (IORN x y n) = (IOC_OUT, unat n mod 256, x, y) \<and>
    ioc_decode (IOWN x y n) = (IOC_IN, unat n mod 256, x, y) \<and>
    ioc_decode (IOWRN x y n) = (IOC_INOUT, unat n mod 256, x, y) \<and>
    IOR A x y t = IORN x y (of_nat (size_of A t)) \<and>
    IOW A x y t = IOWN x y (of_nat (size_of A t)) \<and>
    IOWR A x y t = IOWRN x y (of_nat (size_of A t))"
  using ioc_decode_packed [OF assms directions(1), of 0] ioc_decode_packed [OF assms directions(2), of n]
    ioc_decode_packed [OF assms directions(3), of n] ioc_decode_packed [OF assms directions(4), of n]
  by (simp add: IO_def IORN_def IOWN_def IOWRN_def IOR_def IOW_def IOWR_def)

theorem ioc_commands_decode_witness:
  "ioc_decode (IOWRN 0x64 6 44) = (IOC_INOUT, 44, 0x64, 6) \<and> IOWRN 0x64 6 44 = 0xC02C6406"
  using ioc_commands_decode [of "0x64" 6 44] by (simp add: IOWRN_def ioc_consts)

end
