(* ===== verification/Des.thy ===== *)
theory Des
  imports Ioccom
begin

unbundle bit_operations_syntax

text \<open>
  The tables of the software DES (\<^verbatim>\<open>des/desdata.h\<close>), its 64-bit storage unit
  (\<^verbatim>\<open>des/softdes.h\<close>) and the ioctl interface of the driver
  (\<^verbatim>\<open>des/des.h\<close>). The code that runs the rounds is not among the headers, so
  the properties say what the tables compute when they are used as their
  comments say: the expansion table and the permutation table are indexed by
  the four bytes of a word and the results are or-ed.
\<close>

section \<open>Tables\<close>

definition PC1_C :: "nat list" where
  "PC1_C = [
    56, 48, 40, 32, 24, 16, 8, 0, 57, 49, 41, 33, 25, 17, 9, 1,
    58, 50, 42, 34, 26, 18, 10, 2, 59, 51, 43, 35]"

definition PC1_D :: "nat list" where
  "PC1_D = [
    62, 54, 46, 38, 30, 22, 14, 6, 61, 53, 45, 37, 29, 21, 13, 5,
    60, 52, 44, 36, 28, 20, 12, 4, 27, 19, 11, 3]"

definition shifts :: "nat list" where
  "shifts = [
    0, 0, 1, 1, 1, 1, 1, 1, 0, 1, 1, 1, 1, 1, 1, 0]"

definition PC2_C :: "nat list" where
  "PC2_C = [
    14, 17, 11, 24, 1, 5, 3, 28, 15, 6, 21, 10, 23, 19, 12, 4,
    26, 8, 16, 7, 27, 20, 13, 2]"

definition PC2_D :: "nat list" where
  "PC2_D = [
    13, 24, 3, 9, 19, 27, 2, 12, 23, 17, 5, 20, 16, 21, 11, 28,
    6, 25, 18, 14, 22, 8, 1, 4]"

definition IPtab :: "nat list" where
  "IPtab = [
    39, 7, 47, 15, 55, 23, 63, 31, 38, 6, 46, 14, 54, 22, 62, 30,
    37, 5, 45, 13, 53, 21, 61, 29, 36, 4, 44, 12, 52, 20, 60, 28,
    35, 3, 43, 11, 51, 19, 59, 27, 34, 2, 42, 10, 50, 18, 58, 26,
    33, 1, 41, 9, 49, 17, 57, 25, 32, 0, 40, 8, 48, 16, 56, 24]"

definition FPtab :: "nat list" where
  "FPtab = [
    57, 49, 41, 33, 25, 17, 9, 1, 59, 51, 43, 35, 27, 19, 11, 3,
    61, 53, 45, 37, 29, 21, 13, 5, 63, 55, 47, 39, 31, 23, 15, 7,
    56, 48, 40, 32, 24, 16, 8, 0, 58, 50, 42, 34, 26, 18, 10, 2,
    60, 52, 44, 36, 28, 20, 12, 4, 62, 54, 46, 38, 30, 22, 14, 6]"

definition longtab :: "u32 list" where
  "longtab = [
    0x80000000, 0x40000000, 0x20000000, 0x10000000, 0x08000000, 0x04000000,
    0x02000000, 0x01000000, 0x00800000, 0x00400000, 0x00200000, 0x00100000,
    0x00080000, 0x00040000, 0x00020000, 0x00010000, 0x00008000, 0x00004000,
    0x00002000, 0x00001000, 0x00000800, 0x00000400, 0x00000200, 0x00000100,
    0x00000080, 0x00000040, 0x00000020, 0x00000010, 0x00000008, 0x00000004,
    0x00000002, 0x00000001]"

datatype R_to_ER = R_to_ER (l0: u32) (l1: u32)

definition R_to_ER_tab_0 :: "R_to_ER list" where
  "R_to_ER_tab_0 = [
    R_to_ER 0 0, R_to_ER 0x00022000 0, R_to_ER 0x00040000 0,
    R_to_ER 0x00062000 0, R_to_ER 0x00080000 0, R_to_ER 0x000A2000 0,
    R_to_ER 0x000C0000 0, R_to_ER 0x000E2000 0, R_to_ER 0x01100000 0,
    R_to_ER 0x01122000 0, R_to_ER 0x01140000 0, R_to_ER 0x01162000 0,
    R_to_ER 0x01180000 0, R_to_ER 0x011A2000 0, R_to_ER 0x011C0000 0,
    R_to_ER 0x011E2000 0, R_to_ER 0x02200000 0, R_to_ER 0x02222000 0,
    R_to_ER 0x02240000 0, R_to_ER 0x02262000 0, R_to_ER 0x02280000 0,
    R_to_ER 0x022A2000 0, R_to_ER 0x022C0000 0, R_to_ER 0x022E2000 0,
    R_to_ER 0x03300000 0, R_to_ER 0x03322000 0, R_to_ER 0x03340000 0,
    R_to_ER 0x03362000 0, R_to_ER 0x03380000 0, R_to_ER 0x033A2000 0,
    R_to_ER 0x033C0000 0, R_to_ER 0x033E2000 0, R_to_ER 0x04000000 0,
    R_to_ER 0x04022000 0, R_to_ER 0x04040000 0, R_to_ER 0x04062000 0,
    R_to_ER 0x04080000 0, R_to_ER 0x040A2000 0, R_to_ER 0x040C0000 0,
    R_to_ER 0x040E2000 0, R_to_ER 0x05100000 0, R_to_ER 0x05122000 0,
    R_to_ER 0x05140000 0, R_to_ER 0x05162000 0, R_to_ER 0x05180000 0,
    R_to_ER 0x051A2000 0, R_to_ER 0x051C0000 0, R_to_ER 0x051E2000 0,
    R_to_ER 0x06200000 0, R_to_ER 0x06222000 0, R_to_ER 0x06240000 0,
    R_to_ER 0x06262000 0, R_to_ER 0x06280000 0, R_to_ER 0x062A2000 0,
    R_to_ER 0x062C0000 0, R_to_ER 0x062E2000 0, R_to_ER 0x07300000 0,
    R_to_ER 0x07322000 0, R_to_ER 0x07340000 0, R_to_ER 0x07362000 0,
    R_to_ER 0x07380000 0, R_to_ER 0x073A2000 0, R_to_ER 0x073C0000 0,
    R_to_ER 0x073E2000 0, R_to_ER 0x08000000 0, R_to_ER 0x08022000 0,
    R_to_ER 0x08040000 0, R_to_ER 0x08062000 0, R_to_ER 0x08080000 0,
    R_to_ER 0x080A2000 0, R_to_ER 0x080C0000 0, R_to_ER 0x080E2000 0,
    R_to_ER 0x09100000 0, R_to_ER 0x09122000 0, R_to_ER 0x09140000 0,
    R_to_ER 0x09162000 0, R_to_ER 0x09180000 0, R_to_ER 0x091A2000 0,
    R_to_ER 0x091C0000 0, R_to_ER 0x091E2000 0, R_to_ER 0x0A200000 0,
    R_to_ER 0x0A222000 0, R_to_ER 0x0A240000 0, R_to_ER 0x0A262000 0,
    R_to_ER 0x0A280000 0, R_to_ER 0x0A2A2000 0, R_to_ER 0x0A2C0000 0,
    R_to_ER 0x0A2E2000 0, R_to_ER 0x0B300000 0, R_to_ER 0x0B322000 0,
    R_to_ER 0x0B340000 0, R_to_ER 0x0B362000 0, R_to_ER 0x0B380000 0,
    R_to_ER 0x0B3A2000 0, R_to_ER 0x0B3C0000 0, R_to_ER 0x0B3E2000 0,
    R_to_ER 0x0C000000 0, R_to_ER 0x0C022000 0, R_to_ER 0x0C040000 0,
    R_to_ER 0x0C062000 0, R_to_ER 0x0C080000 0, R_to_ER 0x0C0A2000 0,
    R_to_ER 0x0C0C0000 0, R_to_ER 0x0C0E2000 0, R_to_ER 0x0D100000 0,
    R_to_ER 0x0D122000 0, R_to_ER 0x0D140000 0, R_to_ER 0x0D162000 0,
    R_to_ER 0x0D180000 0, R_to_ER 0x0D1A2000 0, R_to_ER 0x0D1C0000 0,
    R_to_ER 0x0D1E2000 0, R_to_ER 0x0E200000 0, R_to_ER 0x0E222000 0,
    R_to_ER 0x0E240000 0, R_to_ER 0x0E262000 0, R_to_ER 0x0E280000 0,
    R_to_ER 0x0E2A2000 0, R_to_ER 0x0E2C0000 0, R_to_ER 0x0E2E2000 0,
    R_to_ER 0x0F300000 0, R_to_ER 0x0F322000 0, R_to_ER 0x0F340000 0,
    R_to_ER 0x0F362000 0, R_to_ER 0x0F380000 0, R_to_ER 0x0F3A2000 0,
    R_to_ER 0x0F3C0000 0, R_to_ER 0x0F3E2000 0, R_to_ER 0x10000000 0x00000001,
    R_to_ER 0x10022000 0x00000001, R_to_ER 0x10040000 0x00000001, R_to_ER 0x10062000 0x00000001,
    R_to_ER 0x10080000 0x00000001, R_to_ER 0x100A2000 0x00000001, R_to_ER 0x100C0000 0x00000001,
    R_to_ER 0x100E2000 0x00000001, R_to_ER 0x11100000 0x00000001, R_to_ER 0x11122000 0x00000001,
    R_to_ER 0x11140000 0x00000001, R_to_ER 0x11162000 0x00000001, R_to_ER 0x11180000 0x00000001,
    R_to_ER 0x111A2000 0x00000001, R_to_ER 0x111C0000 0x00000001, R_to_ER 0x111E2000 0x00000001,
    R_to_ER 0x12200000 0x00000001, R_to_ER 0x12222000 0x00000001, R_to_ER 0x12240000 0x00000001,
    R_to_ER 0x12262000 0x00000001, R_to_ER 0x12280000 0x00000001, R_to_ER 0x122A2000 0x00000001,
    R_to_ER 0x122C0000 0x00000001, R_to_ER 0x122E2000 0x00000001, R_to_ER 0x13300000 0x00000001,
    R_to_ER 0x13322000 0x00000001, R_to_ER 0x13340000 0x00000001, R_to_ER 0x13362000 0x00000001,
    R_to_ER 0x13380000 0x00000001, R_to_ER 0x133A2000 0x00000001, R_to_ER 0x133C0000 0x00000001,
    R_to_ER 0x133E2000 0x00000001, R_to_ER 0x14000000 0x00000001, R_to_ER 0x14022000 0x00000001,
    R_to_ER 0x14040000 0x00000001, R_to_ER 0x14062000 0x00000001, R_to_ER 0x14080000 0x00000001,
    R_to_ER 0x140A2000 0x00000001, R_to_ER 0x140C0000 0x00000001, R_to_ER 0x140E2000 0x00000001,
    R_to_ER 0x15100000 0x00000001, R_to_ER 0x15122000 0x00000001, R_to_ER 0x15140000 0x00000001,
    R_to_ER 0x15162000 0x00000001, R_to_ER 0x15180000 0x00000001, R_to_ER 0x151A2000 0x00000001,
    R_to_ER 0x151C0000 0x00000001, R_to_ER 0x151E2000 0x00000001, R_to_ER 0x16200000 0x00000001,
    R_to_ER 0x16222000 0x00000001, R_to_ER 0x16240000 0x00000001, R_to_ER 0x16262000 0x00000001,
    R_to_ER 0x16280000 0x00000001, R_to_ER 0x162A2000 0x00000001, R_to_ER 0x162C0000 0x00000001,
    R_to_ER 0x162E2000 0x00000001, R_to_ER 0x17300000 0x00000001, R_to_ER 0x17322000 0x00000001,
    R_to_ER 0x17340000 0x00000001, R_to_ER 0x17362000 0x00000001, R_to_ER 0x17380000 0x00000001,
    R_to_ER 0x173A2000 0x00000001, R_to_ER 0x173C0000 0x00000001, R_to_ER 0x173E2000 0x00000001,
    R_to_ER 0x18000000 0x00000001, R_to_ER 0x18022000 0x00000001, R_to_ER 0x18040000 0x00000001,
    R_to_ER 0x18062000 0x00000001, R_to_ER 0x18080000 0x00000001, R_to_ER 0x180A2000 0x00000001,
    R_to_ER 0x180C0000 0x00000001, R_to_ER 0x180E2000 0x00000001, R_to_ER 0x19100000 0x00000001,
    R_to_ER 0x19122000 0x00000001, R_to_ER 0x19140000 0x00000001, R_to_ER 0x19162000 0x00000001,
    R_to_ER 0x19180000 0x00000001, R_to_ER 0x191A2000 0x00000001, R_to_ER 0x191C0000 0x00000001,
    R_to_ER 0x191E2000 0x00000001, R_to_ER 0x1A200000 0x00000001, R_to_ER 0x1A222000 0x00000001,
    R_to_ER 0x1A240000 0x00000001, R_to_ER 0x1A262000 0x00000001, R_to_ER 0x1A280000 0x00000001,
    R_to_ER 0x1A2A2000 0x00000001, R_to_ER 0x1A2C0000 0x00000001, R_to_ER 0x1A2E2000 0x00000001,
    R_to_ER 0x1B300000 0x00000001, R_to_ER 0x1B322000 0x00000001, R_to_ER 0x1B340000 0x00000001,
    R_to_ER 0x1B362000 0x00000001, R_to_ER 0x1B380000 0x00000001, R_to_ER 0x1B3A2000 0x00000001,
    R_to_ER 0x1B3C0000 0x00000001, R_to_ER 0x1B3E2000 0x00000001, R_to_ER 0x1C000000 0x00000001,
    R_to_ER 0x1C022000 0x00000001, R_to_ER 0x1C040000 0x00000001, R_to_ER 0x1C062000 0x00000001,
    R_to_ER 0x1C080000 0x00000001, R_to_ER 0x1C0A2000 0x00000001, R_to_ER 0x1C0C0000 0x00000001,
    R_to_ER 0x1C0E2000 0x00000001, R_to_ER 0x1D100000 0x00000001, R_to_ER 0x1D122000 0x00000001,
    R_to_ER 0x1D140000 0x00000001, R_to_ER 0x1D162000 0x00000001, R_to_ER 0x1D180000 0x00000001,
    R_to_ER 0x1D1A2000 0x00000001, R_to_ER 0x1D1C0000 0x00000001, R_to_ER 0x1D1E2000 0x00000001,
    R_to_ER 0x1E200000 0x00000001, R_to_ER 0x1E222000 0x00000001, R_to_ER 0x1E240000 0x00000001,
    R_to_ER 0x1E262000 0x00000001, R_to_ER 0x1E280000 0x00000001, R_to_ER 0x1E2A2000 0x00000001,
    R_to_ER 0x1E2C0000 0x00000001, R_to_ER 0x1E2E2000 0x00000001, R_to_ER 0x1F300000 0x00000001,
    R_to_ER 0x1F322000 0x00000001, R_to_ER 0x1F340000 0x00000001, R_to_ER 0x1F362000 0x00000001,
    R_to_ER 0x1F380000 0x00000001, R_to_ER 0x1F3A2000 0x00000001, R_to_ER 0x1F3C0000 0x00000001,
    R_to_ER 0x1F3E2000 0x00000001]"

definition R_to_ER_tab_1 :: "R_to_ER list" where
  "R_to_ER_tab_1 = [
    R_to_ER 0 0, R_to_ER 0x00000002 0x20000000, R_to_ER 0x00000004 0,
    R_to_ER 0x00000006 0x20000000, R_to_ER 0x00000008 0, R_to_ER 0x0000000A 0x20000000,
    R_to_ER 0x0000000C 0, R_to_ER 0x0000000E 0x20000000, R_to_ER 0x00000110 0,
    R_to_ER 0x00000112 0x20000000, R_to_ER 0x00000114 0, R_to_ER 0x00000116 0x20000000,
    R_to_ER 0x00000118 0, R_to_ER 0x0000011A 0x20000000, R_to_ER 0x0000011C 0,
    R_to_ER 0x0000011E 0x20000000, R_to_ER 0x00000220 0, R_to_ER 0x00000222 0x20000000,
    R_to_ER 0x00000224 0, R_to_ER 0x00000226 0x20000000, R_to_ER 0x00000228 0,
    R_to_ER 0x0000022A 0x20000000, R_to_ER 0x0000022C 0, R_to_ER 0x0000022E 0x20000000,
    R_to_ER 0x00000330 0, R_to_ER 0x00000332 0x20000000, R_to_ER 0x00000334 0,
    R_to_ER 0x00000336 0x20000000, R_to_ER 0x00000338 0, R_to_ER 0x0000033A 0x20000000,
    R_to_ER 0x0000033C 0, R_to_ER 0x0000033E 0x20000000, R_to_ER 0x00000400 0,
    R_to_ER 0x00000402 0x20000000, R_to_ER 0x00000404 0, R_to_ER 0x00000406 0x20000000,
    R_to_ER 0x00000408 0, R_to_ER 0x0000040A 0x20000000, R_to_ER 0x0000040C 0,
    R_to_ER 0x0000040E 0x20000000, R_to_ER 0x00000510 0, R_to_ER 0x00000512 0x20000000,
    R_to_ER 0x00000514 0, R_to_ER 0x00000516 0x20000000, R_to_ER 0x00000518 0,
    R_to_ER 0x0000051A 0x20000000, R_to_ER 0x0000051C 0, R_to_ER 0x0000051E 0x20000000,
    R_to_ER 0x00000620 0, R_to_ER 0x00000622 0x20000000, R_to_ER 0x00000624 0,
    R_to_ER 0x00000626 0x20000000, R_to_ER 0x00000628 0, R_to_ER 0x0000062A 0x20000000,
    R_to_ER 0x0000062C 0, R_to_ER 0x0000062E 0x20000000, R_to_ER 0x00000730 0,
    R_to_ER 0x00000732 0x20000000, R_to_ER 0x00000734 0, R_to_ER 0x00000736 0x20000000,
    R_to_ER 0x00000738 0, R_to_ER 0x0000073A 0x20000000, R_to_ER 0x0000073C 0,
    R_to_ER 0x0000073E 0x20000000, R_to_ER 0x00000800 0, R_to_ER 0x00000802 0x20000000,
    R_to_ER 0x00000804 0, R_to_ER 0x00000806 0x20000000, R_to_ER 0x00000808 0,
    R_to_ER 0x0000080A 0x20000000, R_to_ER 0x0000080C 0, R_to_ER 0x0000080E 0x20000000,
    R_to_ER 0x00000910 0, R_to_ER 0x00000912 0x20000000, R_to_ER 0x00000914 0,
    R_to_ER 0x00000916 0x20000000, R_to_ER 0x00000918 0, R_to_ER 0x0000091A 0x20000000,
    R_to_ER 0x0000091C 0, R_to_ER 0x0000091E 0x20000000, R_to_ER 0x00000A20 0,
    R_to_ER 0x00000A22 0x20000000, R_to_ER 0x00000A24 0, R_to_ER 0x00000A26 0x20000000,
    R_to_ER 0x00000A28 0, R_to_ER 0x00000A2A 0x20000000, R_to_ER 0x00000A2C 0,
    R_to_ER 0x00000A2E 0x20000000, R_to_ER 0x00000B30 0, R_to_ER 0x00000B32 0x20000000,
    R_to_ER 0x00000B34 0, R_to_ER 0x00000B36 0x20000000, R_to_ER 0x00000B38 0,
    R_to_ER 0x00000B3A 0x20000000, R_to_ER 0x00000B3C 0, R_to_ER 0x00000B3E 0x20000000,
    R_to_ER 0x00000C00 0, R_to_ER 0x00000C02 0x20000000, R_to_ER 0x00000C04 0,
    R_to_ER 0x00000C06 0x20000000, R_to_ER 0x00000C08 0, R_to_ER 0x00000C0A 0x20000000,
    R_to_ER 0x00000C0C 0, R_to_ER 0x00000C0E 0x20000000, R_to_ER 0x00000D10 0,
    R_to_ER 0x00000D12 0x20000000, R_to_ER 0x00000D14 0, R_to_ER 0x00000D16 0x20000000,
    R_to_ER 0x00000D18 0, R_to_ER 0x00000D1A 0x20000000, R_to_ER 0x00000D1C 0,
    R_to_ER 0x00000D1E 0x20000000, R_to_ER 0x00000E20 0, R_to_ER 0x00000E22 0x20000000,
    R_to_ER 0x00000E24 0, R_to_ER 0x00000E26 0x20000000, R_to_ER 0x00000E28 0,
    R_to_ER 0x00000E2A 0x20000000, R_to_ER 0x00000E2C 0, R_to_ER 0x00000E2E 0x20000000,
    R_to_ER 0x00000F30 0, R_to_ER 0x00000F32 0x20000000, R_to_ER 0x00000F34 0,
    R_to_ER 0x00000F36 0x20000000, R_to_ER 0x00000F38 0, R_to_ER 0x00000F3A 0x20000000,
    R_to_ER 0x00000F3C 0, R_to_ER 0x00000F3E 0x20000000, R_to_ER 0x00011000 0,
    R_to_ER 0x00011002 0x20000000, R_to_ER 0x00011004 0, R_to_ER 0x00011006 0x20000000,
    R_to_ER 0x00011008 0, R_to_ER 0x0001100A 0x20000000, R_to_ER 0x0001100C 0,
    R_to_ER 0x0001100E 0x20000000, R_to_ER 0x00011110 0, R_to_ER 0x00011112 0x20000000,
    R_to_ER 0x00011114 0, R_to_ER 0x00011116 0x20000000, R_to_ER 0x00011118 0,
    R_to_ER 0x0001111A 0x20000000, R_to_ER 0x0001111C 0, R_to_ER 0x0001111E 0x20000000,
    R_to_ER 0x00011220 0, R_to_ER 0x00011222 0x20000000, R_to_ER 0x00011224 0,
    R_to_ER 0x00011226 0x20000000, R_to_ER 0x00011228 0, R_to_ER 0x0001122A 0x20000000,
    R_to_ER 0x0001122C 0, R_to_ER 0x0001122E 0x20000000, R_to_ER 0x00011330 0,
    R_to_ER 0x00011332 0x20000000, R_to_ER 0x00011334 0, R_to_ER 0x00011336 0x20000000,
    R_to_ER 0x00011338 0, R_to_ER 0x0001133A 0x20000000, R_to_ER 0x0001133C 0,
    R_to_ER 0x0001133E 0x20000000, R_to_ER 0x00011400 0, R_to_ER 0x00011402 0x20000000,
    R_to_ER 0x00011404 0, R_to_ER 0x00011406 0x20000000, R_to_ER 0x00011408 0,
    R_to_ER 0x0001140A 0x20000000, R_to_ER 0x0001140C 0, R_to_ER 0x0001140E 0x20000000,
    R_to_ER 0x00011510 0, R_to_ER 0x00011512 0x20000000, R_to_ER 0x00011514 0,
    R_to_ER 0x00011516 0x20000000, R_to_ER 0x00011518 0, R_to_ER 0x0001151A 0x20000000,
    R_to_ER 0x0001151C 0, R_to_ER 0x0001151E 0x20000000, R_to_ER 0x00011620 0,
    R_to_ER 0x00011622 0x20000000, R_to_ER 0x00011624 0, R_to_ER 0x00011626 0x20000000,
    R_to_ER 0x00011628 0, R_to_ER 0x0001162A 0x20000000, R_to_ER 0x0001162C 0,
    R_to_ER 0x0001162E 0x20000000, R_to_ER 0x00011730 0, R_to_ER 0x00011732 0x20000000,
    R_to_ER 0x00011734 0, R_to_ER 0x00011736 0x20000000, R_to_ER 0x00011738 0,
    R_to_ER 0x0001173A 0x20000000, R_to_ER 0x0001173C 0, R_to_ER 0x0001173E 0x20000000,
    R_to_ER 0x00011800 0, R_to_ER 0x00011802 0x20000000, R_to_ER 0x00011804 0,
    R_to_ER 0x00011806 0x20000000, R_to_ER 0x00011808 0, R_to_ER 0x0001180A 0x20000000,
    R_to_ER 0x0001180C 0, R_to_ER 0x0001180E 0x20000000, R_to_ER 0x00011910 0,
    R_to_ER 0x00011912 0x20000000, R_to_ER 0x00011914 0, R_to_ER 0x00011916 0x20000000,
    R_to_ER 0x00011918 0, R_to_ER 0x0001191A 0x20000000, R_to_ER 0x0001191C 0,
    R_to_ER 0x0001191E 0x20000000, R_to_ER 0x00011A20 0, R_to_ER 0x00011A22 0x20000000,
    R_to_ER 0x00011A24 0, R_to_ER 0x00011A26 0x20000000, R_to_ER 0x00011A28 0,
    R_to_ER 0x00011A2A 0x20000000, R_to_ER 0x00011A2C 0, R_to_ER 0x00011A2E 0x20000000,
    R_to_ER 0x00011B30 0, R_to_ER 0x00011B32 0x20000000, R_to_ER 0x00011B34 0,
    R_to_ER 0x00011B36 0x20000000, R_to_ER 0x00011B38 0, R_to_ER 0x00011B3A 0x20000000,
    R_to_ER 0x00011B3C 0, R_to_ER 0x00011B3E 0x20000000, R_to_ER 0x00011C00 0,
    R_to_ER 0x00011C02 0x20000000, R_to_ER 0x00011C04 0, R_to_ER 0x00011C06 0x20000000,
    R_to_ER 0x00011C08 0, R_to_ER 0x00011C0A 0x20000000, R_to_ER 0x00011C0C 0,
    R_to_ER 0x00011C0E 0x20000000, R_to_ER 0x00011D10 0, R_to_ER 0x00011D12 0x20000000,
    R_to_ER 0x00011D14 0, R_to_ER 0x00011D16 0x20000000, R_to_ER 0x00011D18 0,
    R_to_ER 0x00011D1A 0x20000000, R_to_ER 0x00011D1C 0, R_to_ER 0x00011D1E 0x20000000,
    R_to_ER 0x00011E20 0, R_to_ER 0x00011E22 0x20000000, R_to_ER 0x00011E24 0,
    R_to_ER 0x00011E26 0x20000000, R_to_ER 0x00011E28 0, R_to_ER 0x00011E2A 0x20000000,
    R_to_ER 0x00011E2C 0, R_to_ER 0x00011E2E 0x20000000, R_to_ER 0x00011F30 0,
    R_to_ER 0x00011F32 0x20000000, R_to_ER 0x00011F34 0, R_to_ER 0x00011F36 0x20000000,
    R_to_ER 0x00011F38 0, R_to_ER 0x00011F3A 0x20000000, R_to_ER 0x00011F3C 0,
    R_to_ER 0x00011F3E 0x20000000]"

definition R_to_ER_tab_2 :: "R_to_ER list" where
  "R_to_ER_tab_2 = [
    R_to_ER 0 0, R_to_ER 0 0x00022000, R_to_ER 0 0x00040000,
    R_to_ER 0 0x00062000, R_to_ER 0 0x00080000, R_to_ER 0 0x000A2000,
    R_to_ER 0 0x000C0000, R_to_ER 0 0x000E2000, R_to_ER 0 0x01100000,
    R_to_ER 0 0x01122000, R_to_ER 0 0x01140000, R_to_ER 0 0x01162000,
    R_to_ER 0 0x01180000, R_to_ER 0 0x011A2000, R_to_ER 0 0x011C0000,
    R_to_ER 0 0x011E2000, R_to_ER 0 0x02200000, R_to_ER 0 0x02222000,
    R_to_ER 0 0x02240000, R_to_ER 0 0x02262000, R_to_ER 0 0x02280000,
    R_to_ER 0 0x022A2000, R_to_ER 0 0x022C0000, R_to_ER 0 0x022E2000,
    R_to_ER 0 0x03300000, R_to_ER 0 0x03322000, R_to_ER 0 0x03340000,
    R_to_ER 0 0x03362000, R_to_ER 0 0x03380000, R_to_ER 0 0x033A2000,
    R_to_ER 0 0x033C0000, R_to_ER 0 0x033E2000, R_to_ER 0 0x04000000,
    R_to_ER 0 0x04022000, R_to_ER 0 0x04040000, R_to_ER 0 0x04062000,
    R_to_ER 0 0x04080000, R_to_ER 0 0x040A2000, R_to_ER 0 0x040C0000,
    R_to_ER 0 0x040E2000, R_to_ER 0 0x05100000, R_to_ER 0 0x05122000,
    R_to_ER 0 0x05140000, R_to_ER 0 0x05162000, R_to_ER 0 0x05180000,
    R_to_ER 0 0x051A2000, R_to_ER 0 0x051C0000, R_to_ER 0 0x051E2000,
    R_to_ER 0 0x06200000, R_to_ER 0 0x06222000, R_to_ER 0 0x06240000,
    R_to_ER 0 0x06262000, R_to_ER 0 0x06280000, R_to_ER 0 0x062A2000,
    R_to_ER 0 0x062C0000, R_to_ER 0 0x062E2000, R_to_ER 0 0x07300000,
    R_to_ER 0 0x07322000, R_to_ER 0 0x07340000, R_to_ER 0 0x07362000,
    R_to_ER 0 0x07380000, R_to_ER 0 0x073A2000, R_to_ER 0 0x073C0000,
    R_to_ER 0 0x073E2000, R_to_ER 0 0x08000000, R_to_ER 0 0x08022000,
    R_to_ER 0 0x08040000, R_to_ER 0 0x08062000, R_to_ER 0 0x08080000,
    R_to_ER 0 0x080A2000, R_to_ER 0 0x080C0000, R_to_ER 0 0x080E2000,
    R_to_ER 0 0x09100000, R_to_ER 0 0x09122000, R_to_ER 0 0x09140000,
    R_to_ER 0 0x09162000, R_to_ER 0 0x09180000, R_to_ER 0 0x091A2000,
    R_to_ER 0 0x091C0000, R_to_ER 0 0x091E2000, R_to_ER 0 0x0A200000,
    R_to_ER 0 0x0A222000, R_to_ER 0 0x0A240000, R_to_ER 0 0x0A262000,
    R_to_ER 0 0x0A280000, R_to_ER 0 0x0A2A2000, R_to_ER 0 0x0A2C0000,
    R_to_ER 0 0x0A2E2000, R_to_ER 0 0x0B300000, R_to_ER 0 0x0B322000,
    R_to_ER 0 0x0B340000, R_to_ER 0 0x0B362000, R_to_ER 0 0x0B380000,
    R_to_ER 0 0x0B3A2000, R_to_ER 0 0x0B3C0000, R_to_ER 0 0x0B3E2000,
    R_to_ER 0 0x0C000000, R_to_ER 0 0x0C022000, R_to_ER 0 0x0C040000,
    R_to_ER 0 0x0C062000, R_to_ER 0 0x0C080000, R_to_ER 0 0x0C0A2000,
    R_to_ER 0 0x0C0C0000, R_to_ER 0 0x0C0E2000, R_to_ER 0 0x0D100000,
    R_to_ER 0 0x0D122000, R_to_ER 0 0x0D140000, R_to_ER 0 0x0D162000,
    R_to_ER 0 0x0D180000, R_to_ER 0 0x0D1A2000, R_to_ER 0 0x0D1C0000,
    R_to_ER 0 0x0D1E2000, R_to_ER 0 0x0E200000, R_to_ER 0 0x0E222000,
    R_to_ER 0 0x0E240000, R_to_ER 0 0x0E262000, R_to_ER 0 0x0E280000,
    R_to_ER 0 0x0E2A2000, R_to_ER 0 0x0E2C0000, R_to_ER 0 0x0E2E2000,
    R_to_ER 0 0x0F300000, R_to_ER 0 0x0F322000, R_to_ER 0 0x0F340000,
    R_to_ER 0 0x0F362000, R_to_ER 0 0x0F380000, R_to_ER 0 0x0F3A2000,
    R_to_ER 0 0x0F3C0000, R_to_ER 0 0x0F3E2000, R_to_ER 0x00000001 0x10000000,
    R_to_ER 0x00000001 0x10022000, R_to_ER 0x00000001 0x10040000, R_to_ER 0x00000001 0x10062000,
    R_to_ER 0x00000001 0x10080000, R_to_ER 0x00000001 0x100A2000, R_to_ER 0x00000001 0x100C0000,
    R_to_ER 0x00000001 0x100E2000, R_to_ER 0x00000001 0x11100000, R_to_ER 0x00000001 0x11122000,
    R_to_ER 0x00000001 0x11140000, R_to_ER 0x00000001 0x11162000, R_to_ER 0x00000001 0x11180000,
    R_to_ER 0x00000001 0x111A2000, R_to_ER 0x00000001 0x111C0000, R_to_ER 0x00000001 0x111E2000,
    R_to_ER 0x00000001 0x12200000, R_to_ER 0x00000001 0x12222000, R_to_ER 0x00000001 0x12240000,
    R_to_ER 0x00000001 0x12262000, R_to_ER 0x00000001 0x12280000, R_to_ER 0x00000001 0x122A2000,
    R_to_ER 0x00000001 0x122C0000, R_to_ER 0x00000001 0x122E2000, R_to_ER 0x00000001 0x13300000,
    R_to_ER 0x00000001 0x13322000, R_to_ER 0x00000001 0x13340000, R_to_ER 0x00000001 0x13362000,
    R_to_ER 0x00000001 0x13380000, R_to_ER 0x00000001 0x133A2000, R_to_ER 0x00000001 0x133C0000,
    R_to_ER 0x00000001 0x133E2000, R_to_ER 0x00000001 0x14000000, R_to_ER 0x00000001 0x14022000,
    R_to_ER 0x00000001 0x14040000, R_to_ER 0x00000001 0x14062000, R_to_ER 0x00000001 0x14080000,
    R_to_ER 0x00000001 0x140A2000, R_to_ER 0x00000001 0x140C0000, R_to_ER 0x00000001 0x140E2000,
    R_to_ER 0x00000001 0x15100000, R_to_ER 0x00000001 0x15122000, R_to_ER 0x00000001 0x15140000,
    R_to_ER 0x00000001 0x15162000, R_to_ER 0x00000001 0x15180000, R_to_ER 0x00000001 0x151A2000,
    R_to_ER 0x00000001 0x151C0000, R_to_ER 0x00000001 0x151E2000, R_to_ER 0x00000001 0x16200000,
    R_to_ER 0x00000001 0x16222000, R_to_ER 0x00000001 0x16240000, R_to_ER 0x00000001 0x16262000,
    R_to_ER 0x00000001 0x16280000, R_to_ER 0x00000001 0x162A2000, R_to_ER 0x00000001 0x162C0000,
    R_to_ER 0x00000001 0x162E2000, R_to_ER 0x00000001 0x17300000, R_to_ER 0x00000001 0x17322000,
    R_to_ER 0x00000001 0x17340000, R_to_ER 0x00000001 0x17362000, R_to_ER 0x00000001 0x17380000,
    R_to_ER 0x00000001 0x173A2000, R_to_ER 0x00000001 0x173C0000, R_to_ER 0x00000001 0x173E2000,
    R_to_ER 0x00000001 0x18000000, R_to_ER 0x00000001 0x18022000, R_to_ER 0x00000001 0x18040000,
    R_to_ER 0x00000001 0x18062000, R_to_ER 0x00000001 0x18080000, R_to_ER 0x00000001 0x180A2000,
    R_to_ER 0x00000001 0x180C0000, R_to_ER 0x00000001 0x180E2000, R_to_ER 0x00000001 0x19100000,
    R_to_ER 0x00000001 0x19122000, R_to_ER 0x00000001 0x19140000, R_to_ER 0x00000001 0x19162000,
    R_to_ER 0x00000001 0x19180000, R_to_ER 0x00000001 0x191A2000, R_to_ER 0x00000001 0x191C0000,
    R_to_ER 0x00000001 0x191E2000, R_to_ER 0x00000001 0x1A200000, R_to_ER 0x00000001 0x1A222000,
    R_to_ER 0x00000001 0x1A240000, R_to_ER 0x00000001 0x1A262000, R_to_ER 0x00000001 0x1A280000,
    R_to_ER 0x00000001 0x1A2A2000, R_to_ER 0x00000001 0x1A2C0000, R_to_ER 0x00000001 0x1A2E2000,
    R_to_ER 0x00000001 0x1B300000, R_to_ER 0x00000001 0x1B322000, R_to_ER 0x00000001 0x1B340000,
    R_to_ER 0x00000001 0x1B362000, R_to_ER 0x00000001 0x1B380000, R_to_ER 0x00000001 0x1B3A2000,
    R_to_ER 0x00000001 0x1B3C0000, R_to_ER 0x00000001 0x1B3E2000, R_to_ER 0x00000001 0x1C000000,
    R_to_ER 0x00000001 0x1C022000, R_to_ER 0x00000001 0x1C040000, R_to_ER 0x00000001 0x1C062000,
    R_to_ER 0x00000001 0x1C080000, R_to_ER 0x00000001 0x1C0A2000, R_to_ER 0x00000001 0x1C0C0000,
    R_to_ER 0x00000001 0x1C0E2000, R_to_ER 0x00000001 0x1D100000, R_to_ER 0x00000001 0x1D122000,
    R_to_ER 0x00000001 0x1D140000, R_to_ER 0x00000001 0x1D162000, R_to_ER 0x00000001 0x1D180000,
    R_to_ER 0x00000001 0x1D1A2000, R_to_ER 0x00000001 0x1D1C0000, R_to_ER 0x00000001 0x1D1E2000,
    R_to_ER 0x00000001 0x1E200000, R_to_ER 0x00000001 0x1E222000, R_to_ER 0x00000001 0x1E240000,
    R_to_ER 0x00000001 0x1E262000, R_to_ER 0x00000001 0x1E280000, R_to_ER 0x00000001 0x1E2A2000,
    R_to_ER 0x00000001 0x1E2C0000, R_to_ER 0x00000001 0x1E2E2000, R_to_ER 0x00000001 0x1F300000,
    R_to_ER 0x00000001 0x1F322000, R_to_ER 0x00000001 0x1F340000, R_to_ER 0x00000001 0x1F362000,
    R_to_ER 0x00000001 0x1F380000, R_to_ER 0x00000001 0x1F3A2000, R_to_ER 0x00000001 0x1F3C0000,
    R_to_ER 0x00000001 0x1F3E2000]"

definition R_to_ER_tab_3 :: "R_to_ER list" where
  "R_to_ER_tab_3 = [
    R_to_ER 0 0, R_to_ER 0x20000000 0x00000002, R_to_ER 0 0x00000004,
    R_to_ER 0x20000000 0x00000006, R_to_ER 0 0x00000008, R_to_ER 0x20000000 0x0000000A,
    R_to_ER 0 0x0000000C, R_to_ER 0x20000000 0x0000000E, R_to_ER 0 0x00000110,
    R_to_ER 0x20000000 0x00000112, R_to_ER 0 0x00000114, R_to_ER 0x20000000 0x00000116,
    R_to_ER 0 0x00000118, R_to_ER 0x20000000 0x0000011A, R_to_ER 0 0x0000011C,
    R_to_ER 0x20000000 0x0000011E, R_to_ER 0 0x00000220, R_to_ER 0x20000000 0x00000222,
    R_to_ER 0 0x00000224, R_to_ER 0x20000000 0x00000226, R_to_ER 0 0x00000228,
    R_to_ER 0x20000000 0x0000022A, R_to_ER 0 0x0000022C, R_to_ER 0x20000000 0x0000022E,
    R_to_ER 0 0x00000330, R_to_ER 0x20000000 0x00000332, R_to_ER 0 0x00000334,
    R_to_ER 0x20000000 0x00000336, R_to_ER 0 0x00000338, R_to_ER 0x20000000 0x0000033A,
    R_to_ER 0 0x0000033C, R_to_ER 0x20000000 0x0000033E, R_to_ER 0 0x00000400,
    R_to_ER 0x20000000 0x00000402, R_to_ER 0 0x00000404, R_to_ER 0x20000000 0x00000406,
    R_to_ER 0 0x00000408, R_to_ER 0x20000000 0x0000040A, R_to_ER 0 0x0000040C,
    R_to_ER 0x20000000 0x0000040E, R_to_ER 0 0x00000510, R_to_ER 0x20000000 0x00000512,
    R_to_ER 0 0x00000514, R_to_ER 0x20000000 0x00000516, R_to_ER 0 0x00000518,
    R_to_ER 0x20000000 0x0000051A, R_to_ER 0 0x0000051C, R_to_ER 0x20000000 0x0000051E,
    R_to_ER 0 0x00000620, R_to_ER 0x20000000 0x00000622, R_to_ER 0 0x00000624,
    R_to_ER 0x20000000 0x00000626, R_to_ER 0 0x00000628, R_to_ER 0x20000000 0x0000062A,
    R_to_ER 0 0x0000062C, R_to_ER 0x20000000 0x0000062E, R_to_ER 0 0x00000730,
    R_to_ER 0x20000000 0x00000732, R_to_ER 0 0x00000734, R_to_ER 0x20000000 0x00000736,
    R_to_ER 0 0x00000738, R_to_ER 0x20000000 0x0000073A, R_to_ER 0 0x0000073C,
    R_to_ER 0x20000000 0x0000073E, R_to_ER 0 0x00000800, R_to_ER 0x20000000 0x00000802,
    R_to_ER 0 0x00000804, R_to_ER 0x20000000 0x00000806, R_to_ER 0 0x00000808,
    R_to_ER 0x20000000 0x0000080A, R_to_ER 0 0x0000080C, R_to_ER 0x20000000 0x0000080E,
    R_to_ER 0 0x00000910, R_to_ER 0x20000000 0x00000912, R_to_ER 0 0x00000914,
    R_to_ER 0x20000000 0x00000916, R_to_ER 0 0x00000918, R_to_ER 0x20000000 0x0000091A,
    R_to_ER 0 0x0000091C, R_to_ER 0x20000000 0x0000091E, R_to_ER 0 0x00000A20,
    R_to_ER 0x20000000 0x00000A22, R_to_ER 0 0x00000A24, R_to_ER 0x20000000 0x00000A26,
    R_to_ER 0 0x00000A28, R_to_ER 0x20000000 0x00000A2A, R_to_ER 0 0x00000A2C,
    R_to_ER 0x20000000 0x00000A2E, R_to_ER 0 0x00000B30, R_to_ER 0x20000000 0x00000B32,
    R_to_ER 0 0x00000B34, R_to_ER 0x20000000 0x00000B36, R_to_ER 0 0x00000B38,
    R_to_ER 0x20000000 0x00000B3A, R_to_ER 0 0x00000B3C, R_to_ER 0x20000000 0x00000B3E,
    R_to_ER 0 0x00000C00, R_to_ER 0x20000000 0x00000C02, R_to_ER 0 0x00000C04,
    R_to_ER 0x20000000 0x00000C06, R_to_ER 0 0x00000C08, R_to_ER 0x20000000 0x00000C0A,
    R_to_ER 0 0x00000C0C, R_to_ER 0x20000000 0x00000C0E, R_to_ER 0 0x00000D10,
    R_to_ER 0x20000000 0x00000D12, R_to_ER 0 0x00000D14, R_to_ER 0x20000000 0x00000D16,
    R_to_ER 0 0x00000D18, R_to_ER 0x20000000 0x00000D1A, R_to_ER 0 0x00000D1C,
    R_to_ER 0x20000000 0x00000D1E, R_to_ER 0 0x00000E20, R_to_ER 0x20000000 0x00000E22,
    R_to_ER 0 0x00000E24, R_to_ER 0x20000000 0x00000E26, R_to_ER 0 0x00000E28,
    R_to_ER 0x20000000 0x00000E2A, R_to_ER 0 0x00000E2C, R_to_ER 0x20000000 0x00000E2E,
    R_to_ER 0 0x00000F30, R_to_ER 0x20000000 0x00000F32, R_to_ER 0 0x00000F34,
    R_to_ER 0x20000000 0x00000F36, R_to_ER 0 0x00000F38, R_to_ER 0x20000000 0x00000F3A,
    R_to_ER 0 0x00000F3C, R_to_ER 0x20000000 0x00000F3E, R_to_ER 0 0x00011000,
    R_to_ER 0x20000000 0x00011002, R_to_ER 0 0x00011004, R_to_ER 0x20000000 0x00011006,
    R_to_ER 0 0x00011008, R_to_ER 0x20000000 0x0001100A, R_to_ER 0 0x0001100C,
    R_to_ER 0x20000000 0x0001100E, R_to_ER 0 0x00011110, R_to_ER 0x20000000 0x00011112,
    R_to_ER 0 0x00011114, R_to_ER 0x20000000 0x00011116, R_to_ER 0 0x00011118,
    R_to_ER 0x20000000 0x0001111A, R_to_ER 0 0x0001111C, R_to_ER 0x20000000 0x0001111E,
    R_to_ER 0 0x00011220, R_to_ER 0x20000000 0x00011222, R_to_ER 0 0x00011224,
    R_to_ER 0x20000000 0x00011226, R_to_ER 0 0x00011228, R_to_ER 0x20000000 0x0001122A,
    R_to_ER 0 0x0001122C, R_to_ER 0x20000000 0x0001122E, R_to_ER 0 0x00011330,
    R_to_ER 0x20000000 0x00011332, R_to_ER 0 0x00011334, R_to_ER 0x20000000 0x00011336,
    R_to_ER 0 0x00011338, R_to_ER 0x20000000 0x0001133A, R_to_ER 0 0x0001133C,
    R_to_ER 0x20000000 0x0001133E, R_to_ER 0 0x00011400, R_to_ER 0x20000000 0x00011402,
    R_to_ER 0 0x00011404, R_to_ER 0x20000000 0x00011406, R_to_ER 0 0x00011408,
    R_to_ER 0x20000000 0x0001140A, R_to_ER 0 0x0001140C, R_to_ER 0x20000000 0x0001140E,
    R_to_ER 0 0x00011510, R_to_ER 0x20000000 0x00011512, R_to_ER 0 0x00011514,
    R_to_ER 0x20000000 0x00011516, R_to_ER 0 0x00011518, R_to_ER 0x20000000 0x0001151A,
    R_to_ER 0 0x0001151C, R_to_ER 0x20000000 0x0001151E, R_to_ER 0 0x00011620,
    R_to_ER 0x20000000 0x00011622, R_to_ER 0 0x00011624, R_to_ER 0x20000000 0x00011626,
    R_to_ER 0 0x00011628, R_to_ER 0x20000000 0x0001162A, R_to_ER 0 0x0001162C,
    R_to_ER 0x20000000 0x0001162E, R_to_ER 0 0x00011730, R_to_ER 0x20000000 0x00011732,
    R_to_ER 0 0x00011734, R_to_ER 0x20000000 0x00011736, R_to_ER 0 0x00011738,
    R_to_ER 0x20000000 0x0001173A, R_to_ER 0 0x0001173C, R_to_ER 0x20000000 0x0001173E,
    R_to_ER 0 0x00011800, R_to_ER 0x20000000 0x00011802, R_to_ER 0 0x00011804,
    R_to_ER 0x20000000 0x00011806, R_to_ER 0 0x00011808, R_to_ER 0x20000000 0x0001180A,
    R_to_ER 0 0x0001180C, R_to_ER 0x20000000 0x0001180E, R_to_ER 0 0x00011910,
    R_to_ER 0x20000000 0x00011912, R_to_ER 0 0x00011914, R_to_ER 0x20000000 0x00011916,
    R_to_ER 0 0x00011918, R_to_ER 0x20000000 0x0001191A, R_to_ER 0 0x0001191C,
    R_to_ER 0x20000000 0x0001191E, R_to_ER 0 0x00011A20, R_to_ER 0x20000000 0x00011A22,
    R_to_ER 0 0x00011A24, R_to_ER 0x20000000 0x00011A26, R_to_ER 0 0x00011A28,
    R_to_ER 0x20000000 0x00011A2A, R_to_ER 0 0x00011A2C, R_to_ER 0x20000000 0x00011A2E,
    R_to_ER 0 0x00011B30, R_to_ER 0x20000000 0x00011B32, R_to_ER 0 0x00011B34,
    R_to_ER 0x20000000 0x00011B36, R_to_ER 0 0x00011B38, R_to_ER 0x20000000 0x00011B3A,
    R_to_ER 0 0x00011B3C, R_to_ER 0x20000000 0x00011B3E, R_to_ER 0 0x00011C00,
    R_to_ER 0x20000000 0x00011C02, R_to_ER 0 0x00011C04, R_to_ER 0x20000000 0x00011C06,
    R_to_ER 0 0x00011C08, R_to_ER 0x20000000 0x00011C0A, R_to_ER 0 0x00011C0C,
    R_to_ER 0x20000000 0x00011C0E, R_to_ER 0 0x00011D10, R_to_ER 0x20000000 0x00011D12,
    R_to_ER 0 0x00011D14, R_to_ER 0x20000000 0x00011D16, R_to_ER 0 0x00011D18,
    R_to_ER 0x20000000 0x00011D1A, R_to_ER 0 0x00011D1C, R_to_ER 0x20000000 0x00011D1E,
    R_to_ER 0 0x00011E20, R_to_ER 0x20000000 0x00011E22, R_to_ER 0 0x00011E24,
    R_to_ER 0x20000000 0x00011E26, R_to_ER 0 0x00011E28, R_to_ER 0x20000000 0x00011E2A,
    R_to_ER 0 0x00011E2C, R_to_ER 0x20000000 0x00011E2E, R_to_ER 0 0x00011F30,
    R_to_ER 0x20000000 0x00011F32, R_to_ER 0 0x00011F34, R_to_ER 0x20000000 0x00011F36,
    R_to_ER 0 0x00011F38, R_to_ER 0x20000000 0x00011F3A, R_to_ER 0 0x00011F3C,
    R_to_ER 0x20000000 0x00011F3E]"

definition R_to_ER_tab :: "R_to_ER list list" where
  "R_to_ER_tab = [R_to_ER_tab_0, R_to_ER_tab_1, R_to_ER_tab_2, R_to_ER_tab_3]"

definition S_tab_0 :: "u32 list" where
  "S_tab_0 = [
    0xE0000000, 0, 0x40000000, 0xF0000000, 0xD0000000, 0x70000000,
    0x10000000, 0x40000000, 0x20000000, 0xE0000000, 0xF0000000, 0x20000000,
    0xB0000000, 0xD0000000, 0x80000000, 0x10000000, 0x30000000, 0xA0000000,
    0xA0000000, 0x60000000, 0x60000000, 0xC0000000, 0xC0000000, 0xB0000000,
    0x50000000, 0x90000000, 0x90000000, 0x50000000, 0, 0x30000000,
    0x70000000, 0x80000000, 0x40000000, 0xF0000000, 0x10000000, 0xC0000000,
    0xE0000000, 0x80000000, 0x80000000, 0x20000000, 0xD0000000, 0x40000000,
    0x60000000, 0x90000000, 0x20000000, 0x10000000, 0xB0000000, 0x70000000,
    0xF0000000, 0x50000000, 0xC0000000, 0xB0000000, 0x90000000, 0x30000000,
    0x70000000, 0xE0000000, 0x30000000, 0xA0000000, 0xA0000000, 0,
    0x50000000, 0x60000000, 0, 0xD0000000]"

definition S_tab_1 :: "u32 list" where
  "S_tab_1 = [
    0x0F000000, 0x03000000, 0x01000000, 0x0D000000, 0x08000000, 0x04000000,
    0x0E000000, 0x07000000, 0x06000000, 0x0F000000, 0x0B000000, 0x02000000,
    0x03000000, 0x08000000, 0x04000000, 0x0E000000, 0x09000000, 0x0C000000,
    0x07000000, 0, 0x02000000, 0x01000000, 0x0D000000, 0x0A000000,
    0x0C000000, 0x06000000, 0, 0x09000000, 0x05000000, 0x0B000000,
    0x0A000000, 0x05000000, 0, 0x0D000000, 0x0E000000, 0x08000000,
    0x07000000, 0x0A000000, 0x0B000000, 0x01000000, 0x0A000000, 0x03000000,
    0x04000000, 0x0F000000, 0x0D000000, 0x04000000, 0x01000000, 0x02000000,
    0x05000000, 0x0B000000, 0x08000000, 0x06000000, 0x0C000000, 0x07000000,
    0x06000000, 0x0C000000, 0x09000000, 0, 0x03000000, 0x05000000,
    0x02000000, 0x0E000000, 0x0F000000, 0x09000000]"

definition S_tab_2 :: "u32 list" where
  "S_tab_2 = [
    0x00A00000, 0x00D00000, 0, 0x00700000, 0x00900000, 0,
    0x00E00000, 0x00900000, 0x00600000, 0x00300000, 0x00300000, 0x00400000,
    0x00F00000, 0x00600000, 0x00500000, 0x00A00000, 0x00100000, 0x00200000,
    0x00D00000, 0x00800000, 0x00C00000, 0x00500000, 0x00700000, 0x00E00000,
    0x00B00000, 0x00C00000, 0x00400000, 0x00B00000, 0x00200000, 0x00F00000,
    0x00800000, 0x00100000, 0x00D00000, 0x00100000, 0x00600000, 0x00A00000,
    0x00400000, 0x00D00000, 0x00900000, 0, 0x00800000, 0x00600000,
    0x00F00000, 0x00900000, 0x00300000, 0x00800000, 0, 0x00700000,
    0x00B00000, 0x00400000, 0x00100000, 0x00F00000, 0x00200000, 0x00E00000,
    0x00C00000, 0x00300000, 0x00500000, 0x00B00000, 0x00A00000, 0x00500000,
    0x00E00000, 0x00200000, 0x00700000, 0x00C00000]"

definition S_tab_3 :: "u32 list" where
  "S_tab_3 = [
    0x00070000, 0x000D0000, 0x000D0000, 0x00080000, 0x000E0000, 0x000B0000,
    0x00030000, 0x00050000, 0, 0x00060000, 0x00060000, 0x000F0000,
    0x00090000, 0, 0x000A0000, 0x00030000, 0x00010000, 0x00040000,
    0x00020000, 0x00070000, 0x00080000, 0x00020000, 0x00050000, 0x000C0000,
    0x000B0000, 0x00010000, 0x000C0000, 0x000A0000, 0x00040000, 0x000E0000,
    0x000F0000, 0x00090000, 0x000A0000, 0x00030000, 0x00060000, 0x000F0000,
    0x00090000, 0, 0, 0x00060000, 0x000C0000, 0x000A0000,
    0x000B0000, 0x00010000, 0x00070000, 0x000D0000, 0x000D0000, 0x00080000,
    0x000F0000, 0x00090000, 0x00010000, 0x00040000, 0x00030000, 0x00050000,
    0x000E0000, 0x000B0000, 0x00050000, 0x000C0000, 0x00020000, 0x00070000,
    0x00080000, 0x00020000, 0x00040000, 0x000E0000]"

definition S_tab_4 :: "u32 list" where
  "S_tab_4 = [
    0x00002000, 0x0000E000, 0x0000C000, 0x0000B000, 0x00004000, 0x00002000,
    0x00001000, 0x0000C000, 0x00007000, 0x00004000, 0x0000A000, 0x00007000,
    0x0000B000, 0x0000D000, 0x00006000, 0x00001000, 0x00008000, 0x00005000,
    0x00005000, 0, 0x00003000, 0x0000F000, 0x0000F000, 0x0000A000,
    0x0000D000, 0x00003000, 0, 0x00009000, 0x0000E000, 0x00008000,
    0x00009000, 0x00006000, 0x00004000, 0x0000B000, 0x00002000, 0x00008000,
    0x00001000, 0x0000C000, 0x0000B000, 0x00007000, 0x0000A000, 0x00001000,
    0x0000D000, 0x0000E000, 0x00007000, 0x00002000, 0x00008000, 0x0000D000,
    0x0000F000, 0x00006000, 0x00009000, 0x0000F000, 0x0000C000, 0,
    0x00005000, 0x00009000, 0x00006000, 0x0000A000, 0x00003000, 0x00004000,
    0, 0x00005000, 0x0000E000, 0x00003000]"

definition S_tab_5 :: "u32 list" where
  "S_tab_5 = [
    0x00000C00, 0x00000A00, 0x00000100, 0x00000F00, 0x00000A00, 0x00000400,
    0x00000F00, 0x00000200, 0x00000900, 0x00000700, 0x00000200, 0x00000C00,
    0x00000600, 0x00000900, 0x00000800, 0x00000500, 0, 0x00000600,
    0x00000D00, 0x00000100, 0x00000300, 0x00000D00, 0x00000400, 0x00000E00,
    0x00000E00, 0, 0x00000700, 0x00000B00, 0x00000500, 0x00000300,
    0x00000B00, 0x00000800, 0x00000900, 0x00000400, 0x00000E00, 0x00000300,
    0x00000F00, 0x00000200, 0x00000500, 0x00000C00, 0x00000200, 0x00000900,
    0x00000800, 0x00000500, 0x00000C00, 0x00000F00, 0x00000300, 0x00000A00,
    0x00000700, 0x00000B00, 0, 0x00000E00, 0x00000400, 0x00000100,
    0x00000A00, 0x00000700, 0x00000100, 0x00000600, 0x00000D00, 0,
    0x00000B00, 0x00000800, 0x00000600, 0x00000D00]"

definition S_tab_6 :: "u32 list" where
  "S_tab_6 = [
    0x00000040, 0x000000D0, 0x000000B0, 0, 0x00000020, 0x000000B0,
    0x000000E0, 0x00000070, 0x000000F0, 0x00000040, 0, 0x00000090,
    0x00000080, 0x00000010, 0x000000D0, 0x000000A0, 0x00000030, 0x000000E0,
    0x000000C0, 0x00000030, 0x00000090, 0x00000050, 0x00000070, 0x000000C0,
    0x00000050, 0x00000020, 0x000000A0, 0x000000F0, 0x00000060, 0x00000080,
    0x00000010, 0x00000060, 0x00000010, 0x00000060, 0x00000040, 0x000000B0,
    0x000000B0, 0x000000D0, 0x000000D0, 0x00000080, 0x000000C0, 0x00000010,
    0x00000030, 0x00000040, 0x00000070, 0x000000A0, 0x000000E0, 0x00000070,
    0x000000A0, 0x00000090, 0x000000F0, 0x00000050, 0x00000060, 0,
    0x00000080, 0x000000F0, 0, 0x000000E0, 0x00000050, 0x00000020,
    0x00000090, 0x00000030, 0x00000020, 0x000000C0]"

definition S_tab_7 :: "u32 list" where
  "S_tab_7 = [
    0x0000000D, 0x00000001, 0x00000002, 0x0000000F, 0x00000008, 0x0000000D,
    0x00000004, 0x00000008, 0x00000006, 0x0000000A, 0x0000000F, 0x00000003,
    0x0000000B, 0x00000007, 0x00000001, 0x00000004, 0x0000000A, 0x0000000C,
    0x00000009, 0x00000005, 0x00000003, 0x00000006, 0x0000000E, 0x0000000B,
    0x00000005, 0, 0, 0x0000000E, 0x0000000C, 0x00000009,
    0x00000007, 0x00000002, 0x00000007, 0x00000002, 0x0000000B, 0x00000001,
    0x00000004, 0x0000000E, 0x00000001, 0x00000007, 0x00000009, 0x00000004,
    0x0000000C, 0x0000000A, 0x0000000E, 0x00000008, 0x00000002, 0x0000000D,
    0, 0x0000000F, 0x00000006, 0x0000000C, 0x0000000A, 0x00000009,
    0x0000000D, 0, 0x0000000F, 0x00000003, 0x00000003, 0x00000005,
    0x00000005, 0x00000006, 0x00000008, 0x0000000B]"

definition S_tab :: "u32 list list" where
  "S_tab = [S_tab_0, S_tab_1, S_tab_2, S_tab_3, S_tab_4, S_tab_5, S_tab_6, S_tab_7]"

definition P_tab_0 :: "u32 list" where
  "P_tab_0 = [
    0, 0x00004000, 0x40000000, 0x40004000, 0x00000010, 0x00004010,
    0x40000010, 0x40004010, 0x00080000, 0x00084000, 0x40080000, 0x40084000,
    0x00080010, 0x00084010, 0x40080010, 0x40084010, 0x00000002, 0x00004002,
    0x40000002, 0x40004002, 0x00000012, 0x00004012, 0x40000012, 0x40004012,
    0x00080002, 0x00084002, 0x40080002, 0x40084002, 0x00080012, 0x00084012,
    0x40080012, 0x40084012, 0x00000200, 0x00004200, 0x40000200, 0x40004200,
    0x00000210, 0x00004210, 0x40000210, 0x40004210, 0x00080200, 0x00084200,
    0x40080200, 0x40084200, 0x00080210, 0x00084210, 0x40080210, 0x40084210,
    0x00000202, 0x00004202, 0x40000202, 0x40004202, 0x00000212, 0x00004212,
    0x40000212, 0x40004212, 0x00080202, 0x00084202, 0x40080202, 0x40084202,
    0x00080212, 0x00084212, 0x40080212, 0x40084212, 0x00008000, 0x0000C000,
    0x40008000, 0x4000C000, 0x00008010, 0x0000C010, 0x40008010, 0x4000C010,
    0x00088000, 0x0008C000, 0x40088000, 0x4008C000, 0x00088010, 0x0008C010,
    0x40088010, 0x4008C010, 0x00008002, 0x0000C002, 0x40008002, 0x4000C002,
    0x00008012, 0x0000C012, 0x40008012, 0x4000C012, 0x00088002, 0x0008C002,
    0x40088002, 0x4008C002, 0x00088012, 0x0008C012, 0x40088012, 0x4008C012,
    0x00008200, 0x0000C200, 0x40008200, 0x4000C200, 0x00008210, 0x0000C210,
    0x40008210, 0x4000C210, 0x00088200, 0x0008C200, 0x40088200, 0x4008C200,
    0x00088210, 0x0008C210, 0x40088210, 0x4008C210, 0x00008202, 0x0000C202,
    0x40008202, 0x4000C202, 0x00008212, 0x0000C212, 0x40008212, 0x4000C212,
    0x00088202, 0x0008C202, 0x40088202, 0x4008C202, 0x00088212, 0x0008C212,
    0x40088212, 0x4008C212, 0x00800000, 0x00804000, 0x40800000, 0x40804000,
    0x00800010, 0x00804010, 0x40800010, 0x40804010, 0x00880000, 0x00884000,
    0x40880000, 0x40884000, 0x00880010, 0x00884010, 0x40880010, 0x40884010,
    0x00800002, 0x00804002, 0x40800002, 0x40804002, 0x00800012, 0x00804012,
    0x40800012, 0x40804012, 0x00880002, 0x00884002, 0x40880002, 0x40884002,
    0x00880012, 0x00884012, 0x40880012, 0x40884012, 0x00800200, 0x00804200,
    0x40800200, 0x40804200, 0x00800210, 0x00804210, 0x40800210, 0x40804210,
    0x00880200, 0x00884200, 0x40880200, 0x40884200, 0x00880210, 0x00884210,
    0x40880210, 0x40884210, 0x00800202, 0x00804202, 0x40800202, 0x40804202,
    0x00800212, 0x00804212, 0x40800212, 0x40804212, 0x00880202, 0x00884202,
    0x40880202, 0x40884202, 0x00880212, 0x00884212, 0x40880212, 0x40884212,
    0x00808000, 0x0080C000, 0x40808000, 0x4080C000, 0x00808010, 0x0080C010,
    0x40808010, 0x4080C010, 0x00888000, 0x0088C000, 0x40888000, 0x4088C000,
    0x00888010, 0x0088C010, 0x40888010, 0x4088C010, 0x00808002, 0x0080C002,
    0x40808002, 0x4080C002, 0x00808012, 0x0080C012, 0x40808012, 0x4080C012,
    0x00888002, 0x0088C002, 0x40888002, 0x4088C002, 0x00888012, 0x0088C012,
    0x40888012, 0x4088C012, 0x00808200, 0x0080C200, 0x40808200, 0x4080C200,
    0x00808210, 0x0080C210, 0x40808210, 0x4080C210, 0x00888200, 0x0088C200,
    0x40888200, 0x4088C200, 0x00888210, 0x0088C210, 0x40888210, 0x4088C210,
    0x00808202, 0x0080C202, 0x40808202, 0x4080C202, 0x00808212, 0x0080C212,
    0x40808212, 0x4080C212, 0x00888202, 0x0088C202, 0x40888202, 0x4088C202,
    0x00888212, 0x0088C212, 0x40888212, 0x4088C212]"

definition P_tab_1 :: "u32 list" where
  "P_tab_1 = [
    0, 0x80000000, 0x00400000, 0x80400000, 0x00001000, 0x80001000,
    0x00401000, 0x80401000, 0x00000040, 0x80000040, 0x00400040, 0x80400040,
    0x00001040, 0x80001040, 0x00401040, 0x80401040, 0x04000000, 0x84000000,
    0x04400000, 0x84400000, 0x04001000, 0x84001000, 0x04401000, 0x84401000,
    0x04000040, 0x84000040, 0x04400040, 0x84400040, 0x04001040, 0x84001040,
    0x04401040, 0x84401040, 0x00000004, 0x80000004, 0x00400004, 0x80400004,
    0x00001004, 0x80001004, 0x00401004, 0x80401004, 0x00000044, 0x80000044,
    0x00400044, 0x80400044, 0x00001044, 0x80001044, 0x00401044, 0x80401044,
    0x04000004, 0x84000004, 0x04400004, 0x84400004, 0x04001004, 0x84001004,
    0x04401004, 0x84401004, 0x04000044, 0x84000044, 0x04400044, 0x84400044,
    0x04001044, 0x84001044, 0x04401044, 0x84401044, 0x00010000, 0x80010000,
    0x00410000, 0x80410000, 0x00011000, 0x80011000, 0x00411000, 0x80411000,
    0x00010040, 0x80010040, 0x00410040, 0x80410040, 0x00011040, 0x80011040,
    0x00411040, 0x80411040, 0x04010000, 0x84010000, 0x04410000, 0x84410000,
    0x04011000, 0x84011000, 0x04411000, 0x84411000, 0x04010040, 0x84010040,
    0x04410040, 0x84410040, 0x04011040, 0x84011040, 0x04411040, 0x84411040,
    0x00010004, 0x80010004, 0x00410004, 0x80410004, 0x00011004, 0x80011004,
    0x00411004, 0x80411004, 0x00010044, 0x80010044, 0x00410044, 0x80410044,
    0x00011044, 0x80011044, 0x00411044, 0x80411044, 0x04010004, 0x84010004,
    0x04410004, 0x84410004, 0x04011004, 0x84011004, 0x04411004, 0x84411004,
    0x04010044, 0x84010044, 0x04410044, 0x84410044, 0x04011044, 0x84011044,
    0x04411044, 0x84411044, 0x00000100, 0x80000100, 0x00400100, 0x80400100,
    0x00001100, 0x80001100, 0x00401100, 0x80401100, 0x00000140, 0x80000140,
    0x00400140, 0x80400140, 0x00001140, 0x80001140, 0x00401140, 0x80401140,
    0x04000100, 0x84000100, 0x04400100, 0x84400100, 0x04001100, 0x84001100,
    0x04401100, 0x84401100, 0x04000140, 0x84000140, 0x04400140, 0x84400140,
    0x04001140, 0x84001140, 0x04401140, 0x84401140, 0x00000104, 0x80000104,
    0x00400104, 0x80400104, 0x00001104, 0x80001104, 0x00401104, 0x80401104,
    0x00000144, 0x80000144, 0x00400144, 0x80400144, 0x00001144, 0x80001144,
    0x00401144, 0x80401144, 0x04000104, 0x84000104, 0x04400104, 0x84400104,
    0x04001104, 0x84001104, 0x04401104, 0x84401104, 0x04000144, 0x84000144,
    0x04400144, 0x84400144, 0x04001144, 0x84001144, 0x04401144, 0x84401144,
    0x00010100, 0x80010100, 0x00410100, 0x80410100, 0x00011100, 0x80011100,
    0x00411100, 0x80411100, 0x00010140, 0x80010140, 0x00410140, 0x80410140,
    0x00011140, 0x80011140, 0x00411140, 0x80411140, 0x04010100, 0x84010100,
    0x04410100, 0x84410100, 0x04011100, 0x84011100, 0x04411100, 0x84411100,
    0x04010140, 0x84010140, 0x04410140, 0x84410140, 0x04011140, 0x84011140,
    0x04411140, 0x84411140, 0x00010104, 0x80010104, 0x00410104, 0x80410104,
    0x00011104, 0x80011104, 0x00411104, 0x80411104, 0x00010144, 0x80010144,
    0x00410144, 0x80410144, 0x00011144, 0x80011144, 0x00411144, 0x80411144,
    0x04010104, 0x84010104, 0x04410104, 0x84410104, 0x04011104, 0x84011104,
    0x04411104, 0x84411104, 0x04010144, 0x84010144, 0x04410144, 0x84410144,
    0x04011144, 0x84011144, 0x04411144, 0x84411144]"

definition P_tab_2 :: "u32 list" where
  "P_tab_2 = [
    0, 0x00002000, 0x00200000, 0x00202000, 0x00000008, 0x00002008,
    0x00200008, 0x00202008, 0x10000000, 0x10002000, 0x10200000, 0x10202000,
    0x10000008, 0x10002008, 0x10200008, 0x10202008, 0x20000000, 0x20002000,
    0x20200000, 0x20202000, 0x20000008, 0x20002008, 0x20200008, 0x20202008,
    0x30000000, 0x30002000, 0x30200000, 0x30202000, 0x30000008, 0x30002008,
    0x30200008, 0x30202008, 0x00000080, 0x00002080, 0x00200080, 0x00202080,
    0x00000088, 0x00002088, 0x00200088, 0x00202088, 0x10000080, 0x10002080,
    0x10200080, 0x10202080, 0x10000088, 0x10002088, 0x10200088, 0x10202088,
    0x20000080, 0x20002080, 0x20200080, 0x20202080, 0x20000088, 0x20002088,
    0x20200088, 0x20202088, 0x30000080, 0x30002080, 0x30200080, 0x30202080,
    0x30000088, 0x30002088, 0x30200088, 0x30202088, 0x00040000, 0x00042000,
    0x00240000, 0x00242000, 0x00040008, 0x00042008, 0x00240008, 0x00242008,
    0x10040000, 0x10042000, 0x10240000, 0x10242000, 0x10040008, 0x10042008,
    0x10240008, 0x10242008, 0x20040000, 0x20042000, 0x20240000, 0x20242000,
    0x20040008, 0x20042008, 0x20240008, 0x20242008, 0x30040000, 0x30042000,
    0x30240000, 0x30242000, 0x30040008, 0x30042008, 0x30240008, 0x30242008,
    0x00040080, 0x00042080, 0x00240080, 0x00242080, 0x00040088, 0x00042088,
    0x00240088, 0x00242088, 0x10040080, 0x10042080, 0x10240080, 0x10242080,
    0x10040088, 0x10042088, 0x10240088, 0x10242088, 0x20040080, 0x20042080,
    0x20240080, 0x20242080, 0x20040088, 0x20042088, 0x20240088, 0x20242088,
    0x30040080, 0x30042080, 0x30240080, 0x30242080, 0x30040088, 0x30042088,
    0x30240088, 0x30242088, 0x01000000, 0x01002000, 0x01200000, 0x01202000,
    0x01000008, 0x01002008, 0x01200008, 0x01202008, 0x11000000, 0x11002000,
    0x11200000, 0x11202000, 0x11000008, 0x11002008, 0x11200008, 0x11202008,
    0x21000000, 0x21002000, 0x21200000, 0x21202000, 0x21000008, 0x21002008,
    0x21200008, 0x21202008, 0x31000000, 0x31002000, 0x31200000, 0x31202000,
    0x31000008, 0x31002008, 0x31200008, 0x31202008, 0x01000080, 0x01002080,
    0x01200080, 0x01202080, 0x01000088, 0x01002088, 0x01200088, 0x01202088,
    0x11000080, 0x11002080, 0x11200080, 0x11202080, 0x11000088, 0x11002088,
    0x11200088, 0x11202088, 0x21000080, 0x21002080, 0x21200080, 0x21202080,
    0x21000088, 0x21002088, 0x21200088, 0x21202088, 0x31000080, 0x31002080,
    0x31200080, 0x31202080, 0x31000088, 0x31002088, 0x31200088, 0x31202088,
    0x01040000, 0x01042000, 0x01240000, 0x01242000, 0x01040008, 0x01042008,
    0x01240008, 0x01242008, 0x11040000, 0x11042000, 0x11240000, 0x11242000,
    0x11040008, 0x11042008, 0x11240008, 0x11242008, 0x21040000, 0x21042000,
    0x21240000, 0x21242000, 0x21040008, 0x21042008, 0x21240008, 0x21242008,
    0x31040000, 0x31042000, 0x31240000, 0x31242000, 0x31040008, 0x31042008,
    0x31240008, 0x31242008, 0x01040080, 0x01042080, 0x01240080, 0x01242080,
    0x01040088, 0x01042088, 0x01240088, 0x01242088, 0x11040080, 0x11042080,
    0x11240080, 0x11242080, 0x11040088, 0x11042088, 0x11240088, 0x11242088,
    0x21040080, 0x21042080, 0x21240080, 0x21242080, 0x21040088, 0x21042088,
    0x21240088, 0x21242088, 0x31040080, 0x31042080, 0x31240080, 0x31242080,
    0x31040088, 0x31042088, 0x31240088, 0x31242088]"

definition P_tab_3 :: "u32 list" where
  "P_tab_3 = [
    0, 0x00000800, 0x00020000, 0x00020800, 0x00000020, 0x00000820,
    0x00020020, 0x00020820, 0x08000000, 0x08000800, 0x08020000, 0x08020800,
    0x08000020, 0x08000820, 0x08020020, 0x08020820, 0x02000000, 0x02000800,
    0x02020000, 0x02020800, 0x02000020, 0x02000820, 0x02020020, 0x02020820,
    0x0A000000, 0x0A000800, 0x0A020000, 0x0A020800, 0x0A000020, 0x0A000820,
    0x0A020020, 0x0A020820, 0x00000400, 0x00000C00, 0x00020400, 0x00020C00,
    0x00000420, 0x00000C20, 0x00020420, 0x00020C20, 0x08000400, 0x08000C00,
    0x08020400, 0x08020C00, 0x08000420, 0x08000C20, 0x08020420, 0x08020C20,
    0x02000400, 0x02000C00, 0x02020400, 0x02020C00, 0x02000420, 0x02000C20,
    0x02020420, 0x02020C20, 0x0A000400, 0x0A000C00, 0x0A020400, 0x0A020C00,
    0x0A000420, 0x0A000C20, 0x0A020420, 0x0A020C20, 0x00100000, 0x00100800,
    0x00120000, 0x00120800, 0x00100020, 0x00100820, 0x00120020, 0x00120820,
    0x08100000, 0x08100800, 0x08120000, 0x08120800, 0x08100020, 0x08100820,
    0x08120020, 0x08120820, 0x02100000, 0x02100800, 0x02120000, 0x02120800,
    0x02100020, 0x02100820, 0x02120020, 0x02120820, 0x0A100000, 0x0A100800,
    0x0A120000, 0x0A120800, 0x0A100020, 0x0A100820, 0x0A120020, 0x0A120820,
    0x00100400, 0x00100C00, 0x00120400, 0x00120C00, 0x00100420, 0x00100C20,
    0x00120420, 0x00120C20, 0x08100400, 0x08100C00, 0x08120400, 0x08120C00,
    0x08100420, 0x08100C20, 0x08120420, 0x08120C20, 0x02100400, 0x02100C00,
    0x02120400, 0x02120C00, 0x02100420, 0x02100C20, 0x02120420, 0x02120C20,
    0x0A100400, 0x0A100C00, 0x0A120400, 0x0A120C00, 0x0A100420, 0x0A100C20,
    0x0A120420, 0x0A120C20, 0x00000001, 0x00000801, 0x00020001, 0x00020801,
    0x00000021, 0x00000821, 0x00020021, 0x00020821, 0x08000001, 0x08000801,
    0x08020001, 0x08020801, 0x08000021, 0x08000821, 0x08020021, 0x08020821,
    0x02000001, 0x02000801, 0x02020001, 0x02020801, 0x02000021, 0x02000821,
    0x02020021, 0x02020821, 0x0A000001, 0x0A000801, 0x0A020001, 0x0A020801,
    0x0A000021, 0x0A000821, 0x0A020021, 0x0A020821, 0x00000401, 0x00000C01,
    0x00020401, 0x00020C01, 0x00000421, 0x00000C21, 0x00020421, 0x00020C21,
    0x08000401, 0x08000C01, 0x08020401, 0x08020C01, 0x08000421, 0x08000C21,
    0x08020421, 0x08020C21, 0x02000401, 0x02000C01, 0x02020401, 0x02020C01,
    0x02000421, 0x02000C21, 0x02020421, 0x02020C21, 0x0A000401, 0x0A000C01,
    0x0A020401, 0x0A020C01, 0x0A000421, 0x0A000C21, 0x0A020421, 0x0A020C21,
    0x00100001, 0x00100801, 0x00120001, 0x00120801, 0x00100021, 0x00100821,
    0x00120021, 0x00120821, 0x08100001, 0x08100801, 0x08120001, 0x08120801,
    0x08100021, 0x08100821, 0x08120021, 0x08120821, 0x02100001, 0x02100801,
    0x02120001, 0x02120801, 0x02100021, 0x02100821, 0x02120021, 0x02120821,
    0x0A100001, 0x0A100801, 0x0A120001, 0x0A120801, 0x0A100021, 0x0A100821,
    0x0A120021, 0x0A120821, 0x00100401, 0x00100C01, 0x00120401, 0x00120C01,
    0x00100421, 0x00100C21, 0x00120421, 0x00120C21, 0x08100401, 0x08100C01,
    0x08120401, 0x08120C01, 0x08100421, 0x08100C21, 0x08120421, 0x08120C21,
    0x02100401, 0x02100C01, 0x02120401, 0x02120C01, 0x02100421, 0x02100C21,
    0x02120421, 0x02120C21, 0x0A100401, 0x0A100C01, 0x0A120401, 0x0A120C01,
    0x0A100421, 0x0A100C21, 0x0A120421, 0x0A120C21]"

definition P_tab :: "u32 list list" where
  "P_tab = [P_tab_0, P_tab_1, P_tab_2, P_tab_3]"

section \<open>Storage\<close>

text \<open>
  \<^verbatim>\<open>chunk_t\<close> is a union of eight bytes and two words. It is kept as its
  eight bytes in the order of their addresses; the members are read and
  written through the offsets the two declarations give them.
\<close>

datatype byte_order = LONG_LONG_LTOH | LONG_LONG_HTOL

type_synonym chunk_t = "u8 list"

definition long0_off :: "byte_order \<Rightarrow> nat" where
  "long0_off ord = (case ord of LONG_LONG_LTOH \<Rightarrow> 4 | LONG_LONG_HTOL \<Rightarrow> 0)"

definition long1_off :: "byte_order \<Rightarrow> nat" where
  "long1_off ord = (case ord of LONG_LONG_LTOH \<Rightarrow> 0 | LONG_LONG_HTOL \<Rightarrow> 4)"

definition byte_off :: "byte_order \<Rightarrow> nat \<Rightarrow> nat" where
  "byte_off ord k = (case ord of LONG_LONG_LTOH \<Rightarrow> 7 - k | LONG_LONG_HTOL \<Rightarrow> k)"

text \<open>A 32-bit load and store in the byte order of the machine.\<close>

definition load32 :: "byte_order \<Rightarrow> chunk_t \<Rightarrow> nat \<Rightarrow> u32" where
  "load32 ord c p = (case ord of
     LONG_LONG_LTOH \<Rightarrow> push_bit 24 (ucast (c ! (p + 3))) OR push_bit 16 (ucast (c ! (p + 2))) OR
       push_bit 8 (ucast (c ! (p + 1))) OR ucast (c ! p)
   | LONG_LONG_HTOL \<Rightarrow> push_bit 24 (ucast (c ! p)) OR push_bit 16 (ucast (c ! (p + 1))) OR
       push_bit 8 (ucast (c ! (p + 2))) OR ucast (c ! (p + 3)))"

definition store32 :: "byte_order \<Rightarrow> chunk_t \<Rightarrow> nat \<Rightarrow> u32 \<Rightarrow> chunk_t" where
  "store32 ord c p w = (case ord of
     LONG_LONG_LTOH \<Rightarrow> c[p := ucast w, p + 1 := ucast (drop_bit 8 w), p + 2 := ucast (drop_bit 16 w),
       p + 3 := ucast (drop_bit 24 w)]
   | LONG_LONG_HTOL \<Rightarrow> c[p := ucast (drop_bit 24 w), p + 1 := ucast (drop_bit 16 w),
       p + 2 := ucast (drop_bit 8 w), p + 3 := ucast w])"

definition long0 :: "byte_order \<Rightarrow> chunk_t \<Rightarrow> u32" where
  "long0 ord c = load32 ord c (long0_off ord)"

definition long1 :: "byte_order \<Rightarrow> chunk_t \<Rightarrow> u32" where
  "long1 ord c = load32 ord c (long1_off ord)"

definition set_long0 :: "byte_order \<Rightarrow> u32 \<Rightarrow> chunk_t \<Rightarrow> chunk_t" where
  "set_long0 ord w c = store32 ord c (long0_off ord) w"

definition set_long1 :: "byte_order \<Rightarrow> u32 \<Rightarrow> chunk_t \<Rightarrow> chunk_t" where
  "set_long1 ord w c = store32 ord c (long1_off ord) w"

definition chunk_byte :: "byte_order \<Rightarrow> nat \<Rightarrow> chunk_t \<Rightarrow> u8" where
  "chunk_byte ord k c = c ! byte_off ord k"

record deskeydata =
  keyval :: "chunk_t list"

section \<open>The driver interface\<close>

definition DES_MAXLEN :: nat where "DES_MAXLEN = 65536"

definition DES_QUICKLEN :: nat where "DES_QUICKLEN = 16"

datatype desdir = ENCRYPT | DECRYPT

datatype desmode = CBC | ECB

definition desparams :: ctype where
  "desparams = Struct [
     (''des_key'', Array 8 CChar), (''des_dir'', CInt), (''des_mode'', CInt),
     (''des_ivec'', Array 8 CChar), (''des_len'', CInt),
     (''UDES'', Union [(''UDES_data'', Array DES_QUICKLEN CChar), (''UDES_buf'', CPtr)])]"

definition DESIOCBLOCK :: "abi \<Rightarrow> u32" where "DESIOCBLOCK A = IOWR A 0x64 6 desparams"

definition DESIOCQUICK :: "abi \<Rightarrow> u32" where "DESIOCQUICK A = IOWR A 0x64 7 desparams"

section \<open>Reference definitions\<close>

text \<open>
  Every output bit of the expansion and of the permutation is one input bit or zero.
  \<open>select_bits sel\<close> is that kind of function, with \<open>sel p\<close> the input position of output
  position \<open>p\<close>, both counted from the least significant bit. \<open>E_source h\<close> selects four of the
  eight six-bit groups of the expansion, one per byte, group \<open>g\<close> being the bits \<open>4g - 1\<close> to
  \<open>4g + 4\<close> of the input, counted from the most significant bit and modulo 32;
  \<open>P_order\<close> is the permutation of the standard.
\<close>

definition select_bits :: "(nat \<Rightarrow> nat option) \<Rightarrow> u32 \<Rightarrow> u32" where
  "select_bits sel x = horner_sum of_bool 2
     (map (\<lambda>p. case sel p of None \<Rightarrow> False | Some q \<Rightarrow> bit x q) [0..<32])"

definition E_source :: "nat \<Rightarrow> nat \<Rightarrow> nat option" where
  "E_source h p = (if p mod 8 < 6
     then Some (31 - (4 * (h + 3 - p div 8) + (5 - p mod 8) + 31) mod 32) else None)"

definition P_order :: "nat list" where
  "P_order = [16, 7, 20, 21, 29, 12, 28, 17, 1, 15, 23, 26, 5, 18, 31, 10,
    2, 8, 24, 14, 32, 27, 3, 9, 19, 13, 30, 6, 22, 11, 4, 25]"

definition P_source :: "nat \<Rightarrow> nat option" where
  "P_source p = Some (32 - P_order ! (31 - p))"

definition lookup4 :: "u32 list list \<Rightarrow> u32 \<Rightarrow> u32" where
  "lookup4 t x = t ! 0 ! unat (drop_bit 24 x AND 255) OR t ! 1 ! unat (drop_bit 16 x AND 255) OR
     t ! 2 ! unat (drop_bit 8 x AND 255) OR t ! 3 ! unat (x AND 255)"

text \<open>
  A table of 256 words for a function of one byte that maps an or to an or is
  determined by its values on the eight single bits: it doubles from each bit to the next.
\<close>

definition doubled :: "u32 list \<Rightarrow> u32 list" where
  "doubled bs = foldl (\<lambda>t b. t @ map (\<lambda>x. b OR x) t) [0] bs"

definition basis_of :: "(nat \<Rightarrow> nat option) \<Rightarrow> nat \<Rightarrow> u32 list" where
  "basis_of sel s = map (\<lambda>k. select_bits sel (2 ^ (s + k))) [0..<8]"

text \<open>The value of the S-box \<open>i\<close>: the nibble of its entry.\<close>

definition S_value :: "nat \<Rightarrow> nat \<Rightarrow> nat" where
  "S_value i x = unat (drop_bit (28 - 4 * i) (S_tab ! i ! x))"

text \<open>Two values of four bits that differ in at least two of them.\<close>

definition far :: "nat \<Rightarrow> nat \<Rightarrow> bool" where
  "far a b \<longleftrightarrow> a XOR b \<notin> {0, 1, 2, 4, 8}"

definition S_row :: "nat \<Rightarrow> nat \<Rightarrow> nat list" where
  "S_row i r = map (\<lambda>c. S_value i (32 * (r div 2) + 2 * c + r mod 2)) [0..<16]"

definition sbox_criteria :: "nat \<Rightarrow> nat \<Rightarrow> bool" where
  "sbox_criteria i x \<longleftrightarrow>
     list_all (\<lambda>d. far (S_value i x) (S_value i (x XOR d))) [1, 2, 4, 8, 16, 32, 12] \<and>
     list_all (\<lambda>d. S_value i x \<noteq> S_value i (x XOR d)) [48, 52, 56, 60]"

definition permute :: "nat list \<Rightarrow> 'a list \<Rightarrow> 'a list" where
  "permute tab xs = map (\<lambda>i. xs ! i) tab"

section \<open>Tables of or-linear functions\<close>

lemma doubled_snoc: "doubled (bs @ [b]) = doubled bs @ map (\<lambda>x. b OR x) (doubled bs)"
  by (simp add: doubled_def)

lemma length_doubled [simp]: "length (doubled bs) = 2 ^ length bs"
proof (induction bs rule: rev_induct)
  case Nil
  then show ?case by (simp add: doubled_def)
qed (simp add: doubled_snoc)

lemma word_add_or:
  assumes "j < 2 ^ m" "m < 32"
  shows "(of_nat (2 ^ m + j) :: u32) = 2 ^ m OR of_nat j"
proof -
  have "(2 ^ m :: u32) AND of_nat j = 0"
  proof (rule bit_eqI)
    fix i assume "possible_bit TYPE(u32) i"
    have "\<not> bit j m" using assms(1) by (simp add: bit_nat_iff bit_iff_odd)
    then show "bit ((2 ^ m :: u32) AND of_nat j) i = bit (0 :: u32) i"
      by (auto simp: bit_and_iff bit_exp_iff bit_of_nat_iff)
  qed
  then show ?thesis by (simp add: disjunctive_add_eq_or)
qed

lemma bit_select_bits:
  "bit (select_bits sel x) p \<longleftrightarrow> p < 32 \<and> (\<exists>q. sel p = Some q \<and> bit x q)"
  by (auto simp: select_bits_def bit_horner_sum_bit_word_iff split: option.splits)

lemma select_bits_or: "select_bits sel (x OR y) = select_bits sel x OR select_bits sel y"
  by (rule bit_eqI) (auto simp: bit_select_bits bit_or_iff)

lemma select_bits_0 [simp]: "select_bits sel 0 = 0"
  by (rule bit_eqI) (auto simp: bit_select_bits)

lemma push_bit_2_power: "push_bit s (2 ^ m :: u32) = 2 ^ (s + m)"
  by (simp add: push_bit_eq_mult power_add mult.commute)

lemma doubled_select:
  assumes "i < 2 ^ m" "m + s \<le> 32" "m < 32"
  shows "doubled (map (\<lambda>k. select_bits sel (2 ^ (s + k))) [0..<m]) ! i = select_bits sel (push_bit s (of_nat i))"
  using assms
proof (induction m arbitrary: i)
  case 0
  then show ?case by (simp add: doubled_def)
next
  case (Suc m)
  let ?g = "\<lambda>k. select_bits sel (2 ^ (s + k))"
  show ?case
  proof (cases "i < 2 ^ m")
    case True
    with Suc show ?thesis by (simp add: doubled_snoc nth_append)
  next
    case False
    define j where "j = i - 2 ^ m"
    have j: "j < 2 ^ m" "i = 2 ^ m + j" using False Suc.prems(1) by (auto simp: j_def)
    have "doubled (map ?g [0..<Suc m]) ! i = ?g m OR select_bits sel (push_bit s (of_nat j))"
      using Suc.IH [of j] Suc.prems j by (simp add: doubled_snoc nth_append)
    also have "\<dots> = select_bits sel (push_bit s (of_nat i))"
      using j Suc.prems word_add_or [of j m]
      by (simp add: push_bit_or select_bits_or push_bit_2_power)
    finally show ?thesis .
  qed
qed

lemma bytes_or:
  "(x :: u32) = push_bit 24 (drop_bit 24 x AND 255) OR push_bit 16 (drop_bit 16 x AND 255) OR
     push_bit 8 (drop_bit 8 x AND 255) OR (x AND 255)"
proof (rule bit_eqI)
  fix n assume "possible_bit TYPE(u32) n"
  then have "n < 32" by (simp add: possible_bit_word)
  then consider "n < 8" | "8 \<le> n" "n < 16" | "16 \<le> n" "n < 24" | "24 \<le> n" "n < 32"
    by linarith
  then show "bit x n = bit (push_bit 24 (drop_bit 24 x AND 255) OR push_bit 16 (drop_bit 16 x AND 255) OR
     push_bit 8 (drop_bit 8 x AND 255) OR (x AND 255)) n"
    by cases (auto simp: bit_simps and_255)
qed

lemma byte_index: "unat ((y :: u32) AND 255) < 256"
proof -
  have "y AND 255 \<le> 255" by (rule word_and_le1)
  then show ?thesis by (simp add: word_le_nat_alt)
qed

lemma lookup4_select:
  assumes "t = [doubled (basis_of sel 24), doubled (basis_of sel 16), doubled (basis_of sel 8), doubled (basis_of sel 0)]"
  shows "lookup4 t x = select_bits sel x"
proof -
  have *: "doubled (basis_of sel s) ! unat (y AND 255) = select_bits sel (push_bit s (y AND 255))"
    if "s \<le> 24" for s y
    using doubled_select [of "unat (y AND 255)" 8 s sel] that byte_index [of y] by (simp add: basis_of_def)
  have "lookup4 t x = select_bits sel (push_bit 24 (drop_bit 24 x AND 255) OR push_bit 16 (drop_bit 16 x AND 255) OR
     push_bit 8 (drop_bit 8 x AND 255) OR (x AND 255))"
    using *[of 24] *[of 16] *[of 8] *[of 0] by (simp add: assms lookup4_def select_bits_or)
  then show ?thesis by (simp only: bytes_or [symmetric])
qed

lemma select_bits_power:
  "q < 32 \<Longrightarrow> select_bits sel (2 ^ q) =
     foldr (\<lambda>p w. if sel p = Some q then w OR push_bit p 1 else w) [0..<32] 0"
proof (rule bit_eqI)
  fix n assume q: "q < 32" and "possible_bit TYPE(u32) n"
  then have n: "n < 32" by (simp add: possible_bit_word)
  have fold: "bit (foldr (\<lambda>p w. if sel p = Some q then w OR push_bit p 1 else w) ps (0 :: u32)) n \<longleftrightarrow>
     n \<in> set ps \<and> sel n = Some q" for ps
    using n by (induction ps) (auto simp: bit_simps)
  show "bit (select_bits sel (2 ^ q)) n \<longleftrightarrow>
    bit (foldr (\<lambda>p w. if sel p = Some q then w OR push_bit p 1 else w) [0..<32] (0 :: u32)) n"
    using n q fold [of "[0..<32]"] by (auto simp: bit_select_bits bit_exp_iff)
qed

lemma upt_8: "[0..<8] = [0, 1, 2, 3, 4, 5, 6, 7]" by (simp add: upt_rec)

lemma upt_32: "[0..<32] = [0, 1, 2, 3, 4, 5, 6, 7, 8, 9, 10, 11, 12, 13, 14, 15, 16, 17, 18, 19, 20, 21,
  22, 23, 24, 25, 26, 27, 28, 29, 30, 31]" by (simp add: upt_rec)

lemma basis_of_eval:
  assumes "s \<le> 24"
  shows "basis_of sel s = map (\<lambda>k. foldr (\<lambda>p w. if sel p = Some (s + k) then w OR push_bit p 1 else w) [0..<32] 0) [0..<8]"
  using assms by (simp add: basis_of_def select_bits_power)

lemmas basis_eval = basis_of_eval E_source_def P_source_def P_order_def upt_8 upt_32

lemma R_to_ER_tab_0_l0: "map l0 R_to_ER_tab_0 = doubled (basis_of (E_source 0) 24)"
proof -
  have "basis_of (E_source 0) 24 = [0x00022000, 0x00040000, 0x00080000, 0x01100000, 0x02200000, 0x04000000, 0x08000000, 0x10000000]"
    by (simp add: basis_eval)
  then show ?thesis by (simp add: R_to_ER_tab_0_def doubled_def)
qed

lemma R_to_ER_tab_0_l1: "map l1 R_to_ER_tab_0 = doubled (basis_of (E_source 4) 24)"
proof -
  have "basis_of (E_source 4) 24 = [0, 0, 0, 0, 0, 0, 0, 0x00000001]"
    by (simp add: basis_eval)
  then show ?thesis by (simp add: R_to_ER_tab_0_def doubled_def)
qed

lemma R_to_ER_tab_1_l0: "map l0 R_to_ER_tab_1 = doubled (basis_of (E_source 0) 16)"
proof -
  have "basis_of (E_source 0) 16 = [0x00000002, 0x00000004, 0x00000008, 0x00000110, 0x00000220, 0x00000400, 0x00000800, 0x00011000]"
    by (simp add: basis_eval)
  then show ?thesis by (simp add: R_to_ER_tab_1_def doubled_def)
qed

lemma R_to_ER_tab_1_l1: "map l1 R_to_ER_tab_1 = doubled (basis_of (E_source 4) 16)"
proof -
  have "basis_of (E_source 4) 16 = [0x20000000, 0, 0, 0, 0, 0, 0, 0]"
    by (simp add: basis_eval)
  then show ?thesis by (simp add: R_to_ER_tab_1_def doubled_def)
qed

lemma R_to_ER_tab_2_l0: "map l0 R_to_ER_tab_2 = doubled (basis_of (E_source 0) 8)"
proof -
  have "basis_of (E_source 0) 8 = [0, 0, 0, 0, 0, 0, 0, 0x00000001]"
    by (simp add: basis_eval)
  then show ?thesis by (simp add: R_to_ER_tab_2_def doubled_def)
qed

lemma R_to_ER_tab_2_l1: "map l1 R_to_ER_tab_2 = doubled (basis_of (E_source 4) 8)"
proof -
  have "basis_of (E_source 4) 8 = [0x00022000, 0x00040000, 0x00080000, 0x01100000, 0x02200000, 0x04000000, 0x08000000, 0x10000000]"
    by (simp add: basis_eval)
  then show ?thesis by (simp add: R_to_ER_tab_2_def doubled_def)
qed

lemma R_to_ER_tab_3_l0: "map l0 R_to_ER_tab_3 = doubled (basis_of (E_source 0) 0)"
proof -
  have "basis_of (E_source 0) 0 = [0x20000000, 0, 0, 0, 0, 0, 0, 0]"
    by (simp add: basis_eval)
  then show ?thesis by (simp add: R_to_ER_tab_3_def doubled_def)
qed

lemma R_to_ER_tab_3_l1: "map l1 R_to_ER_tab_3 = doubled (basis_of (E_source 4) 0)"
proof -
  have "basis_of (E_source 4) 0 = [0x00000002, 0x00000004, 0x00000008, 0x00000110, 0x00000220, 0x00000400, 0x00000800, 0x00011000]"
    by (simp add: basis_eval)
  then show ?thesis by (simp add: R_to_ER_tab_3_def doubled_def)
qed

lemma P_tab_0_doubled: "P_tab_0 = doubled (basis_of P_source 24)"
proof -
  have "basis_of P_source 24 = [0x00004000, 0x40000000, 0x00000010, 0x00080000, 0x00000002, 0x00000200, 0x00008000, 0x00800000]"
    by (simp add: basis_eval)
  then show ?thesis by (simp add: P_tab_0_def doubled_def)
qed

lemma P_tab_1_doubled: "P_tab_1 = doubled (basis_of P_source 16)"
proof -
  have "basis_of P_source 16 = [0x80000000, 0x00400000, 0x00001000, 0x00000040, 0x04000000, 0x00000004, 0x00010000, 0x00000100]"
    by (simp add: basis_eval)
  then show ?thesis by (simp add: P_tab_1_def doubled_def)
qed

lemma P_tab_2_doubled: "P_tab_2 = doubled (basis_of P_source 8)"
proof -
  have "basis_of P_source 8 = [0x00002000, 0x00200000, 0x00000008, 0x10000000, 0x20000000, 0x00000080, 0x00040000, 0x01000000]"
    by (simp add: basis_eval)
  then show ?thesis by (simp add: P_tab_2_def doubled_def)
qed

lemma P_tab_3_doubled: "P_tab_3 = doubled (basis_of P_source 0)"
proof -
  have "basis_of P_source 0 = [0x00000800, 0x00020000, 0x00000020, 0x08000000, 0x02000000, 0x00000400, 0x00100000, 0x00000001]"
    by (simp add: basis_eval)
  then show ?thesis by (simp add: P_tab_3_def doubled_def)
qed

section \<open>The S-boxes\<close>

lemma upt_4: "[0..<4] = [0, 1, 2, 3]"
  by (simp add: upt_rec)

lemma upt_16: "[0..<16] = [0, 1, 2, 3, 4, 5, 6, 7, 8, 9, 10, 11, 12, 13, 14, 15]"
  by (simp add: upt_rec)

lemma upt_64: "[0..<64] = [0, 1, 2, 3, 4, 5, 6, 7, 8, 9, 10, 11, 12, 13, 14, 15, 16, 17, 18, 19, 20, 21,
     22, 23, 24, 25, 26, 27, 28, 29, 30, 31, 32, 33, 34, 35, 36, 37, 38, 39, 40, 41, 42, 43, 44,
     45, 46, 47, 48, 49, 50, 51, 52, 53, 54, 55, 56, 57, 58, 59, 60, 61, 62, 63]"
  by (simp add: upt_rec)

lemma map_S_value:
  assumes "S_tab ! i = t" "length t = 64"
  shows "map (S_value i) [0..<64] = map (\<lambda>w. unat (drop_bit (28 - 4 * i) w)) t"
  using assms by (auto intro!: nth_equalityI simp: S_value_def)

lemma S_tab_nth:
  "S_tab ! 0 = S_tab_0" "S_tab ! 1 = S_tab_1" "S_tab ! 2 = S_tab_2" "S_tab ! 3 = S_tab_3"
  "S_tab ! 4 = S_tab_4" "S_tab ! 5 = S_tab_5" "S_tab ! 6 = S_tab_6" "S_tab ! 7 = S_tab_7"
  by (simp_all add: S_tab_def)

lemma S_values_0: "map (S_value 0) [0..<64] = [
    14, 0, 4, 15, 13, 7, 1, 4, 2, 14, 15, 2, 11, 13, 8, 1, 3, 10, 10, 6, 6, 12, 12, 11, 5, 9, 9, 5, 0, 3, 7, 8,
    4, 15, 1, 12, 14, 8, 8, 2, 13, 4, 6, 9, 2, 1, 11, 7, 15, 5, 12, 11, 9, 3, 7, 14, 3, 10, 10, 0, 5, 6, 0, 13]"
  by (subst map_S_value [OF S_tab_nth(1)]) (simp_all add: S_tab_0_def)

lemma S_values_1: "map (S_value 1) [0..<64] = [
    15, 3, 1, 13, 8, 4, 14, 7, 6, 15, 11, 2, 3, 8, 4, 14, 9, 12, 7, 0, 2, 1, 13, 10, 12, 6, 0, 9, 5, 11, 10, 5,
    0, 13, 14, 8, 7, 10, 11, 1, 10, 3, 4, 15, 13, 4, 1, 2, 5, 11, 8, 6, 12, 7, 6, 12, 9, 0, 3, 5, 2, 14, 15, 9]"
  by (subst map_S_value [OF S_tab_nth(2)]) (simp_all add: S_tab_1_def)

lemma S_values_2: "map (S_value 2) [0..<64] = [
    10, 13, 0, 7, 9, 0, 14, 9, 6, 3, 3, 4, 15, 6, 5, 10, 1, 2, 13, 8, 12, 5, 7, 14, 11, 12, 4, 11, 2, 15, 8, 1,
    13, 1, 6, 10, 4, 13, 9, 0, 8, 6, 15, 9, 3, 8, 0, 7, 11, 4, 1, 15, 2, 14, 12, 3, 5, 11, 10, 5, 14, 2, 7, 12]"
  by (subst map_S_value [OF S_tab_nth(3)]) (simp_all add: S_tab_2_def)

lemma S_values_3: "map (S_value 3) [0..<64] = [
    7, 13, 13, 8, 14, 11, 3, 5, 0, 6, 6, 15, 9, 0, 10, 3, 1, 4, 2, 7, 8, 2, 5, 12, 11, 1, 12, 10, 4, 14, 15, 9,
    10, 3, 6, 15, 9, 0, 0, 6, 12, 10, 11, 1, 7, 13, 13, 8, 15, 9, 1, 4, 3, 5, 14, 11, 5, 12, 2, 7, 8, 2, 4, 14]"
  by (subst map_S_value [OF S_tab_nth(4)]) (simp_all add: S_tab_3_def)

lemma S_values_4: "map (S_value 4) [0..<64] = [
    2, 14, 12, 11, 4, 2, 1, 12, 7, 4, 10, 7, 11, 13, 6, 1, 8, 5, 5, 0, 3, 15, 15, 10, 13, 3, 0, 9, 14, 8, 9, 6,
    4, 11, 2, 8, 1, 12, 11, 7, 10, 1, 13, 14, 7, 2, 8, 13, 15, 6, 9, 15, 12, 0, 5, 9, 6, 10, 3, 4, 0, 5, 14, 3]"
  by (subst map_S_value [OF S_tab_nth(5)]) (simp_all add: S_tab_4_def)

lemma S_values_5: "map (S_value 5) [0..<64] = [
    12, 10, 1, 15, 10, 4, 15, 2, 9, 7, 2, 12, 6, 9, 8, 5, 0, 6, 13, 1, 3, 13, 4, 14, 14, 0, 7, 11, 5, 3, 11, 8,
    9, 4, 14, 3, 15, 2, 5, 12, 2, 9, 8, 5, 12, 15, 3, 10, 7, 11, 0, 14, 4, 1, 10, 7, 1, 6, 13, 0, 11, 8, 6, 13]"
  by (subst map_S_value [OF S_tab_nth(6)]) (simp_all add: S_tab_5_def)

lemma S_values_6: "map (S_value 6) [0..<64] = [
    4, 13, 11, 0, 2, 11, 14, 7, 15, 4, 0, 9, 8, 1, 13, 10, 3, 14, 12, 3, 9, 5, 7, 12, 5, 2, 10, 15, 6, 8, 1, 6,
    1, 6, 4, 11, 11, 13, 13, 8, 12, 1, 3, 4, 7, 10, 14, 7, 10, 9, 15, 5, 6, 0, 8, 15, 0, 14, 5, 2, 9, 3, 2, 12]"
  by (subst map_S_value [OF S_tab_nth(7)]) (simp_all add: S_tab_6_def)

lemma S_values_7: "map (S_value 7) [0..<64] = [
    13, 1, 2, 15, 8, 13, 4, 8, 6, 10, 15, 3, 11, 7, 1, 4, 10, 12, 9, 5, 3, 6, 14, 11, 5, 0, 0, 14, 12, 9, 7, 2,
    7, 2, 11, 1, 4, 14, 1, 7, 9, 4, 12, 10, 14, 8, 2, 13, 0, 15, 6, 12, 10, 9, 13, 0, 15, 3, 3, 5, 5, 6, 8, 11]"
  by (subst map_S_value [OF S_tab_nth(8)]) (simp_all add: S_tab_7_def)

lemmas S_values = S_values_0 S_values_1 S_values_2 S_values_3 S_values_4 S_values_5 S_values_6 S_values_7

lemmas S_value_eval = S_values [unfolded upt_64 list.map list.inject One_nat_def simp_thms]

lemmas sbox_eval = upt_64 upt_4 upt_16 sbox_criteria_def far_def S_row_def numeral_2_eq_2 [symmetric] S_value_eval

lemma sbox_criteria_0: "list_all (sbox_criteria 0) [0..<64]"
  by (simp add: sbox_eval)

lemma S_rows_0: "list_all (\<lambda>r. distinct (S_row 0 r) \<and> list_all (\<lambda>v. v < 16) (S_row 0 r)) [0..<4]"
  by (simp add: sbox_eval)

lemma sbox_criteria_1: "list_all (sbox_criteria 1) [0..<64]"
  by (simp add: sbox_eval)

lemma S_rows_1: "list_all (\<lambda>r. distinct (S_row 1 r) \<and> list_all (\<lambda>v. v < 16) (S_row 1 r)) [0..<4]"
  by (simp add: sbox_eval)

lemma sbox_criteria_2: "list_all (sbox_criteria 2) [0..<64]"
  by (simp add: sbox_eval)

lemma S_rows_2: "list_all (\<lambda>r. distinct (S_row 2 r) \<and> list_all (\<lambda>v. v < 16) (S_row 2 r)) [0..<4]"
  by (simp add: sbox_eval)

lemma sbox_criteria_3: "list_all (sbox_criteria 3) [0..<64]"
  by (simp add: sbox_eval)

lemma S_rows_3: "list_all (\<lambda>r. distinct (S_row 3 r) \<and> list_all (\<lambda>v. v < 16) (S_row 3 r)) [0..<4]"
  by (simp add: sbox_eval)

lemma sbox_criteria_4: "list_all (sbox_criteria 4) [0..<64]"
  by (simp add: sbox_eval)

lemma S_rows_4: "list_all (\<lambda>r. distinct (S_row 4 r) \<and> list_all (\<lambda>v. v < 16) (S_row 4 r)) [0..<4]"
  by (simp add: sbox_eval)

lemma sbox_criteria_5: "list_all (sbox_criteria 5) [0..<64]"
  by (simp add: sbox_eval)

lemma S_rows_5: "list_all (\<lambda>r. distinct (S_row 5 r) \<and> list_all (\<lambda>v. v < 16) (S_row 5 r)) [0..<4]"
  by (simp add: sbox_eval)

lemma sbox_criteria_6: "list_all (sbox_criteria 6) [0..<64]"
  by (simp add: sbox_eval)

lemma S_rows_6: "list_all (\<lambda>r. distinct (S_row 6 r) \<and> list_all (\<lambda>v. v < 16) (S_row 6 r)) [0..<4]"
  by (simp add: sbox_eval)

lemma sbox_criteria_7: "list_all (sbox_criteria 7) [0..<64]"
  by (simp add: sbox_eval)

lemma S_rows_7: "list_all (\<lambda>r. distinct (S_row 7 r) \<and> list_all (\<lambda>v. v < 16) (S_row 7 r)) [0..<4]"
  by (simp add: sbox_eval)

text \<open>An entry holds its nibble and nothing else.\<close>

lemma nibble_entries:
  assumes "S_tab ! i = t" "length t = 64" "list_all (\<lambda>w. push_bit (28 - 4 * i) (drop_bit (28 - 4 * i) w) = w) t"
  shows "list_all (\<lambda>x. S_tab ! i ! x = push_bit (28 - 4 * i) (word_of_nat (S_value i x))) [0..<64]"
  using assms by (auto simp: list_all_length S_value_def)

lemma S_nibbles:
  shows "list_all (\<lambda>x. S_tab ! 0 ! x = push_bit (28 - 4 * 0) (word_of_nat (S_value 0 x))) [0..<64]"
    "list_all (\<lambda>x. S_tab ! 1 ! x = push_bit (28 - 4 * 1) (word_of_nat (S_value 1 x))) [0..<64]"
    "list_all (\<lambda>x. S_tab ! 2 ! x = push_bit (28 - 4 * 2) (word_of_nat (S_value 2 x))) [0..<64]"
    "list_all (\<lambda>x. S_tab ! 3 ! x = push_bit (28 - 4 * 3) (word_of_nat (S_value 3 x))) [0..<64]"
    "list_all (\<lambda>x. S_tab ! 4 ! x = push_bit (28 - 4 * 4) (word_of_nat (S_value 4 x))) [0..<64]"
    "list_all (\<lambda>x. S_tab ! 5 ! x = push_bit (28 - 4 * 5) (word_of_nat (S_value 5 x))) [0..<64]"
    "list_all (\<lambda>x. S_tab ! 6 ! x = push_bit (28 - 4 * 6) (word_of_nat (S_value 6 x))) [0..<64]"
    "list_all (\<lambda>x. S_tab ! 7 ! x = push_bit (28 - 4 * 7) (word_of_nat (S_value 7 x))) [0..<64]"
  subgoal by (rule nibble_entries [OF S_tab_nth(1)]; simp add: S_tab_0_def)
  subgoal by (rule nibble_entries [OF S_tab_nth(2)]; simp add: S_tab_1_def)
  subgoal by (rule nibble_entries [OF S_tab_nth(3)]; simp add: S_tab_2_def)
  subgoal by (rule nibble_entries [OF S_tab_nth(4)]; simp add: S_tab_3_def)
  subgoal by (rule nibble_entries [OF S_tab_nth(5)]; simp add: S_tab_4_def)
  subgoal by (rule nibble_entries [OF S_tab_nth(6)]; simp add: S_tab_5_def)
  subgoal by (rule nibble_entries [OF S_tab_nth(7)]; simp add: S_tab_6_def)
  subgoal by (rule nibble_entries [OF S_tab_nth(8)]; simp add: S_tab_7_def)
  done

lemma upt_8_eq: "[0..<8] = [0, 1, 2, 3, 4, 5, 6, 7]"
  by (simp add: upt_rec)

section \<open>Permutations and the key schedule\<close>

lemma upt_1_33: "[1..<33] = [1, 2, 3, 4, 5, 6, 7, 8, 9, 10, 11, 12, 13, 14, 15, 16, 17, 18, 19, 20, 21,
     22, 23, 24, 25, 26, 27, 28, 29, 30, 31, 32]"
  by (simp add: upt_rec)

lemma permute_permute:
  "\<forall>i \<in> set a. i < length b \<Longrightarrow> permute a (permute b xs) = permute (permute a b) xs"
  by (simp add: permute_def)

lemma permute_upt: "length xs = n \<Longrightarrow> permute [0..<n] xs = xs"
  using map_nth [of xs] by (auto simp: permute_def)

lemma IP_FP_inverse: "permute FPtab IPtab = [0..<64]" "permute IPtab FPtab = [0..<64]"
  by (simp_all add: permute_def upt_64 IPtab_def FPtab_def)

lemma IP_FP_range: "\<forall>i \<in> set FPtab. i < length IPtab" "\<forall>i \<in> set IPtab. i < length FPtab"
  by (simp_all add: IPtab_def FPtab_def)

lemma rotations: "foldl (\<lambda>c s. rotate (s + 1) c) C ss = rotate (sum_list (map Suc ss)) C"
proof (induction ss arbitrary: C)
  case (Cons s ss)
  have "foldl (\<lambda>c s. rotate (s + 1) c) C (s # ss) = rotate (sum_list (map Suc ss)) (rotate (Suc s) C)"
    using Cons by simp
  also have "\<dots> = rotate (sum_list (map Suc ss) + Suc s) C" by (rule rotate_rotate)
  finally show ?case by (simp add: add.commute)
qed simp

section \<open>Storage\<close>

lemma length_store32 [simp]: "length (store32 ord c p w) = length c"
  by (simp add: store32_def split: byte_order.splits)

lemma less_8_cases: "k < 8 \<Longrightarrow> k \<in> {0, 1, 2, 3, 4, 5, 6, 7 :: nat}"
  by (simp add: less_Suc_eq numeral_eq_Suc)

lemma octets_or:
  "push_bit 24 (ucast (ucast (drop_bit 24 w) :: u8)) OR push_bit 16 (ucast (ucast (drop_bit 16 w) :: u8)) OR
   push_bit 8 (ucast (ucast (drop_bit 8 w) :: u8)) OR ucast (ucast w :: u8) = (w :: u32)"
proof (rule bit_eqI)
  fix n assume "possible_bit TYPE(u32) n"
  then have "n < 32" by (simp add: possible_bit_word)
  then consider "n < 8" | "8 \<le> n" "n < 16" | "16 \<le> n" "n < 24" | "24 \<le> n" "n < 32"
    by linarith
  then show "bit (push_bit 24 (ucast (ucast (drop_bit 24 w) :: u8)) OR push_bit 16 (ucast (ucast (drop_bit 16 w) :: u8)) OR
    push_bit 8 (ucast (ucast (drop_bit 8 w) :: u8)) OR ucast (ucast w :: u8) :: u32) n = bit w n"
    by cases (auto simp: bit_simps)
qed

lemma octet_of_word:
  fixes b0 b1 b2 b3 :: u8
  defines "w \<equiv> push_bit 24 (ucast b0) OR push_bit 16 (ucast b1) OR push_bit 8 (ucast b2) OR ucast b3 :: u32"
  shows "ucast (drop_bit 24 w) = b0" "ucast (drop_bit 16 w) = b1" "ucast (drop_bit 8 w) = b2" "ucast w = b3"
  unfolding w_def by (rule bit_eqI; auto simp: bit_simps dest: bit_imp_le_length)+

lemma load_store32:
  assumes "p + 3 < length c"
  shows "load32 ord (store32 ord c p w) p = w"
  using assms by (cases ord) (simp_all add: load32_def store32_def nth_list_update octets_or)

lemmas chunk_defs = long0_def long1_def set_long0_def set_long1_def chunk_byte_def load32_def store32_def
  long0_off_def long1_off_def byte_off_def

section \<open>Properties\<close>

text \<open>C17: or-ing the four entries of \<^verbatim>\<open>R_to_ER_tab\<close> selected by the bytes of a 32-bit value
  gives its DES expansion: eight groups of six bits, one group to a byte, groups 0 to 3 in
  \<^verbatim>\<open>l0\<close> and 4 to 7 in \<^verbatim>\<open>l1\<close>; the two high bits of each byte are clear, so that each byte is an
  index into an S-box.\<close>

theorem des_expansion:
  "lookup4 (map (map l0) R_to_ER_tab) R = select_bits (E_source 0) R \<and>
   lookup4 (map (map l1) R_to_ER_tab) R = select_bits (E_source 4) R \<and>
   select_bits (E_source h) R AND 0xC0C0C0C0 = 0"
proof (intro conjI)
  show "lookup4 (map (map l0) R_to_ER_tab) R = select_bits (E_source 0) R"
    by (rule lookup4_select) (simp add: R_to_ER_tab_def R_to_ER_tab_0_l0 R_to_ER_tab_1_l0
        R_to_ER_tab_2_l0 R_to_ER_tab_3_l0)
  show "lookup4 (map (map l1) R_to_ER_tab) R = select_bits (E_source 4) R"
    by (rule lookup4_select) (simp add: R_to_ER_tab_def R_to_ER_tab_0_l1 R_to_ER_tab_1_l1
        R_to_ER_tab_2_l1 R_to_ER_tab_3_l1)
  have "list_all (\<lambda>p. bit (0xC0C0C0C0 :: u32) p \<longrightarrow> E_source h p = None) [0..<32]"
    by (simp add: upt_32 E_source_def)
  then have "E_source h p = None" if "bit (0xC0C0C0C0 :: u32) p" for p
    using that bit_imp_le_length [OF that] by (simp add: list_all_iff)
  then show "select_bits (E_source h) R AND 0xC0C0C0C0 = 0"
    by (auto intro!: bit_eqI simp: bit_and_iff bit_select_bits)
qed

text \<open>C24: or-ing the four entries of \<^verbatim>\<open>P_tab\<close> selected by the bytes of a 32-bit value, as with \<^verbatim>\<open>R_to_ER_tab\<close>, applies the
  permutation P of the standard to its bits.\<close>

theorem des_permutation: "lookup4 P_tab x = select_bits P_source x \<and> sort P_order = [1..<33]"
proof (intro conjI)
  show "lookup4 P_tab x = select_bits P_source x"
    by (rule lookup4_select) (simp add: P_tab_def P_tab_0_doubled P_tab_1_doubled P_tab_2_doubled P_tab_3_doubled)
  show "sort P_order = [1..<33]" by (simp only: upt_1_33) (simp add: P_order_def)
qed

text \<open>C18: four of the design criteria that Coppersmith published for the S-boxes hold for the eight tables: each row of a box is a
  permutation of 0 to 15 (S-3), two inputs that differ in one bit (S-4) or in the two middle bits (S-5) give outputs that differ
  in at least two bits, and two inputs that differ in the first two bits and agree in the last two give different outputs (S-6).
  The output of a box is one nibble, at the place of that box in a 32-bit word, and the rest of the entry is zero.\<close>

theorem des_sbox_design:
  "list_all (\<lambda>i. list_all (sbox_criteria i) [0..<64] \<and>
     list_all (\<lambda>r. distinct (S_row i r) \<and> list_all (\<lambda>v. v < 16) (S_row i r)) [0..<4] \<and>
     list_all (\<lambda>x. S_tab ! i ! x = push_bit (28 - 4 * i) (word_of_nat (S_value i x))) [0..<64]) [0..<8]"
  unfolding upt_8_eq list.pred_inject
  by (intro conjI list.pred_inject(1) sbox_criteria_0 sbox_criteria_1 sbox_criteria_2 sbox_criteria_3 sbox_criteria_4 sbox_criteria_5
    sbox_criteria_6 sbox_criteria_7 S_rows_0 S_rows_1 S_rows_2 S_rows_3 S_rows_4 S_rows_5 S_rows_6 S_rows_7 S_nibbles; simp)

text \<open>C19: \<^verbatim>\<open>IPtab\<close> and \<^verbatim>\<open>FPtab\<close> are inverse to each other on 64-bit blocks, in both orders.\<close>

theorem des_initial_final:
  assumes "length xs = 64"
  shows "permute FPtab (permute IPtab xs) = xs \<and> permute IPtab (permute FPtab xs) = xs"
  using assms IP_FP_range
  by (simp add: permute_permute IP_FP_inverse permute_upt)

theorem des_initial_final_witness:
  "length [0 :: nat..<64] = 64 \<and> permute FPtab (permute IPtab [0..<64]) = [0..<64]"
  using des_initial_final [of "[0 :: nat..<64]"] by simp

text \<open>The tables of the key schedule. Permuted choice 1 reads the key bits, the parity bits left out, in the regular order of the
  standard; permuted choice 2 picks 24 different bits of each half; the rotation counts, each one less than the rotation, bring a
  28-bit half back to where it was; \<^verbatim>\<open>longtab\<close> holds the 32 single-bit masks, high bit first.\<close>

theorem des_key_tables:
  assumes "length (C :: 'a list) = 28"
  shows "PC1_C = map (\<lambda>i. 56 - 8 * (i mod 8) + i div 8) [0..<28] \<and>
    PC1_D = map (\<lambda>i. 62 - 8 * (i mod 8) - i div 8) [0..<24] @ map (\<lambda>i. 27 - 8 * i) [0..<4] \<and>
    shifts = map (\<lambda>r. if r \<in> {0, 1, 8, 15} then 0 else 1) [0..<16] \<and> foldl (\<lambda>c s. rotate (s + 1) c) C shifts = C \<and>
    distinct PC2_C \<and> set PC2_C \<subseteq> {1..28} \<and> length PC2_C = 24 \<and>
    distinct PC2_D \<and> set PC2_D \<subseteq> {1..28} \<and> length PC2_D = 24 \<and>
    longtab = map (\<lambda>i. 2 ^ (31 - i)) [0..<32]"
proof (intro conjI)
  show "foldl (\<lambda>c s. rotate (s + 1) c) C shifts = C"
    unfolding rotations by (rule rotate_id) (simp add: assms shifts_def)
  show "PC1_C = map (\<lambda>i. 56 - 8 * (i mod 8) + i div 8) [0..<28]"
    "PC1_D = map (\<lambda>i. 62 - 8 * (i mod 8) - i div 8) [0..<24] @ map (\<lambda>i. 27 - 8 * i) [0..<4]"
    "shifts = map (\<lambda>r. if r \<in> {0, 1, 8, 15} then 0 else 1) [0..<16]"
    by (simp_all add: PC1_C_def PC1_D_def shifts_def upt_rec)
qed (simp_all add: shifts_def PC2_C_def PC2_D_def longtab_def upt_32)

text \<open>C25: in both layouts of \<^verbatim>\<open>chunk_t\<close> the bytes \<^verbatim>\<open>byte0\<close> to \<^verbatim>\<open>byte3\<close> are the octets of \<^verbatim>\<open>long0\<close> and
  \<^verbatim>\<open>byte4\<close> to \<^verbatim>\<open>byte7\<close> those of \<^verbatim>\<open>long1\<close>, most significant first, and the two words are stored
  independently of each other.\<close>

theorem chunk_views:
  assumes "length c = 8" "k < 4"
  shows "chunk_byte ord k c = ucast (drop_bit (24 - 8 * k) (long0 ord c)) \<and>
    chunk_byte ord (k + 4) c = ucast (drop_bit (24 - 8 * k) (long1 ord c)) \<and>
    long0 ord (set_long0 ord w c) = w \<and> long1 ord (set_long0 ord w c) = long1 ord c \<and>
    long1 ord (set_long1 ord w c) = w \<and> long0 ord (set_long1 ord w c) = long0 ord c"
proof (intro conjI)
  have k: "k = 0 \<or> k = 1 \<or> k = 2 \<or> k = 3" using assms(2) by linarith
  show "chunk_byte ord k c = ucast (drop_bit (24 - 8 * k) (long0 ord c))"
    using k by (cases ord; elim disjE; simp add: chunk_defs octet_of_word numeral_2_eq_2 [symmetric] del: drop_bit_or)
  show "chunk_byte ord (k + 4) c = ucast (drop_bit (24 - 8 * k) (long1 ord c))"
    using k by (cases ord; elim disjE; simp add: chunk_defs octet_of_word numeral_2_eq_2 [symmetric] del: drop_bit_or)
  show "long0 ord (set_long0 ord w c) = w" "long1 ord (set_long1 ord w c) = w"
    using assms(1) by (cases ord; simp add: long0_def set_long0_def long1_def set_long1_def load_store32
      long0_off_def long1_off_def)+
  show "long1 ord (set_long0 ord w c) = long1 ord c" "long0 ord (set_long1 ord w c) = long0 ord c"
    by (cases ord; simp add: chunk_defs)+
qed

theorem chunk_views_witness:
  "long0 LONG_LONG_LTOH [8, 7, 6, 5, 4, 3, 2, 1] = 0x01020304 \<and>
   chunk_byte LONG_LONG_LTOH 1 [8, 7, 6, 5, 4, 3, 2, 1] = 2"
  using chunk_views [of "[8, 7, 6, 5, 4, 3, 2, 1]" 1 LONG_LONG_LTOH 0] by (simp add: chunk_defs)

text \<open>The ioctl argument is 44 bytes on the 32-bit targets and 48 on a 64-bit one, where the data moves by
  four bytes, so the two kinds of program issue different command words.\<close>

theorem desparams_layout:
  "size_of i386 desparams = 44 \<and> offset_of i386 desparams ''UDES'' = Some 28 \<and>
   offsets sparc desparams = offsets i386 desparams \<and>
   size_of lp64 desparams = 48 \<and> offset_of lp64 desparams ''UDES'' = Some 32 \<and>
   DESIOCBLOCK i386 = 0xC02C6406 \<and> DESIOCQUICK i386 = 0xC02C6407 \<and>
   DESIOCBLOCK lp64 = 0xC0306406 \<and> DESIOCQUICK lp64 = 0xC0306407"
  by (simp add: desparams_def layout_eval DES_QUICKLEN_def DESIOCBLOCK_def DESIOCQUICK_def IOWR_def ioc_consts)

end
