(* ===== verification/Bitmap.thy ===== *)
theory Bitmap
  imports Sysmacros
begin

unbundle bit_operations_syntax

text \<open>
  The two bitmap packages: \<^verbatim>\<open>sys/bitmap.h\<close>, over arrays of 32-bit words, and the bit map
  macros at the end of \<^verbatim>\<open>sys/fs/ufs_fs.h\<close>, over arrays of bytes. Both are
  implementations of one interface, the locale \<open>bitset\<close>: a finite set of indices
  with test, insert and delete, where an index outside the array has no result.
\<close>

section \<open>Word maps\<close>

definition BT_ULSHIFT :: nat where "BT_ULSHIFT = 5"

definition BT_NBIPUL :: nat where "BT_NBIPUL = 2 ^ BT_ULSHIFT"

definition BT_ULMASK :: nat where "BT_ULMASK = BT_NBIPUL - 1"

definition BT_WIM :: "u32 list \<Rightarrow> nat \<Rightarrow> u32 option" where
  "BT_WIM bitmap bitindex = mem_get bitmap (drop_bit BT_ULSHIFT bitindex)"

definition BT_BIW :: "nat \<Rightarrow> u32" where
  "BT_BIW bitindex = push_bit (bitindex AND BT_ULMASK) 1"

text \<open>The sizes are computed in 32-bit unsigned arithmetic, the type of a size on the target, and wrap.\<close>

definition BT_BITOUL :: "u32 \<Rightarrow> u32" where
  "BT_BITOUL nbits = (nbits + of_nat BT_NBIPUL - 1) div of_nat BT_NBIPUL"

definition BT_SIZEOFMAP :: "u32 \<Rightarrow> u32" where
  "BT_SIZEOFMAP nbits = BT_BITOUL nbits * 4"

definition BT_TEST :: "u32 list \<Rightarrow> nat \<Rightarrow> bool option" where
  "BT_TEST bitmap bitindex = map_option (\<lambda>w. w AND BT_BIW bitindex \<noteq> 0) (BT_WIM bitmap bitindex)"

definition BT_SET :: "u32 list \<Rightarrow> nat \<Rightarrow> u32 list option" where
  "BT_SET bitmap bitindex = (case BT_WIM bitmap bitindex of None \<Rightarrow> None
     | Some w \<Rightarrow> mem_put bitmap (drop_bit BT_ULSHIFT bitindex) (w OR BT_BIW bitindex))"

definition BT_CLEAR :: "u32 list \<Rightarrow> nat \<Rightarrow> u32 list option" where
  "BT_CLEAR bitmap bitindex = (case BT_WIM bitmap bitindex of None \<Rightarrow> None
     | Some w \<Rightarrow> mem_put bitmap (drop_bit BT_ULSHIFT bitindex) (w AND NOT (BT_BIW bitindex)))"

definition BITX :: "u32 \<Rightarrow> nat \<Rightarrow> nat \<Rightarrow> u32" where
  "BITX u h l = drop_bit l u AND (push_bit (h - l + 1) 1 - 1)"

section \<open>Byte maps\<close>

definition NBBY :: nat where "NBBY = 8"

definition bitloc :: "u8 list \<Rightarrow> nat \<Rightarrow> u8 option" where
  "bitloc a i = mem_get a (i div NBBY)"

definition setbit :: "u8 list \<Rightarrow> nat \<Rightarrow> u8 list option" where
  "setbit a i = (case mem_get a (i div NBBY) of None \<Rightarrow> None
     | Some b \<Rightarrow> mem_put a (i div NBBY) (b OR push_bit (i mod NBBY) 1))"

definition clrbit :: "u8 list \<Rightarrow> nat \<Rightarrow> u8 list option" where
  "clrbit a i = (case mem_get a (i div NBBY) of None \<Rightarrow> None
     | Some b \<Rightarrow> mem_put a (i div NBBY) (b AND NOT (push_bit (i mod NBBY) 1)))"

definition isset :: "u8 list \<Rightarrow> nat \<Rightarrow> bool option" where
  "isset a i = map_option (\<lambda>b. b AND push_bit (i mod NBBY) 1 \<noteq> 0) (mem_get a (i div NBBY))"

definition isclr :: "u8 list \<Rightarrow> nat \<Rightarrow> bool option" where
  "isclr a i = map_option (\<lambda>b. b AND push_bit (i mod NBBY) 1 = 0) (mem_get a (i div NBBY))"

section \<open>The interface\<close>

definition members :: "('m \<Rightarrow> nat \<Rightarrow> bool option) \<Rightarrow> 'm \<Rightarrow> nat set" where
  "members test m = {i. test m i = Some True}"

text \<open>Setting a sequence of bits in order, as an allocator does; a bad index stops it.\<close>

fun set_bits :: "('m \<Rightarrow> nat \<Rightarrow> 'm option) \<Rightarrow> 'm \<Rightarrow> nat list \<Rightarrow> 'm option" where
  "set_bits st m [] = Some m"
| "set_bits st m (i # is) = (case st m i of None \<Rightarrow> None | Some m' \<Rightarrow> set_bits st m' is)"

locale bitset =
  fixes nbits :: "'m \<Rightarrow> nat"
    and test :: "'m \<Rightarrow> nat \<Rightarrow> bool option"
    and insert_bit :: "'m \<Rightarrow> nat \<Rightarrow> 'm option"
    and delete_bit :: "'m \<Rightarrow> nat \<Rightarrow> 'm option"
  assumes test_in: "i < nbits m \<Longrightarrow> test m i \<noteq> None"
    and test_out: "nbits m \<le> i \<Longrightarrow> test m i = None"
    and insert_in: "i < nbits m \<Longrightarrow> \<exists>m'. insert_bit m i = Some m' \<and> nbits m' = nbits m \<and>
      (\<forall>j. test m' j = (if j = i then Some True else test m j))"
    and insert_out: "nbits m \<le> i \<Longrightarrow> insert_bit m i = None"
    and delete_in: "i < nbits m \<Longrightarrow> \<exists>m'. delete_bit m i = Some m' \<and> nbits m' = nbits m \<and>
      (\<forall>j. test m' j = (if j = i then Some False else test m j))"
    and delete_out: "nbits m \<le> i \<Longrightarrow> delete_bit m i = None"
begin

lemma insert_members:
  assumes "i < nbits m"
  obtains m' where "insert_bit m i = Some m'" "nbits m' = nbits m"
    "members test m' = insert i (members test m)"
proof -
  obtain m' where m': "insert_bit m i = Some m'" "nbits m' = nbits m"
    "\<forall>j. test m' j = (if j = i then Some True else test m j)" using insert_in [OF assms] by blast
  then have "members test m' = insert i (members test m)" by (auto simp: members_def split: if_splits)
  with m' show thesis by (intro that)
qed

lemma delete_members:
  assumes "i < nbits m"
  obtains m' where "delete_bit m i = Some m'" "nbits m' = nbits m"
    "members test m' = members test m - {i}"
proof -
  obtain m' where m': "delete_bit m i = Some m'" "nbits m' = nbits m"
    "\<forall>j. test m' j = (if j = i then Some False else test m j)" using delete_in [OF assms] by blast
  then have "members test m' = members test m - {i}" by (auto simp: members_def split: if_splits)
  with m' show thesis by (intro that)
qed

lemma members_bound: "members test m \<subseteq> {..<nbits m}"
proof
  fix i assume "i \<in> members test m"
  then have "test m i \<noteq> None" by (simp add: members_def)
  then show "i \<in> {..<nbits m}" using test_out [of m i] by (cases "i < nbits m") auto
qed

lemma set_bits_members:
  "set is \<subseteq> {..<nbits m} \<Longrightarrow> \<exists>m'. set_bits insert_bit m is = Some m' \<and> nbits m' = nbits m \<and>
     members test m' = members test m \<union> set is"
proof (induction "is" arbitrary: m)
  case (Cons i "is")
  then have "i < nbits m" by simp
  then obtain m1 where m1: "insert_bit m i = Some m1" "nbits m1 = nbits m"
    "members test m1 = insert i (members test m)" by (rule insert_members)
  with Cons.prems obtain m' where "set_bits insert_bit m1 is = Some m'" "nbits m' = nbits m1"
    "members test m' = members test m1 \<union> set is" using Cons.IH [of m1] by auto
  with m1 show ?case by auto
qed simp

lemma set_bits_fails: "\<not> set is \<subseteq> {..<nbits m} \<Longrightarrow> set_bits insert_bit m is = None"
proof (induction "is" arbitrary: m)
  case (Cons i "is")
  show ?case
  proof (cases "i < nbits m")
    case True
    then obtain m1 where "insert_bit m i = Some m1" "nbits m1 = nbits m" by (rule insert_members)
    with Cons True show ?thesis by auto
  qed (simp add: insert_out)
qed simp

end

section \<open>The implementations\<close>

lemma bit_or_single: "bit (w OR 2 ^ k) j \<longleftrightarrow> bit w j \<or> j = k \<and> k < LENGTH('a)"
  for w :: "'a::len word"
  by (auto simp: bit_simps)

lemma bit_and_not_single: "bit (w AND NOT (2 ^ k)) j \<longleftrightarrow> bit w j \<and> j \<noteq> k"
  for w :: "'a::len word"
  by (auto simp: bit_simps dest: bit_imp_le_length)

lemma and_single: "w AND 2 ^ k \<noteq> 0 \<longleftrightarrow> bit w k" for w :: "'a::len word"
  by (simp add: and_exp_eq_0_iff_not_bit)

lemma BT_split: "drop_bit BT_ULSHIFT i = i div 32" "i AND BT_ULMASK = i mod 32" for i :: nat
proof -
  have "i AND BT_ULMASK = take_bit 5 i"
    unfolding take_bit_eq_mask by (simp add: BT_ULMASK_def BT_NBIPUL_def BT_ULSHIFT_def mask_eq_exp_minus_1)
  then show "i AND BT_ULMASK = i mod 32" by (simp add: take_bit_eq_mod)
qed (simp add: BT_ULSHIFT_def drop_bit_eq_div)

lemmas BT_unfold = BT_TEST_def BT_SET_def BT_CLEAR_def BT_WIM_def BT_BIW_def BT_split

lemma index_eq_iff: "i = j \<longleftrightarrow> i div n = j div n \<and> i mod n = j mod (n :: nat)"
  by (metis div_mult_mod_eq)

text \<open>One update of a word in an array of words seen as one sequence of bits.\<close>

lemma bit_list_update:
  fixes m :: "'a::len word list"
  assumes "n = LENGTH('a)" "i div n < length m"
    "\<And>k. k < n \<Longrightarrow> bit v k = (if k = i mod n then b else bit (m ! (i div n)) k)"
  shows "(if j div n < length m then Some (bit (m[i div n := v] ! (j div n)) (j mod n)) else None) =
    (if j = i then Some b else if j div n < length m then Some (bit (m ! (j div n)) (j mod n)) else None)"
proof (cases "j div n = i div n")
  case True
  have "j mod n < n" using assms(1) by simp
  moreover have "j mod n = i mod n \<longleftrightarrow> j = i" using True index_eq_iff [of j i n] by simp
  ultimately show ?thesis using True assms(2) assms(3) [of "j mod n"] by simp
next
  case False
  then have "j \<noteq> i" by auto
  with False show ?thesis by simp
qed

lemma BT_TEST_bit:
  "BT_TEST m j = (if j div 32 < length m then Some (bit (m ! (j div 32)) (j mod 32)) else None)"
  by (simp add: BT_unfold mem_get_def and_single)

lemmas byte_unfold = isset_def setbit_def clrbit_def NBBY_def

lemma isset_bit:
  "isset m j = (if j div 8 < length m then Some (bit (m ! (j div 8)) (j mod 8)) else None)"
  by (simp add: byte_unfold mem_get_def and_single)

interpretation word_map: bitset "\<lambda>m. 32 * length m" BT_TEST BT_SET BT_CLEAR
proof unfold_locales
  fix m :: "u32 list" and i :: nat
  have lt: "i div 32 < length m \<longleftrightarrow> i < 32 * length m"
    by (simp add: div_less_iff_less_mult mult.commute)
  show "BT_TEST m i \<noteq> None" if "i < 32 * length m" using that by (simp add: BT_TEST_bit lt)
  show "BT_TEST m i = None" "BT_SET m i = None" "BT_CLEAR m i = None" if "32 * length m \<le> i"
    using that lt by (simp_all add: BT_unfold mem_get_def)
  assume "i < 32 * length m"
  then have i: "i div 32 < length m" by (simp add: lt)
  show "\<exists>m'. BT_SET m i = Some m' \<and> 32 * length m' = 32 * length m \<and>
      (\<forall>j. BT_TEST m' j = (if j = i then Some True else BT_TEST m j))"
    using i bit_list_update [of 32 i m "m ! (i div 32) OR 2 ^ (i mod 32)" True]
    by (simp add: BT_SET_def BT_WIM_def BT_BIW_def BT_split BT_TEST_bit bit_or_single)
  show "\<exists>m'. BT_CLEAR m i = Some m' \<and> 32 * length m' = 32 * length m \<and>
      (\<forall>j. BT_TEST m' j = (if j = i then Some False else BT_TEST m j))"
    using i bit_list_update [of 32 i m "m ! (i div 32) AND NOT (2 ^ (i mod 32))" False]
    by (simp add: BT_CLEAR_def BT_WIM_def BT_BIW_def BT_split BT_TEST_bit bit_and_not_single)
qed

interpretation byte_map: bitset "\<lambda>m. 8 * length m" isset setbit clrbit
proof unfold_locales
  fix m :: "u8 list" and i :: nat
  have lt: "i div 8 < length m \<longleftrightarrow> i < 8 * length m"
    by (simp add: div_less_iff_less_mult mult.commute)
  show "isset m i \<noteq> None" if "i < 8 * length m" using that by (simp add: isset_bit lt)
  show "isset m i = None" "setbit m i = None" "clrbit m i = None" if "8 * length m \<le> i"
    using that lt by (simp_all add: byte_unfold mem_get_def)
  assume "i < 8 * length m"
  then have i: "i div 8 < length m" by (simp add: lt)
  show "\<exists>m'. setbit m i = Some m' \<and> 8 * length m' = 8 * length m \<and>
      (\<forall>j. isset m' j = (if j = i then Some True else isset m j))"
    using i bit_list_update [of 8 i m "m ! (i div 8) OR 2 ^ (i mod 8)" True]
    by (simp add: setbit_def NBBY_def isset_bit bit_or_single)
  show "\<exists>m'. clrbit m i = Some m' \<and> 8 * length m' = 8 * length m \<and>
      (\<forall>j. isset m' j = (if j = i then Some False else isset m j))"
    using i bit_list_update [of 8 i m "m ! (i div 8) AND NOT (2 ^ (i mod 8))" False]
    by (simp add: clrbit_def NBBY_def isset_bit bit_and_not_single)
qed

section \<open>Properties\<close>

lemma unat_BT_BITOUL:
  "unat (BT_BITOUL nbits) = (if unat nbits \<le> 2 ^ 32 - 32 then (unat nbits + 31) div 32 else 0)"
proof -
  have n: "unat nbits < 2 ^ 32" using unsigned_less [of nbits] by simp
  have "nbits + of_nat BT_NBIPUL - 1 = of_nat (unat nbits + 31)" by (simp add: BT_NBIPUL_def BT_ULSHIFT_def)
  then have "unat (nbits + of_nat BT_NBIPUL - 1) = (unat nbits + 31) mod 2 ^ 32"
    by (simp only: unat_of_nat take_bit_eq_mod) simp
  then have "unat (BT_BITOUL nbits) = (unat nbits + 31) mod 2 ^ 32 div 32"
    by (simp add: BT_BITOUL_def unat_div_distrib BT_NBIPUL_def BT_ULSHIFT_def)
  moreover have "(unat nbits + 31) mod 2 ^ 32 = unat nbits + 31 - 2 ^ 32" if "\<not> unat nbits \<le> 2 ^ 32 - 32"
    using that n by (simp add: le_mod_geq)
  ultimately show ?thesis using n by auto
qed

lemma unat_BT_SIZEOFMAP: "unat (BT_SIZEOFMAP nbits) = 4 * unat (BT_BITOUL nbits)"
proof -
  have "unat (BT_BITOUL nbits) \<le> 2 ^ 27" using unat_BT_BITOUL [of nbits] by (auto split: if_splits)
  then show ?thesis by (simp add: BT_SIZEOFMAP_def unat_word_ariths)
qed

lemma BT_room: "i < unat nbits \<Longrightarrow> unat nbits \<le> 2 ^ 32 - 32 \<Longrightarrow> i < 32 * unat (BT_BITOUL nbits)"
  using mod_less_divisor [of 32 "unat nbits + 31"] mult_div_mod_eq [of 32 "unat nbits + 31"]
  unfolding unat_BT_BITOUL by (simp only: if_True)

text \<open>C15: a map allocated with \<^verbatim>\<open>BT_SIZEOFMAP\<close> bytes for \<open>nbits\<close> bits has a word for each index below
  \<open>nbits\<close>, as long as \<open>nbits\<close> does not exceed \<open>2 ^ 32 - 32\<close>; on such an index \<^verbatim>\<open>BT_SET\<close> and \<^verbatim>\<open>BT_CLEAR\<close> insert and delete
  exactly that member of the set of indices for which \<^verbatim>\<open>BT_TEST\<close> holds. For the 31 larger counts the rounding wraps
  and the size is zero, as for no bits at all.\<close>

theorem bt_refines_set:
  assumes "4 * length m = unat (BT_SIZEOFMAP nbits)" "i < unat nbits" "unat nbits \<le> 2 ^ 32 - 32"
  shows "(\<exists>m1 m2. BT_SET m i = Some m1 \<and> members BT_TEST m1 = insert i (members BT_TEST m) \<and>
      BT_CLEAR m i = Some m2 \<and> members BT_TEST m2 = members BT_TEST m - {i} \<and>
      length m1 = length m \<and> length m2 = length m) \<and>
    (BT_SIZEOFMAP n = 0 \<longleftrightarrow> n = 0 \<or> 2 ^ 32 - 32 < unat n)"
proof
  have "i < 32 * length m" using BT_room [OF assms(2,3)] assms(1) by (simp add: unat_BT_SIZEOFMAP)
  then show "\<exists>m1 m2. BT_SET m i = Some m1 \<and> members BT_TEST m1 = insert i (members BT_TEST m) \<and>
      BT_CLEAR m i = Some m2 \<and> members BT_TEST m2 = members BT_TEST m - {i} \<and>
      length m1 = length m \<and> length m2 = length m"
    using word_map.insert_members [of i m] word_map.delete_members [of i m] by (metis mult_left_cancel zero_neq_numeral)
  have "BT_SIZEOFMAP n = 0 \<longleftrightarrow> unat (BT_SIZEOFMAP n) = 0" by (simp add: unat_eq_0)
  also have "\<dots> \<longleftrightarrow> unat n = 0 \<or> 2 ^ 32 - 32 < unat n"
    by (auto simp: unat_BT_SIZEOFMAP unat_BT_BITOUL not_le)
  finally show "BT_SIZEOFMAP n = 0 \<longleftrightarrow> n = 0 \<or> 2 ^ 32 - 32 < unat n" by (simp add: unat_eq_0)
qed

theorem bt_refines_set_witness:
  "(\<exists>m1. BT_SET [0, 0] 33 = Some m1 \<and> members BT_TEST m1 = insert 33 (members BT_TEST [0, 0])) \<and> BT_SIZEOFMAP 0xffffffe1 = 0"
  using bt_refines_set [of "[0, 0]" 40 33 "0xffffffe1"] by (auto simp: unat_BT_SIZEOFMAP unat_BT_BITOUL)

text \<open>\<^verbatim>\<open>setbit\<close> applied to a sequence of indices, as when a run of fragments is released, adds exactly them to the
  set of indices for which \<^verbatim>\<open>isset\<close> holds if all lie in the map, and has no defined result otherwise;
  \<^verbatim>\<open>isclr\<close> is the negation of \<^verbatim>\<open>isset\<close>.\<close>

theorem ufs_bits_refine_set:
  "(if set is \<subseteq> {..<8 * length a}
    then map_option (members isset) (set_bits setbit a is) = Some (members isset a \<union> set is)
    else set_bits setbit a is = None) \<and>
   isclr a i = map_option Not (isset a i)"
proof -
  have "isclr a i = map_option Not (isset a i)"
    by (simp add: isclr_def isset_def option.map_comp comp_def)
  then show ?thesis
    using byte_map.set_bits_members [of "is" a] byte_map.set_bits_fails [of "is" a] by auto
qed

text \<open>\<^verbatim>\<open>BITX\<close> extracts the bits from \<open>l\<close> to \<open>h\<close>, both included, and moves them to position 0.\<close>

theorem bitx_extracts:
  assumes "l \<le> h" "h < 32"
  shows "bit (BITX u h l) k \<longleftrightarrow> l + k \<le> h \<and> bit u (l + k)"
proof -
  have "push_bit (h - l + 1) 1 - 1 = (mask (h - l + 1) :: u32)"
    by (simp add: push_bit_of_1 mask_eq_exp_minus_1)
  then show ?thesis
    using assms by (auto simp: BITX_def bit_simps dest: bit_imp_le_length)
qed

theorem bitx_extracts_witness: "bit (BITX 0xF0 7 4) 3 \<and> \<not> bit (BITX 0x1F0 7 4) 4 \<and> BITX 0x1F0 7 4 = 0xF"
  using bitx_extracts [of 4 7 "0xF0" 3] bitx_extracts [of 4 7 "0x1F0" 4] by (simp add: BITX_def)

end
