(* ===== verification/Ufs.thy ===== *)
theory Ufs
  imports Layout Bitmap "HOL-Library.Signed_Division"
begin

unbundle bit_operations_syntax

text \<open>
  The UFS on-disk format (\<^verbatim>\<open>sys/fs/ufs_fs.h\<close>, \<^verbatim>\<open>sys/fs/ufs_inode.h\<close>,
  \<^verbatim>\<open>sys/fs/ufs_fsdir.h\<close>): the layout of the superblock, the cylinder group and the
  inode, and the macros that locate things in a file system. The fields of the
  superblock that the macros read are the record \<open>fs\<close>. Signed C integers are HOL integers: the bit operations on
  them are those of sign-extended values, \<open>drop_bit\<close> is the arithmetic right shift, a cast to \<^verbatim>\<open>int32_t\<close> is
  \<open>int32\<close>, and division truncates (\<open>sdiv\<close>, \<open>smod\<close>). An operand of an
  unsigned type is a non-negative integer.
\<close>

section \<open>Constants and layouts\<close>

definition MAXMNTLEN :: nat where "MAXMNTLEN = 512"

definition MAXCSBUFS :: nat where "MAXCSBUFS = 32"

definition MINBSIZE :: int where "MINBSIZE = 4096"

definition MAXBSIZE :: int where "MAXBSIZE = 8192"

definition MAXFRAG :: nat where "MAXFRAG = 8"

definition UFS_MAXOFFSET_T :: int where
  "UFS_MAXOFFSET_T = push_bit (NBBY * 4 + DEV_BSHIFT - 1) 1 - 1"

definition FS_MAGIC :: int where "FS_MAGIC = 0x011954"

definition MTB_UFS_MAGIC :: int where "MTB_UFS_MAGIC = 0xdecade"

definition csum_layout :: ctype where
  "csum_layout = Struct [(''cs_ndir'', CInt), (''cs_nbfree'', CInt), (''cs_nifree'', CInt), (''cs_nffree'', CInt)]"

text \<open>
  The superblock. The type \<^verbatim>\<open>quad_t\<close> is declared outside these headers and is an argument; so is the byte order,
  on which the places of \<^verbatim>\<open>fs_state\<close> and \<^verbatim>\<open>fs_npsect\<close> depend.
\<close>

definition fs_layout :: "bool \<Rightarrow> ctype \<Rightarrow> ctype" where
  "fs_layout little_endian quad = Struct [
     (''fs_link'', CInt), (''fs_rolled'', CInt), (''fs_sblkno'', CInt), (''fs_cblkno'', CInt),
     (''fs_iblkno'', CInt), (''fs_dblkno'', CInt), (''fs_cgoffset'', CInt), (''fs_cgmask'', CInt),
     (''fs_time'', CInt), (''fs_size'', CInt), (''fs_dsize'', CInt), (''fs_ncg'', CInt),
     (''fs_bsize'', CInt), (''fs_fsize'', CInt), (''fs_frag'', CInt),
     (''fs_minfree'', CInt), (''fs_rotdelay'', CInt), (''fs_rps'', CInt),
     (''fs_bmask'', CInt), (''fs_fmask'', CInt), (''fs_bshift'', CInt), (''fs_fshift'', CInt),
     (''fs_maxcontig'', CInt), (''fs_maxbpg'', CInt),
     (''fs_fragshift'', CInt), (''fs_fsbtodb'', CInt), (''fs_sbsize'', CInt), (''fs_csmask'', CInt),
     (''fs_csshift'', CInt), (''fs_nindir'', CInt), (''fs_inopb'', CInt), (''fs_nspf'', CInt),
     (''fs_optim'', CInt),
     (if little_endian then ''fs_state'' else ''fs_npsect'', CInt),
     (''fs_si'', CInt), (''fs_trackskew'', CInt),
     (''fs_id'', Array 2 CInt),
     (''fs_csaddr'', CInt), (''fs_cssize'', CInt), (''fs_cgsize'', CInt),
     (''fs_ntrak'', CInt), (''fs_nsect'', CInt), (''fs_spc'', CInt), (''fs_ncyl'', CInt),
     (''fs_cpg'', CInt), (''fs_ipg'', CInt), (''fs_fpg'', CInt),
     (''fs_cstotal'', csum_layout),
     (''fs_fmod'', CChar), (''fs_clean'', CChar), (''fs_ronly'', CChar), (''fs_flags'', CChar),
     (''fs_fsmnt'', Array MAXMNTLEN CChar),
     (''fs_cgrotor'', CInt),
     (''fs_u'', Union [(''fs_csp_pad'', Array MAXCSBUFS CInt), (''fs_csp'', CPtr)]),
     (''fs_cpc'', CInt), (''fs_opostbl'', Array 16 (Array 8 CShort)),
     (''fs_sparecon'', Array 51 CInt), (''fs_version'', CInt), (''fs_logbno'', CInt),
     (''fs_reclaim'', CInt), (''fs_sparecon2'', CInt),
     (if little_endian then ''fs_npsect'' else ''fs_state'', CInt),
     (''fs_qbmask'', quad), (''fs_qfmask'', quad),
     (''fs_postblformat'', CInt), (''fs_nrpos'', CInt), (''fs_postbloff'', CInt),
     (''fs_rotbloff'', CInt), (''fs_magic'', CInt), (''fs_space'', Array 1 CChar)]"

definition cg_layout :: ctype where
  "cg_layout = Struct [
     (''cg_link'', CInt), (''cg_magic'', CInt), (''cg_time'', CInt), (''cg_cgx'', CInt),
     (''cg_ncyl'', CShort), (''cg_niblk'', CShort), (''cg_ndblk'', CInt), (''cg_cs'', csum_layout),
     (''cg_rotor'', CInt), (''cg_frotor'', CInt), (''cg_irotor'', CInt), (''cg_frsum'', Array MAXFRAG CInt),
     (''cg_btotoff'', CInt), (''cg_boff'', CInt), (''cg_iusedoff'', CInt), (''cg_freeoff'', CInt),
     (''cg_nextfreeoff'', CInt), (''cg_sparecon'', Array 16 CInt), (''cg_space'', Array 1 CChar)]"

definition ocg_layout :: ctype where
  "ocg_layout = Struct [
     (''cg_link'', CInt), (''cg_rlink'', CInt), (''cg_time'', CInt), (''cg_cgx'', CInt),
     (''cg_ncyl'', CShort), (''cg_niblk'', CShort), (''cg_ndblk'', CInt), (''cg_cs'', csum_layout),
     (''cg_rotor'', CInt), (''cg_frotor'', CInt), (''cg_irotor'', CInt), (''cg_frsum'', Array 8 CInt),
     (''cg_btot'', Array 32 CInt), (''cg_b'', Array 32 (Array 8 CShort)), (''cg_iused'', Array 256 CChar),
     (''cg_magic'', CInt), (''cg_free'', Array 1 CChar)]"

definition NDADDR :: nat where "NDADDR = 12"

definition NIADDR :: nat where "NIADDR = 3"

definition FSL_SIZE :: nat where "FSL_SIZE = (NDADDR + NIADDR - 1) * 4"

definition icommon_layout :: ctype where
  "icommon_layout = Struct [
     (''ic_smode'', CShort), (''ic_nlink'', CShort), (''ic_suid'', CShort), (''ic_sgid'', CShort),
     (''ic_lsize'', CLongLong),
     (''ic_atime'', CInt), (''ic_atspare'', CInt), (''ic_mtime'', CInt), (''ic_mtspare'', CInt),
     (''ic_ctime'', CInt), (''ic_ctspare'', CInt),
     (''ic_db'', Array NDADDR CInt), (''ic_ib'', Array NIADDR CInt),
     (''ic_flags'', CInt), (''ic_blocks'', CInt), (''ic_gen'', CInt), (''ic_shadow'', CInt),
     (''ic_uid'', CInt), (''ic_gid'', CInt), (''ic_oeftflag'', CInt)]"

definition dinode_layout :: ctype where
  "dinode_layout = Struct [(''di_un'', Union [(''di_icom'', icommon_layout), (''di_size'', Array 128 CChar)])]"

definition MAXNAMLEN :: nat where "MAXNAMLEN = 255"

definition direct_layout :: ctype where
  "direct_layout = Struct [
     (''d_ino'', CInt), (''d_reclen'', CShort), (''d_namlen'', CShort), (''d_name'', Array (MAXNAMLEN + 1) CChar)]"

definition DIRSIZ :: "abi \<Rightarrow> nat \<Rightarrow> int" where
  "DIRSIZ A namlen = (int (size_of A direct_layout) - int (MAXNAMLEN + 1)) + ((int namlen + 1 + 3) AND NOT 3)"

section \<open>The superblock in core\<close>

record fs =
  fs_sblkno :: int
  fs_cblkno :: int
  fs_iblkno :: int
  fs_dblkno :: int
  fs_cgoffset :: int
  fs_cgmask :: int
  fs_bsize :: int
  fs_fsize :: int
  fs_frag :: int
  fs_bmask :: int
  fs_fmask :: int
  fs_bshift :: nat
  fs_fshift :: nat
  fs_fragshift :: nat
  fs_fsbtodb :: nat
  fs_nindir :: int
  fs_inopb :: int
  fs_nspf :: int
  fs_nsect :: int
  fs_spc :: int
  fs_ipg :: int
  fs_fpg :: int
  cs_nbfree :: int
  cs_nffree :: int
  fs_postblformat :: int
  fs_nrpos :: int
  fs_postbloff :: int
  fs_rotbloff :: int
  fs_magic :: int

definition int32 :: "int \<Rightarrow> int" where "int32 x = signed_take_bit 31 x"

section \<open>Cylinder groups\<close>

record cg =
  cg_magic :: int
  ocg_magic :: int
  cg_btotoff :: int
  cg_boff :: int
  cg_iusedoff :: int
  cg_freeoff :: int

definition CG_MAGIC :: int where "CG_MAGIC = 0x090255"

definition FS_DYNAMICPOSTBLFMT :: int where "FS_DYNAMICPOSTBLFMT = 1"

text \<open>The accessors give an address relative to the start of the block they look into.\<close>

definition fs_postbl :: "abi \<Rightarrow> bool \<Rightarrow> ctype \<Rightarrow> fs \<Rightarrow> int \<Rightarrow> int" where
  "fs_postbl A le quad f cylno = (if fs_postblformat f \<noteq> FS_DYNAMICPOSTBLFMT
     then int (the (offset_of A (fs_layout le quad) ''fs_opostbl'')) + 16 * cylno
     else fs_postbloff f + 2 * (cylno * fs_nrpos f))"

definition fs_rotbl :: "abi \<Rightarrow> bool \<Rightarrow> ctype \<Rightarrow> fs \<Rightarrow> int" where
  "fs_rotbl A le quad f = (if fs_postblformat f \<noteq> FS_DYNAMICPOSTBLFMT
     then int (the (offset_of A (fs_layout le quad) ''fs_space'')) else fs_rotbloff f)"

definition cg_blktot :: "abi \<Rightarrow> cg \<Rightarrow> int" where
  "cg_blktot A c = (if cg_magic c \<noteq> CG_MAGIC then int (the (offset_of A ocg_layout ''cg_btot'')) else cg_btotoff c)"

definition cg_blks :: "abi \<Rightarrow> fs \<Rightarrow> cg \<Rightarrow> int \<Rightarrow> int" where
  "cg_blks A f c cylno = (if cg_magic c \<noteq> CG_MAGIC
     then int (the (offset_of A ocg_layout ''cg_b'')) + 16 * cylno
     else cg_boff c + 2 * (cylno * fs_nrpos f))"

definition cg_inosused :: "abi \<Rightarrow> cg \<Rightarrow> int" where
  "cg_inosused A c = (if cg_magic c \<noteq> CG_MAGIC then int (the (offset_of A ocg_layout ''cg_iused'')) else cg_iusedoff c)"

definition cg_blksfree :: "abi \<Rightarrow> cg \<Rightarrow> int" where
  "cg_blksfree A c = (if cg_magic c \<noteq> CG_MAGIC then int (the (offset_of A ocg_layout ''cg_free'')) else cg_freeoff c)"

definition cg_chkmagic :: "cg \<Rightarrow> bool" where
  "cg_chkmagic c \<longleftrightarrow> cg_magic c = CG_MAGIC \<or> ocg_magic c = CG_MAGIC"

section \<open>Addresses\<close>

definition fsbtodb :: "fs \<Rightarrow> int \<Rightarrow> int" where "fsbtodb f b = push_bit (fs_fsbtodb f) b"

definition dbtofsb :: "fs \<Rightarrow> int \<Rightarrow> int" where "dbtofsb f b = drop_bit (fs_fsbtodb f) b"

definition logbtodb :: "fs \<Rightarrow> int \<Rightarrow> int" where
  "logbtodb f b = (if fs_magic f = FS_MAGIC then b else push_bit (fs_fsbtodb f) b)"

definition logbtofrag :: "fs \<Rightarrow> int \<Rightarrow> int" where
  "logbtofrag f b = (if fs_magic f = FS_MAGIC then drop_bit (fs_fsbtodb f) b else b)"

definition logbtofsblk :: "fs \<Rightarrow> int \<Rightarrow> int" where
  "logbtofsblk f b = (if fs_magic f = FS_MAGIC then drop_bit (fs_fsbtodb f + fs_fragshift f) b
     else drop_bit (fs_fragshift f) b)"

definition NSPF :: "fs \<Rightarrow> int" where "NSPF f = fs_nspf f"

definition NSPB :: "fs \<Rightarrow> int" where "NSPB f = push_bit (fs_fragshift f) (fs_nspf f)"

definition INOPB :: "fs \<Rightarrow> int" where "INOPB f = fs_inopb f"

definition INOPF :: "fs \<Rightarrow> int" where "INOPF f = drop_bit (fs_fragshift f) (fs_inopb f)"

definition NINDIR :: "fs \<Rightarrow> int" where "NINDIR f = fs_nindir f"

definition fragstoblks :: "fs \<Rightarrow> int \<Rightarrow> int" where "fragstoblks f frags = drop_bit (fs_fragshift f) frags"

definition blkstofrags :: "fs \<Rightarrow> int \<Rightarrow> int" where "blkstofrags f blks = push_bit (fs_fragshift f) blks"

definition fragnum :: "fs \<Rightarrow> int \<Rightarrow> int" where "fragnum f fsb = fsb AND (fs_frag f - 1)"

definition blknum :: "fs \<Rightarrow> int \<Rightarrow> int" where "blknum f fsb = fsb AND NOT (fs_frag f - 1)"

definition cgbase :: "fs \<Rightarrow> int \<Rightarrow> int" where "cgbase f c = int32 (fs_fpg f * c)"

definition cgstart :: "fs \<Rightarrow> int \<Rightarrow> int" where
  "cgstart f c = cgbase f c + fs_cgoffset f * (c AND NOT (fs_cgmask f))"

definition cgsblock :: "fs \<Rightarrow> int \<Rightarrow> int" where "cgsblock f c = cgstart f c + fs_sblkno f"

definition cgtod :: "fs \<Rightarrow> int \<Rightarrow> int" where "cgtod f c = cgstart f c + fs_cblkno f"

definition cgimin :: "fs \<Rightarrow> int \<Rightarrow> int" where "cgimin f c = cgstart f c + fs_iblkno f"

definition cgdmin :: "fs \<Rightarrow> int \<Rightarrow> int" where "cgdmin f c = cgstart f c + fs_dblkno f"

definition itoo :: "fs \<Rightarrow> int \<Rightarrow> int" where "itoo f x = x mod INOPB f"

definition itog :: "fs \<Rightarrow> int \<Rightarrow> int" where "itog f x = x div fs_ipg f"

definition itod :: "fs \<Rightarrow> int \<Rightarrow> int" where
  "itod f x = int32 (cgimin f (itog f x) + blkstofrags f (x mod fs_ipg f div INOPB f))"

definition dtog :: "fs \<Rightarrow> int \<Rightarrow> int" where "dtog f d = d sdiv fs_fpg f"

definition dtogd :: "fs \<Rightarrow> int \<Rightarrow> int" where "dtogd f d = d smod fs_fpg f"

definition blkmap :: "fs \<Rightarrow> u8 list \<Rightarrow> nat \<Rightarrow> u8 option" where
  "blkmap f m loc = map_option
     (\<lambda>b. drop_bit (loc mod NBBY) b AND drop_bit (NBBY - nat (fs_frag f)) 0xff) (mem_get m (loc div NBBY))"

definition cbtocylno :: "fs \<Rightarrow> int \<Rightarrow> int" where "cbtocylno f bno = (bno * NSPF f) sdiv fs_spc f"

definition cbtorpos :: "fs \<Rightarrow> int \<Rightarrow> int" where
  "cbtorpos f bno = (((bno * NSPF f) smod fs_spc f) smod fs_nsect f * fs_nrpos f) sdiv fs_nsect f"

definition blkoff :: "fs \<Rightarrow> int \<Rightarrow> int" where "blkoff f loc = int32 (loc AND NOT (fs_bmask f))"

definition fragoff :: "fs \<Rightarrow> int \<Rightarrow> int" where "fragoff f loc = int32 (loc AND NOT (fs_fmask f))"

definition lblkno :: "fs \<Rightarrow> int \<Rightarrow> int" where "lblkno f loc = int32 (drop_bit (fs_bshift f) loc)"

definition numfrags :: "fs \<Rightarrow> int \<Rightarrow> int" where "numfrags f loc = int32 (drop_bit (fs_fshift f) loc)"

definition blkroundup :: "fs \<Rightarrow> int \<Rightarrow> int" where
  "blkroundup f sz = (sz + fs_bsize f - 1) AND fs_bmask f"

definition fragroundup :: "fs \<Rightarrow> int \<Rightarrow> int" where
  "fragroundup f sz = (sz + fs_fsize f - 1) AND fs_fmask f"

definition freespace :: "fs \<Rightarrow> int \<Rightarrow> int" where
  "freespace f minfrags = (blkstofrags f (cs_nbfree f) + cs_nffree f) - minfrags"

definition blksize :: "fs \<Rightarrow> int \<Rightarrow> int \<Rightarrow> int" where
  "blksize f i_size lbn = (if int NDADDR \<le> lbn \<or> push_bit (fs_bshift f) (lbn + 1) \<le> i_size
     then fs_bsize f else fragroundup f (blkoff f i_size))"

section \<open>Consistency of a superblock\<close>

text \<open>
  The fields that \<^verbatim>\<open>can be computed from the others\<close> have the computed values, for block sizes
  between \<^verbatim>\<open>MINBSIZE\<close> and \<^verbatim>\<open>MAXBSIZE\<close>, fragments of at least one sector and at most
  \<^verbatim>\<open>MAXFRAG\<close> fragments to the block.
\<close>

definition fs_wf :: "fs \<Rightarrow> bool" where
  "fs_wf f \<longleftrightarrow> DEV_BSHIFT \<le> fs_fshift f \<and> fs_fshift f \<le> fs_bshift f \<and> fs_bshift f \<le> fs_fshift f + 3 \<and>
     MINBSIZE \<le> fs_bsize f \<and> fs_bsize f \<le> MAXBSIZE \<and>
     fs_bsize f = 2 ^ fs_bshift f \<and> fs_fsize f = 2 ^ fs_fshift f \<and>
     fs_bmask f = - fs_bsize f \<and> fs_fmask f = - fs_fsize f \<and>
     fs_fragshift f = fs_bshift f - fs_fshift f \<and> fs_frag f = 2 ^ fs_fragshift f \<and>
     fs_fsbtodb f = fs_fshift f - DEV_BSHIFT \<and> fs_nspf f = fs_fsize f div 512 \<and>
     fs_inopb f = fs_bsize f div 128 \<and> fs_nindir f = fs_bsize f div 4"

text \<open>
  The geometry of \<open>n\<close> cylinder groups: the inodes of a group fill whole blocks
  between the inode area and the data area, each group ends before the next one begins and
  all addresses fit in 32 bits.
\<close>

definition groups_wf :: "fs \<Rightarrow> nat \<Rightarrow> bool" where
  "groups_wf f n \<longleftrightarrow> 0 < fs_ipg f \<and> fs_ipg f mod fs_inopb f = 0 \<and> 0 \<le> fs_iblkno f \<and>
     fs_iblkno f + fs_ipg f div fs_inopb f * fs_frag f \<le> fs_dblkno f \<and>
     0 < fs_fpg f \<and> fs_fpg f * int n < 2 ^ 31 \<and>
     list_all (\<lambda>c. 0 \<le> fs_cgoffset f * (int c AND NOT (fs_cgmask f)) \<and>
       fs_cgoffset f * (int c AND NOT (fs_cgmask f)) + fs_dblkno f \<le> fs_fpg f) [0..<n]"

text \<open>A file system of 8K blocks and 1K fragments, with 16 groups of 4096 fragments and 1024 inodes.\<close>

definition example_fs :: fs where
  "example_fs = \<lparr>fs_sblkno = 16, fs_cblkno = 24, fs_iblkno = 32, fs_dblkno = 160, fs_cgoffset = 8,
     fs_cgmask = - 16, fs_bsize = 8192, fs_fsize = 1024, fs_frag = 8, fs_bmask = - 8192, fs_fmask = - 1024,
     fs_bshift = 13, fs_fshift = 10, fs_fragshift = 3, fs_fsbtodb = 1, fs_nindir = 2048, fs_inopb = 64,
     fs_nspf = 2, fs_nsect = 32, fs_spc = 512, fs_ipg = 1024, fs_fpg = 4096, cs_nbfree = 100, cs_nffree = 7,
     fs_postblformat = 1, fs_nrpos = 8, fs_postbloff = 1380, fs_rotbloff = 2000, fs_magic = 0x011954\<rparr>"

section \<open>Laws of the macros\<close>

lemma int32_id: "- (2 ^ 31) \<le> x \<Longrightarrow> x < 2 ^ 31 \<Longrightarrow> int32 x = x"
  by (simp add: int32_def signed_take_bit_int_eq_self)

lemma int_and_mask: "x AND (2 ^ n - 1) = x mod (2 ^ n :: int)"
  by (simp add: take_bit_eq_mod flip: mask_eq_exp_minus_1 take_bit_eq_mask)

lemma int_and_neg: "x AND - (2 ^ n) = x - x mod (2 ^ n :: int)"
proof -
  have "x AND - (2 ^ n) = x AND NOT (mask n)" by (simp add: minus_exp_eq_not_mask)
  also have "\<dots> = x - take_bit n x"
    by (subst disjunctive_diff_eq_and_not) (auto intro!: bit_eqI simp: bit_simps take_bit_eq_mask)
  finally show ?thesis by (simp add: take_bit_eq_mod)
qed

lemma not_neg_exp: "NOT (- (2 ^ n)) = (2 ^ n - 1 :: int)"
  by (simp add: not_eq_complement)

lemma round_up_int: "0 < (b :: int) \<Longrightarrow> (x + b - 1) - (x + b - 1) mod b = (x + b - 1) div b * b"
  by (simp add: minus_mod_eq_div_mult)

lemma fs_wf_shifts:
  assumes "fs_wf f"
  shows "9 \<le> fs_fshift f" "fs_fshift f \<le> fs_bshift f" "fs_bshift f \<le> 13" "12 \<le> fs_bshift f"
proof -
  have hi: "(2::int) ^ fs_bshift f \<le> 2 ^ 13" and lo: "(2::int) ^ 12 \<le> 2 ^ fs_bshift f"
    using assms by (auto simp: fs_wf_def MINBSIZE_def MAXBSIZE_def)
  show "fs_bshift f \<le> 13" by (rule power_le_imp_le_exp [OF _ hi]) simp
  show "12 \<le> fs_bshift f" by (rule power_le_imp_le_exp [OF _ lo]) simp
  show "9 \<le> fs_fshift f" "fs_fshift f \<le> fs_bshift f" using assms by (auto simp: fs_wf_def DEV_BSHIFT_def)
qed

lemma fs_wf_sizes:
  assumes "fs_wf f"
  shows "fs_bsize f = 2 ^ fs_bshift f" "fs_fsize f = 2 ^ fs_fshift f"
    "fs_bmask f = - (2 ^ fs_bshift f)" "fs_fmask f = - (2 ^ fs_fshift f)"
    "fs_frag f = 2 ^ fs_fragshift f" "fs_bsize f = fs_frag f * fs_fsize f" "fs_fragshift f \<le> 3"
    "4096 \<le> fs_bsize f" "fs_bsize f \<le> 8192" "512 \<le> fs_fsize f"
proof -
  show "fs_bsize f = fs_frag f * fs_fsize f"
    using assms by (simp add: fs_wf_def flip: power_add)
  have "(2::int) ^ 9 \<le> 2 ^ fs_fshift f" using fs_wf_shifts(1) [OF assms] by (rule power_increasing) simp
  then show "512 \<le> fs_fsize f" using assms by (simp add: fs_wf_def)
qed (use assms in \<open>auto simp: fs_wf_def MINBSIZE_def MAXBSIZE_def\<close>)

lemma mod_range: "0 < (b::int) \<Longrightarrow> b \<le> 8192 \<Longrightarrow> int32 (x mod b) = x mod b"
proof (rule int32_id)
  assume b: "0 < b" "b \<le> 8192"
  have "0 \<le> x mod b" using b by simp
  then show "- (2 ^ 31) \<le> x mod b" by simp
  have "x mod b < 8192" using pos_mod_bound [OF b(1), of x] b(2) by linarith
  then show "x mod b < 2 ^ 31" by simp
qed

lemma div_range: "0 \<le> x \<Longrightarrow> x < 2 ^ 40 \<Longrightarrow> 512 \<le> b \<Longrightarrow> int32 (x div b) = x div b"
proof (rule int32_id)
  assume x: "0 \<le> x" "x < 2 ^ 40" and b: "512 \<le> b"
  have "x div b \<le> x div 512" using x(1) b by (intro zdiv_mono2) auto
  also have "\<dots> < 2 ^ 31" using x(2) by simp
  finally show "x div b < 2 ^ 31" .
  show "- (2 ^ 31) \<le> x div b" using x(1) b pos_imp_zdiv_nonneg_iff [of b x] by simp
qed

lemma ufs_division:
  assumes "fs_wf f" "0 \<le> loc" "loc < 2 ^ 40"
  shows "blkoff f loc = loc mod fs_bsize f" "fragoff f loc = loc mod fs_fsize f"
    "lblkno f loc = loc div fs_bsize f" "numfrags f loc = loc div fs_fsize f"
    "blkroundup f loc = (loc + fs_bsize f - 1) div fs_bsize f * fs_bsize f"
    "fragroundup f loc = (loc + fs_fsize f - 1) div fs_fsize f * fs_fsize f"
proof -
  note s = fs_wf_sizes [OF assms(1)]
  have "fs_fsize f \<le> fs_bsize f"
    using s(1,2) fs_wf_shifts(2) [OF assms(1)] by (simp add: power_increasing)
  then have f: "fs_fsize f \<le> 8192" "0 < fs_fsize f" "0 < fs_bsize f" using s(8,9,10) by linarith+
  show "blkoff f loc = loc mod fs_bsize f"
    using mod_range [of "fs_bsize f" loc] f s by (simp add: blkoff_def not_neg_exp int_and_mask)
  show "fragoff f loc = loc mod fs_fsize f"
    using mod_range [of "fs_fsize f" loc] f s by (simp add: fragoff_def not_neg_exp int_and_mask)
  show "lblkno f loc = loc div fs_bsize f"
    using div_range [of loc "fs_bsize f"] assms s by (simp add: lblkno_def drop_bit_eq_div)
  show "numfrags f loc = loc div fs_fsize f"
    using div_range [of loc "fs_fsize f"] assms s by (simp add: numfrags_def drop_bit_eq_div)
  show "blkroundup f loc = (loc + fs_bsize f - 1) div fs_bsize f * fs_bsize f"
    using s by (simp add: blkroundup_def int_and_neg minus_mod_eq_div_mult)
  show "fragroundup f loc = (loc + fs_fsize f - 1) div fs_fsize f * fs_fsize f"
    using s by (simp add: fragroundup_def int_and_neg minus_mod_eq_div_mult)
qed

lemma ufs_fragments:
  assumes "fs_wf f"
  shows "fragstoblks f x = x div fs_frag f" "blkstofrags f x = x * fs_frag f"
    "fragnum f x = x mod fs_frag f" "blknum f x = x div fs_frag f * fs_frag f"
proof -
  note s = fs_wf_sizes(5) [OF assms]
  show "fragstoblks f x = x div fs_frag f" by (simp add: s fragstoblks_def drop_bit_eq_div)
  show "blkstofrags f x = x * fs_frag f" by (simp add: s blkstofrags_def push_bit_eq_mult)
  show "fragnum f x = x mod fs_frag f" by (simp add: s fragnum_def int_and_mask)
  have "NOT (fs_frag f - 1) = - (2 ^ fs_fragshift f)" by (simp add: s not_eq_complement)
  then show "blknum f x = x div fs_frag f * fs_frag f"
    by (simp add: s blknum_def int_and_neg minus_mod_eq_div_mult)
qed

lemma round_up_bounds:
  assumes "0 < (b::int)"
  shows "x \<le> (x + b - 1) div b * b" "(x + b - 1) div b * b < x + b"
proof -
  have "(x + b - 1) div b * b = x + b - 1 - (x + b - 1) mod b" by (simp add: minus_mod_eq_div_mult)
  moreover have "0 \<le> (x + b - 1) mod b" "(x + b - 1) mod b < b" using assms by simp_all
  ultimately show "x \<le> (x + b - 1) div b * b" "(x + b - 1) div b * b < x + b" by linarith+
qed

lemma round_up_le_multiple:
  assumes "0 < (b::int)" "x \<le> k * b"
  shows "(x + b - 1) div b * b \<le> k * b"
proof -
  have "(x + b - 1) div b * b < (k + 1) * b"
    using round_up_bounds(2) [OF assms(1), of x] assms(2) by (simp add: distrib_right)
  then have "(x + b - 1) div b < k + 1" using assms(1) by (simp add: mult_less_cancel_right_pos)
  then show ?thesis using assms(1) by (simp add: mult_right_mono)
qed

lemma blksize_covers:
  assumes wf: "fs_wf f" and sz: "0 \<le> sz" "sz < 2 ^ 40" and lbn: "0 \<le> lbn" "lbn * fs_bsize f < sz"
  shows "fs_fsize f dvd blksize f sz lbn" "blksize f sz lbn \<le> fs_bsize f"
    "min (fs_bsize f) (sz - lbn * fs_bsize f) \<le> blksize f sz lbn"
    "lbn < int NDADDR \<Longrightarrow> blksize f sz lbn < min (fs_bsize f) (sz - lbn * fs_bsize f) + fs_fsize f"
proof -
  note s = fs_wf_sizes [OF wf]
  have pos: "0 < fs_bsize f" "0 < fs_fsize f" using s(8,10) by linarith+
  have next_: "push_bit (fs_bshift f) (lbn + 1) = lbn * fs_bsize f + fs_bsize f"
    by (simp add: push_bit_eq_mult s(1) distrib_right)
  let ?full = "int NDADDR \<le> lbn \<or> push_bit (fs_bshift f) (lbn + 1) \<le> sz"
  have part: "blksize f sz lbn = (sz - lbn * fs_bsize f + fs_fsize f - 1) div fs_fsize f * fs_fsize f"
    and less: "sz - lbn * fs_bsize f < fs_bsize f" if "\<not> ?full"
  proof -
    show less: "sz - lbn * fs_bsize f < fs_bsize f" using that by (simp add: next_)
    then have "sz div fs_bsize f = lbn"
      using lbn(2) pos(1) by (intro int_div_pos_eq [of _ _ lbn "sz - lbn * fs_bsize f"]) (simp_all add: mult.commute)
    then have "sz mod fs_bsize f = sz - lbn * fs_bsize f" by (simp add: minus_div_mult_eq_mod [symmetric])
    moreover have "fragroundup f (sz mod fs_bsize f) =
        (sz mod fs_bsize f + fs_fsize f - 1) div fs_fsize f * fs_fsize f"
    proof (rule ufs_division(6) [OF wf])
      show "0 \<le> sz mod fs_bsize f" using pos(1) by simp
      have "sz mod fs_bsize f < fs_bsize f" using pos(1) by simp
      then have "sz mod fs_bsize f < 8192" using s(9) by linarith
      then show "sz mod fs_bsize f < 2 ^ 40" by simp
    qed
    ultimately show "blksize f sz lbn = (sz - lbn * fs_bsize f + fs_fsize f - 1) div fs_fsize f * fs_fsize f"
      using that by (simp add: blksize_def ufs_division(1) [OF wf sz])
  qed
  have full: "blksize f sz lbn = fs_bsize f" if ?full using that by (auto simp: blksize_def)
  show "fs_fsize f dvd blksize f sz lbn"
    by (cases ?full) (use full part s(6) in auto)
  have fit: "(sz - lbn * fs_bsize f + fs_fsize f - 1) div fs_fsize f * fs_fsize f \<le> fs_bsize f"
    if "sz - lbn * fs_bsize f < fs_bsize f"
    using round_up_le_multiple [OF pos(2), of "sz - lbn * fs_bsize f" "fs_frag f"] that s(6) by simp
  show "blksize f sz lbn \<le> fs_bsize f" 
    by (cases ?full) (use full part less fit in auto)
  show "min (fs_bsize f) (sz - lbn * fs_bsize f) \<le> blksize f sz lbn"
    by (cases ?full) (use full part less round_up_bounds(1) [OF pos(2), of "sz - lbn * fs_bsize f"] in auto)
  show "blksize f sz lbn < min (fs_bsize f) (sz - lbn * fs_bsize f) + fs_fsize f" if "lbn < int NDADDR"
    by (cases ?full) (use that full part less pos next_ round_up_bounds(2) [OF pos(2), of "sz - lbn * fs_bsize f"] in auto)
qed

lemma DIRSIZ_eq: "DIRSIZ A n = 8 + (int n + 4) div 4 * 4" if "size_of A direct_layout = 264"
proof -
  have "(int n + 4) AND - (2 ^ 2) = (int n + 4) div 2 ^ 2 * 2 ^ 2"
    by (simp only: int_and_neg minus_mod_eq_div_mult)
  moreover have "DIRSIZ A n = 8 + ((int n + 4) AND - (2 ^ 2))"
    using that by (simp add: DIRSIZ_def MAXNAMLEN_def not_eq_complement add.commute)
  ultimately show ?thesis by simp
qed

lemma groups_wf_start:
  assumes "groups_wf f n" "c < n"
  shows "cgbase f (int c) = fs_fpg f * int c" "fs_fpg f * int c \<le> cgstart f (int c)"
    "cgstart f (int c) + fs_dblkno f \<le> fs_fpg f * (int c + 1)" "fs_fpg f * (int c + 1) < 2 ^ 31"
proof -
  have pos: "0 < fs_fpg f" and fit: "fs_fpg f * int n < 2 ^ 31" using assms(1) by (simp_all add: groups_wf_def)
  have "fs_fpg f * (int c + 1) \<le> fs_fpg f * int n" using assms(2) pos by (intro mult_left_mono) auto
  with fit show top: "fs_fpg f * (int c + 1) < 2 ^ 31" by linarith
  have "0 \<le> fs_fpg f * int c" using pos by simp
  moreover have "fs_fpg f * int c < 2 ^ 31" using top pos by (simp add: distrib_left)
  ultimately show base: "cgbase f (int c) = fs_fpg f * int c" by (simp add: cgbase_def int32_id)
  have "0 \<le> fs_cgoffset f * (int c AND NOT (fs_cgmask f))"
    "fs_cgoffset f * (int c AND NOT (fs_cgmask f)) + fs_dblkno f \<le> fs_fpg f"
    using assms by (auto simp: groups_wf_def list_all_iff)
  then show "fs_fpg f * int c \<le> cgstart f (int c)" "cgstart f (int c) + fs_dblkno f \<le> fs_fpg f * (int c + 1)"
    by (simp_all add: cgstart_def base distrib_left)
qed

lemma div_less_int: "0 < (k::int) \<Longrightarrow> 0 \<le> x \<Longrightarrow> x < m * k \<Longrightarrow> x div k < m"
proof -
  assume k: "0 < k" and "x < m * k"
  have "x div k * k \<le> x" using pos_mod_sign [OF k, of x] minus_mod_eq_div_mult [of x k] by linarith
  also note \<open>x < m * k\<close>
  finally show "x div k < m" using k by (simp add: mult_less_cancel_right_pos)
qed

lemma sdiv_nonneg: "0 \<le> (x::int) \<Longrightarrow> 0 < y \<Longrightarrow> x sdiv y = x div y"
  by (cases "x = 0") (simp_all add: signed_divide_int_def sgn_mult)

lemma inode_address:
  assumes wf: "fs_wf f" and groups: "groups_wf f n" and x: "0 \<le> x" "x < int n * fs_ipg f"
  shows "itod f x = cgimin f (itog f x) + x mod fs_ipg f div fs_inopb f * fs_frag f"
    "dtog f (itod f x) = itog f x" "0 \<le> itog f x" "itog f x < int n"
proof -
  have ipg: "0 < fs_ipg f" using groups by (simp add: groups_wf_def)
  have inopb: "0 < fs_inopb f" using wf fs_wf_sizes(8) [OF wf] by (simp add: fs_wf_def)
  have frag: "0 < fs_frag f" using fs_wf_sizes(5) [OF wf] by simp
  show range: "0 \<le> itog f x" "itog f x < int n"
    using x ipg by (simp_all add: itog_def pos_imp_zdiv_nonneg_iff div_less_int)
  define c where "c = nat (itog f x)"
  have c: "itog f x = int c" "c < n" using range by (auto simp: c_def)
  note g = groups_wf_start [OF groups c(2)]
  let ?b = "x mod fs_ipg f div fs_inopb f * fs_frag f"
  have "fs_ipg f = fs_ipg f div fs_inopb f * fs_inopb f" using groups by (auto simp: groups_wf_def)
  then have "x mod fs_ipg f < fs_ipg f div fs_inopb f * fs_inopb f" using pos_mod_bound [OF ipg, of x] by linarith
  then have blk: "x mod fs_ipg f div fs_inopb f < fs_ipg f div fs_inopb f"
    using ipg inopb by (simp add: div_less_int)
  have "(x mod fs_ipg f div fs_inopb f + 1) * fs_frag f \<le> fs_ipg f div fs_inopb f * fs_frag f"
    using blk frag by (intro mult_right_mono) auto
  then have "?b + fs_frag f \<le> fs_ipg f div fs_inopb f * fs_frag f" by (simp add: distrib_right)
  then have b: "fs_iblkno f + ?b < fs_dblkno f" using groups frag by (auto simp: groups_wf_def)
  have b0: "0 \<le> ?b" using ipg inopb frag by (simp add: pos_imp_zdiv_nonneg_iff)
  have lo: "fs_fpg f * int c \<le> cgimin f (int c) + ?b" and hi: "cgimin f (int c) + ?b < fs_fpg f * (int c + 1)"
    using g b b0 groups by (auto simp: cgimin_def groups_wf_def)
  have pos: "0 < fs_fpg f" using groups by (simp add: groups_wf_def)
  have "int32 (cgimin f (int c) + ?b) = cgimin f (int c) + ?b"
  proof (rule int32_id)
    have "0 \<le> fs_fpg f * int c" using pos by simp
    then have "0 \<le> cgimin f (int c) + ?b" using lo by linarith
    then show "- (2 ^ 31) \<le> cgimin f (int c) + ?b" by simp
    show "cgimin f (int c) + ?b < 2 ^ 31" using hi g(4) by linarith
  qed
  then show addr: "itod f x = cgimin f (itog f x) + ?b"
    by (simp add: itod_def c(1) ufs_fragments(2) [OF wf] INOPB_def)
  have "0 \<le> itod f x" unfolding addr c(1) using lo pos by (intro order_trans [OF _ lo]) simp
  then have "dtog f (itod f x) = itod f x div fs_fpg f" using pos by (simp add: dtog_def sdiv_nonneg)
  also have "\<dots> = int c"
    using lo hi pos by (intro int_div_pos_eq [of _ _ _ "itod f x - fs_fpg f * int c"])
      (simp_all add: addr c(1) distrib_left)
  finally show "dtog f (itod f x) = itog f x" by (simp add: c(1))
qed

lemma inode_slots_distinct:
  assumes wf: "fs_wf f" and groups: "groups_wf f n"
    and x: "0 \<le> x" "x < int n * fs_ipg f" and y: "0 \<le> y" "y < int n * fs_ipg f"
    and same: "itod f x = itod f y" "itoo f x = itoo f y"
  shows "x = y"
proof -
  have ipg: "fs_inopb f dvd fs_ipg f" using groups by (auto simp: groups_wf_def)
  have frag: "fs_frag f \<noteq> 0" using fs_wf_sizes(5) [OF wf] by simp
  have group: "itog f x = itog f y"
    using inode_address(2) [OF wf groups x] inode_address(2) [OF wf groups y] same(1) by simp
  then have "x mod fs_ipg f div fs_inopb f = y mod fs_ipg f div fs_inopb f"
    using inode_address(1) [OF wf groups x] inode_address(1) [OF wf groups y] same(1) frag by simp
  moreover have "x mod fs_ipg f mod fs_inopb f = y mod fs_ipg f mod fs_inopb f"
    using same(2) ipg by (simp add: itoo_def INOPB_def mod_mod_cancel)
  ultimately have "x mod fs_ipg f = y mod fs_ipg f" by (metis div_mult_mod_eq)
  with group show "x = y" unfolding itog_def by (metis div_mult_mod_eq)
qed

lemma fragment_room:
  assumes "fs_wf f" "loc mod nat (fs_frag f) = 0"
  obtains n where "nat (fs_frag f) = 2 ^ n" "loc mod 8 + 2 ^ n \<le> 8"
proof -
  define n where "n = fs_fragshift f"
  have frag: "nat (fs_frag f) = 2 ^ n" and n: "n \<le> 3"
    using fs_wf_sizes(5,7) [OF assms(1)] by (simp_all add: n_def nat_power_eq)
  have dvd8: "(2::nat) ^ n dvd 8" using le_imp_power_dvd [OF n, of "2 :: nat"] by simp
  have "loc mod 8 mod 2 ^ n = 0" using assms(2) dvd8 frag by (simp add: mod_mod_cancel)
  then obtain q where q: "loc mod 8 = 2 ^ n * q" by auto
  obtain r where r: "(8::nat) = 2 ^ n * r" using dvd8 by auto
  have "loc mod 8 < 8" by simp
  then have "(2::nat) ^ n * q < 2 ^ n * r" using q r by linarith
  then have "q < r" by simp
  then have "2 ^ n * (q + 1) \<le> (2::nat) ^ n * r" by (intro mult_left_mono) auto
  then have room: "loc mod 8 + 2 ^ n \<le> 8" using q r by (simp add: distrib_left)
  with frag show thesis by (intro that)
qed

lemma blkmap_bits:
  assumes wf: "fs_wf f" and loc: "loc mod nat (fs_frag f) = 0" "loc + nat (fs_frag f) \<le> 8 * length m"
  shows "\<exists>w. blkmap f m loc = Some w \<and>
    (\<forall>k. bit w k \<longleftrightarrow> k < nat (fs_frag f) \<and> isset m (loc + k) = Some True)"
proof -
  obtain n where frag: "nat (fs_frag f) = 2 ^ n" and room: "loc mod 8 + 2 ^ n \<le> 8"
    using wf loc(1) by (rule fragment_room)
  have "0 < (2::nat) ^ n" by simp
  then have "loc < 8 * length m" using loc(2) frag by linarith
  then have len: "loc div 8 < length m" by (simp add: div_less_iff_less_mult mult.commute)
  have pos: "(loc + k) div 8 = loc div 8 \<and> (loc + k) mod 8 = loc mod 8 + k" if "k < 2 ^ n" for k
  proof -
    have "loc + k = 8 * (loc div 8) + (loc mod 8 + k)" by simp
    moreover have "loc mod 8 + k < 8" using that room by linarith
    ultimately show ?thesis by (metis div_mult_self4 mod_mult_self4 div_less mod_less add.commute add_0 zero_neq_numeral)
  qed
  let ?w = "drop_bit (loc mod 8) (m ! (loc div 8)) AND drop_bit (8 - 2 ^ n) (0xff :: u8)"
  have "bit ?w k \<longleftrightarrow> k < 2 ^ n \<and> isset m (loc + k) = Some True" for k
  proof -
    have ff: "(0xff :: u8) = mask 8" by (simp add: mask_eq_exp_minus_1)
    have ones: "bit (0xff :: u8) j \<longleftrightarrow> j < 8" for j unfolding ff by (auto simp: bit_mask_iff)
    have "8 - 2 ^ n + k < 8 \<longleftrightarrow> k < 2 ^ n" using room by linarith
    then have "bit ?w k \<longleftrightarrow> k < 2 ^ n \<and> bit (m ! (loc div 8)) (loc mod 8 + k)"
      using ones [of "8 - 2 ^ n + k"] by (simp only: bit_and_iff bit_drop_bit_eq comp_def) blast
    then show ?thesis using pos [of k] len by (auto simp: isset_bit)
  qed
  then show ?thesis using len by (simp add: blkmap_def NBBY_def frag)
qed

lemma blkmap_outside:
  assumes "fs_wf f" "loc mod nat (fs_frag f) = 0" "\<not> loc + nat (fs_frag f) \<le> 8 * length m"
  shows "blkmap f m loc = None"
proof -
  obtain n where frag: "nat (fs_frag f) = 2 ^ n" and room: "loc mod 8 + 2 ^ n \<le> 8"
    using assms(1,2) by (rule fragment_room)
  have "loc + 2 ^ n = 8 * (loc div 8) + (loc mod 8 + 2 ^ n)" by simp
  then have "8 * length m < 8 * (loc div 8) + 8" using assms(3) room frag by linarith
  then have "length m \<le> loc div 8" by linarith
  then show ?thesis by (simp add: blkmap_def NBBY_def)
qed

lemma example_fs_wf: "fs_wf example_fs" "groups_wf example_fs 16"
proof -
  show "fs_wf example_fs"
    by (simp add: fs_wf_def example_fs_def DEV_BSHIFT_def MINBSIZE_def MAXBSIZE_def)
  have "[0..<16] = [0, 1, 2, 3, 4, 5, 6, 7, 8, 9, 10, 11, 12, 13, 14, 15 :: nat]" by (simp add: upt_rec)
  then show "groups_wf example_fs 16" by (simp add: groups_wf_def example_fs_def)
qed

lemmas ufs_layouts = fs_layout_def csum_layout_def cg_layout_def icommon_layout_def dinode_layout_def
  MAXMNTLEN_def MAXCSBUFS_def MAXFRAG_def MINBSIZE_def NDADDR_def NIADDR_def

lemma ocg_offsets:
  assumes "A \<in> {i386, sparc, lp64}"
  shows "offset_of A ocg_layout ''cg_btot'' = Some 84" "offset_of A ocg_layout ''cg_b'' = Some 212"
    "offset_of A ocg_layout ''cg_iused'' = Some 724" "offset_of A ocg_layout ''cg_magic'' = Some 980"
    "offset_of A ocg_layout ''cg_free'' = Some 984"
proof -
  have eq: "A = i386 \<or> A = sparc \<or> A = lp64" using assms by simp
  show "offset_of A ocg_layout ''cg_btot'' = Some 84"
    using eq by (elim disjE) (simp_all add: ocg_layout_def csum_layout_def layout_eval)
  show "offset_of A ocg_layout ''cg_b'' = Some 212"
    using eq by (elim disjE) (simp_all add: ocg_layout_def csum_layout_def layout_eval)
  show "offset_of A ocg_layout ''cg_iused'' = Some 724"
    using eq by (elim disjE) (simp_all add: ocg_layout_def csum_layout_def layout_eval)
  show "offset_of A ocg_layout ''cg_magic'' = Some 980"
    using eq by (elim disjE) (simp_all add: ocg_layout_def csum_layout_def layout_eval)
  show "offset_of A ocg_layout ''cg_free'' = Some 984"
    using eq by (elim disjE) (simp_all add: ocg_layout_def csum_layout_def layout_eval)
qed

section \<open>Properties\<close>

text \<open>C28: on a consistent superblock and offsets up to 40 bits the shift and mask macros compute the
  quotients, remainders and roundings their comments give, and no cast loses a bit.\<close>

theorem ufs_shifts_divide:
  assumes "fs_wf f" "0 \<le> loc" "loc \<le> UFS_MAXOFFSET_T"
  shows "blkoff f loc = loc mod fs_bsize f \<and> fragoff f loc = loc mod fs_fsize f \<and>
    lblkno f loc = loc div fs_bsize f \<and> numfrags f loc = loc div fs_fsize f \<and>
    blkroundup f loc = (loc + fs_bsize f - 1) div fs_bsize f * fs_bsize f \<and>
    fragroundup f loc = (loc + fs_fsize f - 1) div fs_fsize f * fs_fsize f \<and>
    fragstoblks f loc = loc div fs_frag f \<and> blkstofrags f loc = loc * fs_frag f \<and>
    fragnum f loc = loc mod fs_frag f \<and> blknum f loc = loc - loc mod fs_frag f"
proof -
  have "loc < 2 ^ 40" using assms(3) by (simp add: UFS_MAXOFFSET_T_def NBBY_def DEV_BSHIFT_def)
  from ufs_division [OF assms(1,2) this] ufs_fragments [OF assms(1), of loc] show ?thesis
    by (simp add: minus_mod_eq_div_mult)
qed

theorem ufs_shifts_divide_witness:
  "blkoff example_fs 100000 = 1696 \<and> lblkno example_fs 100000 = 12 \<and> fragroundup example_fs 1696 = 2048"
  using ufs_shifts_divide [OF example_fs_wf(1), of 100000] ufs_shifts_divide [OF example_fs_wf(1), of 1696]
  by (simp add: UFS_MAXOFFSET_T_def NBBY_def DEV_BSHIFT_def example_fs_def)

text \<open>The space \<^verbatim>\<open>blksize\<close> gives for block \<open>lbn\<close> of a file is a whole number of fragments, at most
  one block, at least the bytes of the file that fall in that block, and for a direct block less than
  one fragment more than them.\<close>

theorem blksize_bounds:
  assumes "fs_wf f" "0 \<le> sz" "sz \<le> UFS_MAXOFFSET_T" "0 \<le> lbn" "lbn * fs_bsize f < sz"
  shows "fs_fsize f dvd blksize f sz lbn \<and> blksize f sz lbn \<le> fs_bsize f \<and>
    min (fs_bsize f) (sz - lbn * fs_bsize f) \<le> blksize f sz lbn \<and>
    (int NDADDR \<le> lbn \<or> blksize f sz lbn < min (fs_bsize f) (sz - lbn * fs_bsize f) + fs_fsize f)"
proof -
  have "sz < 2 ^ 40" using assms(3) by (simp add: UFS_MAXOFFSET_T_def NBBY_def DEV_BSHIFT_def)
  note * = blksize_covers [OF assms(1,2) this assms(4,5)]
  from * show ?thesis by (cases "lbn < int NDADDR") auto
qed

theorem blksize_bounds_witness:
  "8192 \<le> blksize example_fs 20000 1 \<and> 3616 \<le> blksize example_fs 20000 2 \<and> blksize example_fs 20000 2 = 4096"
  using blksize_bounds [OF example_fs_wf(1), of 20000 1] blksize_bounds [OF example_fs_wf(1), of 20000 2]
  by (simp add: UFS_MAXOFFSET_T_def NBBY_def DEV_BSHIFT_def NDADDR_def)
    (simp add: example_fs_def blksize_def fragroundup_def blkoff_def int32_def NDADDR_def)

text \<open>C14: on consistent cylinder groups every inode has a place of its own: the fragment address \<^verbatim>\<open>itod\<close>
  lies in the group \<^verbatim>\<open>itog\<close>, and two inodes with the same address and the same \<^verbatim>\<open>itoo\<close> are one.\<close>

theorem inode_places:
  assumes "fs_wf f" "groups_wf f n" "0 \<le> x" "x < int n * fs_ipg f" "0 \<le> y" "y < int n * fs_ipg f"
  shows "dtog f (itod f x) = itog f x \<and> itog f x < int n \<and>
    ((itod f x, itoo f x) = (itod f y, itoo f y) \<longleftrightarrow> x = y)"
  using inode_address(2,4) [OF assms(1-4)] inode_slots_distinct [OF assms] by auto

theorem inode_places_witness:
  "dtog example_fs (itod example_fs 5000) = 4 \<and> itod example_fs 5000 = 16560 \<and> itoo example_fs 5000 = 8"
proof -
  have "itod example_fs 5000 = 16560" "itoo example_fs 5000 = 8" "itog example_fs 5000 = 4"
    by (simp_all add: example_fs_def itod_def itoo_def itog_def cgimin_def cgstart_def cgbase_def
        blkstofrags_def INOPB_def int32_def)
  with inode_places [OF example_fs_wf, of 5000 0] show ?thesis by (simp add: example_fs_def)
qed

text \<open>C32: for the address of a block \<^verbatim>\<open>blkmap\<close> is the block's slice of the free map: bit \<open>k\<close> says whether the fragment
  \<open>loc + k\<close> is free, and a block outside the map has no slice.\<close>

theorem blkmap_slice:
  assumes "fs_wf f" "loc mod nat (fs_frag f) = 0"
  shows "if loc + nat (fs_frag f) \<le> 8 * length m
    then map_option (\<lambda>w. map (bit w) [0..<8]) (blkmap f m loc) =
      Some (map (\<lambda>k. k < nat (fs_frag f) \<and> isset m (loc + k) = Some True) [0..<8])
    else blkmap f m loc = None"
  using blkmap_bits [OF assms, of m] blkmap_outside [OF assms, of m] by auto

theorem blkmap_slice_witness: "blkmap example_fs [0, 0xF1] 8 = Some 0xF1 \<and> blkmap example_fs [0, 0xF1] 16 = None"
  using blkmap_slice [OF example_fs_wf(1), of 16 "[0, 0xF1]"] blkmap_slice [OF example_fs_wf(1), of 8 "[0, 0xF1]"]
  by (simp add: example_fs_def blkmap_def NBBY_def)

lemma narrow_lays:
  assumes "A = i386 \<or> A = sparc \<or> A = lp64"
  shows "lay A CChar = (1, 1)" "lay A CShort = (2, 2)" "lay A CInt = (4, 4)" "size_of A CLongLong = 8"
  using assms by (auto simp: lay_scalars)

lemma layouts_agree:
  assumes A: "A = i386 \<or> A = sparc \<or> A = lp64"
  shows "offsets A csum_layout = offsets i386 csum_layout" "offsets A cg_layout = offsets i386 cg_layout"
    "offsets A ocg_layout = offsets i386 ocg_layout" "offsets A direct_layout = offsets i386 direct_layout"
    "lay A csum_layout = (16, 4)" "lay A cg_layout = (172, 4)" "lay A ocg_layout = (988, 4)" "lay A direct_layout = (264, 4)"
proof -
  have i: "i386 = i386 \<or> i386 = sparc \<or> i386 = lp64" by simp
  note s = narrow_lays(1-3) [OF A] narrow_lays(1-3) [OF i]
  show "offsets A csum_layout = offsets i386 csum_layout" "offsets A cg_layout = offsets i386 cg_layout"
    "offsets A ocg_layout = offsets i386 ocg_layout" "offsets A direct_layout = offsets i386 direct_layout"
    unfolding csum_layout_def cg_layout_def ocg_layout_def direct_layout_def offsets_def ctype.case
    by (intro offsets_from_cong; simp add: s)+
  show "lay A csum_layout = (16, 4)" "lay A cg_layout = (172, 4)" "lay A ocg_layout = (988, 4)" "lay A direct_layout = (264, 4)"
    by (simp_all add: s csum_layout_def cg_layout_def ocg_layout_def direct_layout_def MAXNAMLEN_def MAXFRAG_def align_up_def del: One_nat_def)
qed

lemma inode_agrees:
  assumes "A = i386 \<or> A = sparc \<or> A = lp64"
  shows "offsets A icommon_layout = [(''ic_smode'', 0, 2), (''ic_nlink'', 2, 2), (''ic_suid'', 4, 2), (''ic_sgid'', 6, 2), (''ic_lsize'', 8, 8),
       (''ic_atime'', 16, 4), (''ic_atspare'', 20, 4), (''ic_mtime'', 24, 4), (''ic_mtspare'', 28, 4), (''ic_ctime'', 32, 4),
       (''ic_ctspare'', 36, 4), (''ic_db'', 40, 48), (''ic_ib'', 88, 12), (''ic_flags'', 100, 4), (''ic_blocks'', 104, 4),
       (''ic_gen'', 108, 4), (''ic_shadow'', 112, 4), (''ic_uid'', 116, 4), (''ic_gid'', 120, 4), (''ic_oeftflag'', 124, 4)]"
    "size_of A icommon_layout = 128" "size_of A dinode_layout = 128" "offsets A dinode_layout = [(''di_un'', 0, 128)]"
  using assms by (elim disjE; simp add: dinode_layout_def icommon_layout_def NDADDR_def NIADDR_def layout_eval del: One_nat_def)+

lemma superblock_agrees:
  assumes "A = i386 \<or> A = sparc \<or> A = lp64" "lay A quad = (8, 4)" "lay i386 quad = (8, 4)"
  shows "offsets A (fs_layout le quad) = offsets i386 (fs_layout le quad)"
proof -
  have i: "i386 = i386 \<or> i386 = sparc \<or> i386 = lp64" by simp
  note s = narrow_lays(1-3) [OF assms(1)] narrow_lays(1-3) [OF i] layouts_agree(5) [OF assms(1)] layouts_agree(5) [OF i]
  have "lay A (Union [(''fs_csp_pad'', Array MAXCSBUFS CInt), (''fs_csp'', CPtr)]) = (128, 4) \<or>
    lay A (Union [(''fs_csp_pad'', Array MAXCSBUFS CInt), (''fs_csp'', CPtr)]) = (128, 8)"
    "lay i386 (Union [(''fs_csp_pad'', Array MAXCSBUFS CInt), (''fs_csp'', CPtr)]) = (128, 4)"
    using assms(1) by (auto simp: lay_scalars MAXCSBUFS_def align_up_def)
  then show ?thesis unfolding fs_layout_def offsets_def ctype.case
    by (intro offsets_from_cong; elim disjE; simp add: s assms(2,3) MAXMNTLEN_def align_up_def del: One_nat_def lay.simps(8,9))
qed

lemma superblock_size:
  assumes "A = i386 \<or> A = sparc \<or> A = lp64" "lay A quad = (8, 4)"
  shows "size_of A (fs_layout le quad) = (if A = lp64 then 1384 else 1380)" "offset_of A (fs_layout le quad) ''fs_magic'' = Some 1372"
proof -
  have "i386 \<noteq> lp64" "sparc \<noteq> lp64" by (simp_all add: i386_def sparc_def lp64_def)
  then show "size_of A (fs_layout le quad) = (if A = lp64 then 1384 else 1380)"
    using assms by (elim disjE; simp add: ufs_layouts layout_eval)
  show "offset_of A (fs_layout le quad) ''fs_magic'' = Some 1372"
    using assms by (elim disjE; simp add: ufs_layouts layout_eval)
qed

text \<open>C39: the on-disk structures are laid out alike on the three targets, provided \<^verbatim>\<open>quad_t\<close> is 8 bytes with the alignment of
  an \<^verbatim>\<open>int\<close>: every field of the summary entry, the superblock, the cylinder group header in both formats, the inode and the
  directory entry has the same offset and size. So have the structures, except that the pointers in the superblock pad its end
  from 1380 to 1384 bytes on a 64-bit target. The fields of the inode are where the comments of its declaration say and fill
  its 128 bytes.\<close>

theorem ufs_disk_layout:
  assumes "A \<in> {i386, sparc, lp64}" "\<forall>B \<in> {i386, sparc, lp64}. lay B quad = (8, 4)"
  shows "offsets A (fs_layout le quad) = offsets i386 (fs_layout le quad) \<and>
    size_of A (fs_layout le quad) = (if A = lp64 then 1384 else 1380) \<and>
    offset_of A (fs_layout le quad) ''fs_magic'' = Some 1372 \<and>
    offsets A csum_layout = offsets i386 csum_layout \<and> size_of A csum_layout = 16 \<and>
    offsets A cg_layout = offsets i386 cg_layout \<and> size_of A cg_layout = 172 \<and>
    offsets A ocg_layout = offsets i386 ocg_layout \<and> size_of A ocg_layout = 988 \<and>
    offsets A direct_layout = offsets i386 direct_layout \<and> size_of A direct_layout = 264 \<and>
    offsets A dinode_layout = offsets i386 dinode_layout \<and> size_of A dinode_layout = 128 \<and>
    offsets A icommon_layout = offsets i386 icommon_layout \<and> unpadded i386 icommon_layout \<and>
    map (\<lambda>(f, p, s). (f, p)) (offsets A icommon_layout) =
      [(''ic_smode'', 0), (''ic_nlink'', 2), (''ic_suid'', 4), (''ic_sgid'', 6), (''ic_lsize'', 8),
       (''ic_atime'', 16), (''ic_atspare'', 20), (''ic_mtime'', 24), (''ic_mtspare'', 28), (''ic_ctime'', 32),
       (''ic_ctspare'', 36), (''ic_db'', 40), (''ic_ib'', 88), (''ic_flags'', 100), (''ic_blocks'', 104),
       (''ic_gen'', 108), (''ic_shadow'', 112), (''ic_uid'', 116), (''ic_gid'', 120), (''ic_oeftflag'', 124)]"
proof -
  have A: "A = i386 \<or> A = sparc \<or> A = lp64" using assms(1) by simp
  have i: "i386 = i386 \<or> i386 = sparc \<or> i386 = lp64" by simp
  have q: "lay A quad = (8, 4)" "lay i386 quad = (8, 4)" using assms by auto
  have "unpadded i386 icommon_layout" by (simp add: unpadded_def inode_agrees [OF i])
  then show ?thesis
    by (simp add: superblock_agrees [OF A q] superblock_size [OF A q(1)] layouts_agree [OF A] inode_agrees [OF A] inode_agrees [OF i]
        del: lay.simps)
qed

theorem ufs_disk_layout_witness:
  "offset_of lp64 (fs_layout True (Struct [(''val'', Array 2 CInt)])) ''fs_magic'' = Some 1372 \<and>
   size_of sparc (fs_layout True (Struct [(''val'', Array 2 CInt)])) = 1380"
proof -
  have "sparc \<noteq> lp64" by (simp add: sparc_def lp64_def)
  moreover have "\<forall>B \<in> {i386, sparc, lp64}. lay B (Struct [(''val'', Array 2 CInt)]) = (8, 4)" by (simp add: layout_eval)
  note ufs_disk_layout [OF _ this, of lp64 True] ufs_disk_layout [OF _ this, of sparc True]
  ultimately show ?thesis by (simp del: lay.simps)
qed

text \<open>\<^verbatim>\<open>DIRSIZ\<close> is the least multiple of four that holds the fixed part of an entry, the name and its
  terminating NUL, and for a legal name it does not exceed the size of the whole structure.\<close>

theorem dirsiz_least:
  assumes "A \<in> {i386, sparc, lp64}" "n \<le> MAXNAMLEN"
  shows "4 dvd DIRSIZ A n \<and> 8 + int n + 1 \<le> DIRSIZ A n \<and> DIRSIZ A n < 8 + int n + 1 + 4 \<and>
    DIRSIZ A n \<le> int (size_of A direct_layout)"
proof -
  have size: "size_of A direct_layout = 264"
    using assms(1) by (auto simp: direct_layout_def MAXNAMLEN_def layout_eval)
  have "(int n + 4) div 4 * 4 = int n + 4 - (int n + 4) mod 4" by (simp only: minus_mod_eq_div_mult)
  moreover have "0 \<le> (int n + 4) mod 4" "(int n + 4) mod 4 < 4" by simp_all
  moreover have "(int n + 4) div 4 \<le> 64" using assms(2) by (simp add: MAXNAMLEN_def)
  ultimately show ?thesis by (auto simp: DIRSIZ_eq [OF size] size)
qed

theorem dirsiz_least_witness: "12 \<le> DIRSIZ i386 3 \<and> DIRSIZ i386 3 < 16"
  using dirsiz_least [of i386 3] by (simp add: MAXNAMLEN_def)

text \<open>Disk addresses and fragment numbers convert back and forth, and the three readings of the log's
  address agree for both kinds of file system: its disk address in fragments is \<^verbatim>\<open>logbtofrag\<close>,
  and in blocks \<^verbatim>\<open>logbtofsblk\<close>.\<close>

theorem ufs_log_units:
  "dbtofsb f (fsbtodb f b) = b \<and> dbtofsb f (logbtodb f b) = logbtofrag f b \<and>
   fragstoblks f (logbtofrag f b) = logbtofsblk f b"
proof -
  have "drop_bit n (push_bit n x) = x" for n and x :: int by (simp add: drop_bit_eq_div push_bit_eq_mult)
  then show ?thesis
    by (simp add: dbtofsb_def fsbtodb_def logbtodb_def logbtofrag_def logbtofsblk_def fragstoblks_def add.commute)
qed

text \<open>In a cylinder group of the old format the accessors find the block totals, the block positions, the inode
  map and, after the magic number, the free map one after the other; in the new format they use the offsets
  stored in the group.\<close>

theorem cg_accessors:
  assumes "A \<in> {i386, sparc, lp64}"
  shows "if cg_magic c = CG_MAGIC
    then cg_blktot A c = cg_btotoff c \<and> cg_blks A f c y = cg_boff c + 2 * (y * fs_nrpos f) \<and>
      cg_inosused A c = cg_iusedoff c \<and> cg_blksfree A c = cg_freeoff c
    else cg_blktot A c + 4 * 32 = cg_blks A f c 0 \<and> cg_blks A f c 32 = cg_inosused A c \<and>
      cg_inosused A c + 256 = int (the (offset_of A ocg_layout ''cg_magic'')) \<and>
      cg_inosused A c + 256 + 4 = cg_blksfree A c"
  using ocg_offsets [OF assms] by (simp add: cg_blktot_def cg_blks_def cg_inosused_def cg_blksfree_def)

theorem cg_accessors_witness:
  "cg_blksfree i386 \<lparr>cg_magic = 0, ocg_magic = CG_MAGIC, cg_btotoff = 0, cg_boff = 0, cg_iusedoff = 0, cg_freeoff = 0\<rparr> = 984"
  using cg_accessors [of i386 "\<lparr>cg_magic = 0, ocg_magic = CG_MAGIC, cg_btotoff = 0, cg_boff = 0, cg_iusedoff = 0, cg_freeoff = 0\<rparr>" example_fs 0]
  by (simp add: CG_MAGIC_def ocg_offsets)

end
