(* ===== verification/Flock.thy ===== *)
theory Flock
  imports SysvPrelude
begin

unbundle bit_operations_syntax

text \<open>
  The data structures of the file lock manager (\<^verbatim>\<open>sys/flock_impl.h\<close>): lock descriptors
  with their states and flags, the circular lists of sleeping locks and of dependency
  edges, the conflict tests and the wake-up macros. Descriptors and edges live in an
  explicit store, because the list macros update the neighbours of an element through its
  links. A lock is an address, 0 being \<^verbatim>\<open>NULL\<close>; an edge is either a separate object or the one
  embedded in a lock, and the dummy head of a list is a lock like the others. An access through a dangling pointer has the
  result \<open>None\<close>.
\<close>

section \<open>Data\<close>

type_synonym lref = nat

datatype eref = Edge nat | L_edge lref

record edge =
  edge_adj_next :: eref
  edge_adj_prev :: eref
  edge_in_next :: eref
  edge_in_prev :: eref
  from_vertex :: lref
  to_vertex :: lref

datatype flk_nlm_status_t = FLK_NLM_UP | FLK_NLM_SHUTTING_DOWN | FLK_NLM_DOWN | FLK_NLM_UNKNOWN

text \<open>The owner of a request: the two fields of \<^verbatim>\<open>l_flock\<close> that the macros read.\<close>

record flock64 =
  l_pid :: int
  l_sysid :: u32

record lock_descriptor =
  l_next :: lref
  l_prev :: lref
  l_stack :: lref
  l_stack1 :: lref
  l_dstack :: lref
  l_sedge :: eref
  l_index :: int
  l_graph :: nat
  l_vnode :: nat
  l_type :: int
  l_state :: u32
  l_start :: u64
  l_end :: u64
  l_flock :: flock64
  l_color :: int
  pvertex :: int
  l_status :: nat
  l_nlm_state :: flk_nlm_status_t
  l_callbacks :: nat
  l_zoneid :: int

record graph =
  active_locks :: lref
  sleeping_locks :: lref
  index :: nat
  mark :: int

record store =
  locks :: "lref \<rightharpoonup> lock_descriptor"
  edges :: "eref \<rightharpoonup> edge"

section \<open>States and flags\<close>

definition FLK_INITIAL_STATE :: nat where "FLK_INITIAL_STATE = 1"

definition FLK_START_STATE :: nat where "FLK_START_STATE = 2"

definition FLK_ACTIVE_STATE :: nat where "FLK_ACTIVE_STATE = 3"

definition FLK_SLEEPING_STATE :: nat where "FLK_SLEEPING_STATE = 4"

definition FLK_GRANTED_STATE :: nat where "FLK_GRANTED_STATE = 5"

definition FLK_INTERRUPTED_STATE :: nat where "FLK_INTERRUPTED_STATE = 6"

definition FLK_CANCELLED_STATE :: nat where "FLK_CANCELLED_STATE = 7"

definition FLK_DEAD_STATE :: nat where "FLK_DEAD_STATE = 8"

datatype lock_flag =
    ACTIVE_LOCK | SLEEPING_LOCK | IO_LOCK | REFERENCED_LOCK | QUERY_LOCK | WILLING_TO_SLEEP_LOCK | RECOMPUTE_LOCK
  | RECOMPUTE_DONE | BARRIER_LOCK | GRANTED_LOCK | CANCELLED_LOCK | DELETED_LOCK | INTERRUPTED_LOCK
  | LOCKMGR_LOCK | PXFS_LOCK | NBMAND_LOCK

fun flag :: "lock_flag \<Rightarrow> u32" where
  "flag ACTIVE_LOCK = 0x0001"
| "flag SLEEPING_LOCK = 0x0002"
| "flag IO_LOCK = 0x0004"
| "flag REFERENCED_LOCK = 0x0008"
| "flag QUERY_LOCK = 0x0010"
| "flag WILLING_TO_SLEEP_LOCK = 0x0020"
| "flag RECOMPUTE_LOCK = 0x0040"
| "flag RECOMPUTE_DONE = 0x0080"
| "flag BARRIER_LOCK = 0x0100"
| "flag GRANTED_LOCK = 0x0200"
| "flag CANCELLED_LOCK = 0x0400"
| "flag DELETED_LOCK = 0x0800"
| "flag INTERRUPTED_LOCK = 0x1000"
| "flag LOCKMGR_LOCK = 0x2000"
| "flag PXFS_LOCK = 0x4000"
| "flag NBMAND_LOCK = 0x8000"

definition IS_INITIAL :: "lock_descriptor \<Rightarrow> bool" where "IS_INITIAL l \<longleftrightarrow> l_status l = FLK_INITIAL_STATE"

definition IS_ACTIVE :: "lock_descriptor \<Rightarrow> bool" where "IS_ACTIVE l \<longleftrightarrow> l_status l = FLK_ACTIVE_STATE"

definition IS_SLEEPING :: "lock_descriptor \<Rightarrow> bool" where "IS_SLEEPING l \<longleftrightarrow> l_status l = FLK_SLEEPING_STATE"

definition IS_GRANTED :: "lock_descriptor \<Rightarrow> bool" where "IS_GRANTED l \<longleftrightarrow> l_status l = FLK_GRANTED_STATE"

definition IS_INTERRUPTED :: "lock_descriptor \<Rightarrow> bool" where "IS_INTERRUPTED l \<longleftrightarrow> l_status l = FLK_INTERRUPTED_STATE"

definition IS_CANCELLED :: "lock_descriptor \<Rightarrow> bool" where "IS_CANCELLED l \<longleftrightarrow> l_status l = FLK_CANCELLED_STATE"

definition IS_DEAD :: "lock_descriptor \<Rightarrow> bool" where "IS_DEAD l \<longleftrightarrow> l_status l = FLK_DEAD_STATE"

definition IS_QUERY_LOCK :: "lock_descriptor \<Rightarrow> bool" where "IS_QUERY_LOCK l \<longleftrightarrow> l_state l AND flag QUERY_LOCK \<noteq> 0"

definition IS_RECOMPUTE :: "lock_descriptor \<Rightarrow> bool" where "IS_RECOMPUTE l \<longleftrightarrow> l_state l AND flag RECOMPUTE_LOCK \<noteq> 0"

definition IS_BARRIER :: "lock_descriptor \<Rightarrow> bool" where "IS_BARRIER l \<longleftrightarrow> l_state l AND flag BARRIER_LOCK \<noteq> 0"

definition IS_DELETED :: "lock_descriptor \<Rightarrow> bool" where "IS_DELETED l \<longleftrightarrow> l_state l AND flag DELETED_LOCK \<noteq> 0"

definition IS_REFERENCED :: "lock_descriptor \<Rightarrow> bool" where "IS_REFERENCED l \<longleftrightarrow> l_state l AND flag REFERENCED_LOCK \<noteq> 0"

definition IS_IO_LOCK :: "lock_descriptor \<Rightarrow> bool" where "IS_IO_LOCK l \<longleftrightarrow> l_state l AND flag IO_LOCK \<noteq> 0"

definition IS_WILLING_TO_SLEEP :: "lock_descriptor \<Rightarrow> bool" where
  "IS_WILLING_TO_SLEEP l \<longleftrightarrow> l_state l AND flag WILLING_TO_SLEEP_LOCK \<noteq> 0"

definition IS_LOCKMGR :: "lock_descriptor \<Rightarrow> bool" where "IS_LOCKMGR l \<longleftrightarrow> l_state l AND flag LOCKMGR_LOCK \<noteq> 0"

definition IS_NLM_UP :: "lock_descriptor \<Rightarrow> bool" where "IS_NLM_UP l \<longleftrightarrow> l_nlm_state l = FLK_NLM_UP"

definition IS_PXFS :: "lock_descriptor \<Rightarrow> bool" where "IS_PXFS l \<longleftrightarrow> l_state l AND flag PXFS_LOCK \<noteq> 0"

section \<open>Access to the store\<close>

definition upd_lock :: "lref \<Rightarrow> (lock_descriptor \<Rightarrow> lock_descriptor) \<Rightarrow> store \<Rightarrow> store option" where
  "upd_lock r g s = (case locks s r of None \<Rightarrow> None | Some l \<Rightarrow> Some (s\<lparr>locks := (locks s)(r \<mapsto> g l)\<rparr>))"

definition upd_edge :: "eref \<Rightarrow> (edge \<Rightarrow> edge) \<Rightarrow> store \<Rightarrow> store option" where
  "upd_edge e g s = (case edges s e of None \<Rightarrow> None | Some x \<Rightarrow> Some (s\<lparr>edges := (edges s)(e \<mapsto> g x)\<rparr>))"

text \<open>The links of the three kinds of list, with the assignments to them.\<close>

definition lock_next :: "store \<Rightarrow> lref \<Rightarrow> lref option" where "lock_next s r = map_option l_next (locks s r)"

definition lock_prev :: "store \<Rightarrow> lref \<Rightarrow> lref option" where "lock_prev s r = map_option l_prev (locks s r)"

definition set_lock_next :: "lref \<Rightarrow> lref \<Rightarrow> store \<Rightarrow> store option" where
  "set_lock_next r v s = upd_lock r (\<lambda>l. l\<lparr>l_next := v\<rparr>) s"

definition set_lock_prev :: "lref \<Rightarrow> lref \<Rightarrow> store \<Rightarrow> store option" where
  "set_lock_prev r v s = upd_lock r (\<lambda>l. l\<lparr>l_prev := v\<rparr>) s"

definition adj_next :: "store \<Rightarrow> eref \<Rightarrow> eref option" where "adj_next s e = map_option edge_adj_next (edges s e)"

definition adj_prev :: "store \<Rightarrow> eref \<Rightarrow> eref option" where "adj_prev s e = map_option edge_adj_prev (edges s e)"

definition set_adj_next :: "eref \<Rightarrow> eref \<Rightarrow> store \<Rightarrow> store option" where
  "set_adj_next e v s = upd_edge e (\<lambda>x. x\<lparr>edge_adj_next := v\<rparr>) s"

definition set_adj_prev :: "eref \<Rightarrow> eref \<Rightarrow> store \<Rightarrow> store option" where
  "set_adj_prev e v s = upd_edge e (\<lambda>x. x\<lparr>edge_adj_prev := v\<rparr>) s"

definition in_next :: "store \<Rightarrow> eref \<Rightarrow> eref option" where "in_next s e = map_option edge_in_next (edges s e)"

definition in_prev :: "store \<Rightarrow> eref \<Rightarrow> eref option" where "in_prev s e = map_option edge_in_prev (edges s e)"

definition set_in_next :: "eref \<Rightarrow> eref \<Rightarrow> store \<Rightarrow> store option" where
  "set_in_next e v s = upd_edge e (\<lambda>x. x\<lparr>edge_in_next := v\<rparr>) s"

definition set_in_prev :: "eref \<Rightarrow> eref \<Rightarrow> store \<Rightarrow> store option" where
  "set_in_prev e v s = upd_edge e (\<lambda>x. x\<lparr>edge_in_prev := v\<rparr>) s"

section \<open>Conflicts\<close>

definition F_WRLCK :: int where "F_WRLCK = 2"

definition GETSYSID :: "u32 \<Rightarrow> u32" where "GETSYSID i = i AND 0x0000ffff"

definition SAME_OWNER :: "lock_descriptor \<Rightarrow> lock_descriptor \<Rightarrow> bool" where
  "SAME_OWNER l1 l2 \<longleftrightarrow> l_pid (l_flock l1) = l_pid (l_flock l2) \<and> l_sysid (l_flock l1) = l_sysid (l_flock l2)"

definition OVERLAP :: "lock_descriptor \<Rightarrow> lock_descriptor \<Rightarrow> bool" where
  "OVERLAP l1 l2 \<longleftrightarrow> l_start l1 \<le> l_start l2 \<and> l_start l2 \<le> l_end l1 \<or>
     l_start l2 \<le> l_start l1 \<and> l_start l1 \<le> l_end l2"

definition BLOCKS :: "lock_descriptor \<Rightarrow> lock_descriptor \<Rightarrow> bool" where
  "BLOCKS l1 l2 \<longleftrightarrow> \<not> SAME_OWNER l1 l2 \<and> (l_type l1 = F_WRLCK \<or> l_type l2 = F_WRLCK) \<and> OVERLAP l1 l2"

definition COVERS :: "lock_descriptor \<Rightarrow> lock_descriptor \<Rightarrow> bool" where
  "COVERS l1 l2 \<longleftrightarrow> l_start l1 \<le> l_start l2 \<and> l_end l2 \<le> l_end l1"

definition IS_LOCAL :: "lock_descriptor \<Rightarrow> bool" where "IS_LOCAL l \<longleftrightarrow> GETSYSID (l_sysid (l_flock l)) = 0"

definition IS_REMOTE :: "lock_descriptor \<Rightarrow> bool" where "IS_REMOTE l \<longleftrightarrow> \<not> IS_LOCAL l"

definition HASH_SIZE :: nat where "HASH_SIZE = 32"

definition HASH_SHIFT :: nat where "HASH_SHIFT = HASH_SIZE - 1"

definition HASH_INDEX :: "u32 \<Rightarrow> u32" where "HASH_INDEX vp = drop_bit 7 vp AND of_nat HASH_SHIFT"

section \<open>Lists\<close>

definition IN_LIST_REMOVE :: "eref \<Rightarrow> store \<Rightarrow> store option" where
  "IN_LIST_REMOVE ep s = Option.bind (in_next s ep) (\<lambda>n. Option.bind (in_prev s ep) (\<lambda>p.
     Option.bind (set_in_prev n p s) (\<lambda>s.
     Option.bind (in_prev s ep) (\<lambda>p. Option.bind (in_next s ep) (\<lambda>n. set_in_next p n s)))))"

definition ADJ_LIST_REMOVE :: "eref \<Rightarrow> store \<Rightarrow> store option" where
  "ADJ_LIST_REMOVE ep s = Option.bind (adj_next s ep) (\<lambda>n. Option.bind (adj_prev s ep) (\<lambda>p.
     Option.bind (set_adj_prev n p s) (\<lambda>s.
     Option.bind (adj_prev s ep) (\<lambda>p. Option.bind (adj_next s ep) (\<lambda>n. set_adj_next p n s)))))"

text \<open>The assertion at the start of \<^verbatim>\<open>REMOVE_SLEEP_QUEUE\<close> is a check: a lock in another state has no result.\<close>

definition REMOVE_SLEEP_QUEUE :: "lref \<Rightarrow> store \<Rightarrow> store option" where
  "REMOVE_SLEEP_QUEUE r s = (case locks s r of None \<Rightarrow> None
     | Some l \<Rightarrow>
       if IS_SLEEPING l \<or> IS_GRANTED l \<or> IS_INTERRUPTED l \<or> IS_CANCELLED l
       then Option.bind (upd_lock r (\<lambda>l. l\<lparr>l_state := l_state l AND NOT (flag SLEEPING_LOCK)\<rparr>) s) (\<lambda>s.
         Option.bind (lock_next s r) (\<lambda>n. Option.bind (lock_prev s r) (\<lambda>p.
         Option.bind (set_lock_prev n p s) (\<lambda>s.
         Option.bind (lock_prev s r) (\<lambda>p. Option.bind (lock_next s r) (\<lambda>n.
         Option.bind (set_lock_next p n s) (\<lambda>s. upd_lock r (\<lambda>l. l\<lparr>l_next := 0, l_prev := 0\<rparr>) s)))))))
       else None)"

definition FIRST_IN :: "lref \<Rightarrow> store \<Rightarrow> eref option" where "FIRST_IN r s = in_next s (L_edge r)"

definition FIRST_ADJ :: "lref \<Rightarrow> store \<Rightarrow> eref option" where "FIRST_ADJ r s = adj_next s (L_edge r)"

definition HEAD :: "lref \<Rightarrow> eref" where "HEAD r = L_edge r"

definition NEXT_ADJ :: "eref \<Rightarrow> store \<Rightarrow> eref option" where "NEXT_ADJ e s = adj_next s e"

definition NEXT_IN :: "eref \<Rightarrow> store \<Rightarrow> eref option" where "NEXT_IN e s = in_next s e"

definition IN_ADJ_INIT :: "lref \<Rightarrow> store \<Rightarrow> store option" where
  "IN_ADJ_INIT r s = Option.bind (set_adj_prev (L_edge r) (L_edge r) s) (\<lambda>s.
     Option.bind (set_adj_next (L_edge r) (L_edge r) s) (\<lambda>s.
     Option.bind (set_in_prev (L_edge r) (L_edge r) s) (\<lambda>s. set_in_next (L_edge r) (L_edge r) s)))"

definition NOT_BLOCKED :: "lref \<Rightarrow> store \<Rightarrow> bool option" where
  "NOT_BLOCKED r s = Option.bind (adj_next s (L_edge r)) (\<lambda>e. Option.bind (locks s r) (\<lambda>l.
     Some (e = L_edge r \<and> \<not> IS_GRANTED l)))"

definition NO_DEPENDENTS :: "lref \<Rightarrow> store \<Rightarrow> bool option" where
  "NO_DEPENDENTS r s = map_option (\<lambda>e. e = L_edge r) (in_next s (L_edge r))"

definition ACTIVE_HEAD :: "graph \<Rightarrow> lref" where "ACTIVE_HEAD gp = active_locks gp"

definition SLEEPING_HEAD :: "graph \<Rightarrow> lref" where "SLEEPING_HEAD gp = sleeping_locks gp"

text \<open>The search of the sleep queue, with one unit of fuel for each test of the loop condition.\<close>

fun sleep_search :: "nat \<Rightarrow> lref \<Rightarrow> nat \<Rightarrow> lref \<Rightarrow> store \<Rightarrow> lref option" where
  "sleep_search 0 head vp r s = None"
| "sleep_search (Suc n) head vp r s = (if r = head then Some 0
     else case locks s r of None \<Rightarrow> None
       | Some l \<Rightarrow> if l_vnode l \<noteq> vp then sleep_search n head vp (l_next l) s else Some r)"

definition SET_LOCK_TO_FIRST_SLEEP_VP :: "nat \<Rightarrow> graph \<Rightarrow> nat \<Rightarrow> store \<Rightarrow> lref option" where
  "SET_LOCK_TO_FIRST_SLEEP_VP fuel gp vp s =
     Option.bind (lock_next s (SLEEPING_HEAD gp)) (\<lambda>r. sleep_search fuel (SLEEPING_HEAD gp) vp r s)"

section \<open>Stacks of locks\<close>

definition STACK_PUSH :: "lref \<Rightarrow> lref \<Rightarrow> store \<Rightarrow> (lref \<times> store) option" where
  "STACK_PUSH stack ptr s = map_option (\<lambda>s. (ptr, s)) (upd_lock ptr (\<lambda>l. l\<lparr>l_stack := stack\<rparr>) s)"

definition STACK_POP :: "lref \<Rightarrow> store \<Rightarrow> lref option" where
  "STACK_POP stack s = map_option l_stack (locks s stack)"

definition STACK_EMPTY :: "lref \<Rightarrow> bool" where "STACK_EMPTY stack \<longleftrightarrow> stack = 0"

section \<open>Wake-ups\<close>

text \<open>
  \<^verbatim>\<open>flk_set_state\<close> is defined outside the headers and is an argument \<open>st\<close>, of which nothing is assumed. The second
  component of a result says whether the condition variable of the lock is signalled.
\<close>

definition GRANT_WAKEUP :: "(lock_descriptor \<Rightarrow> nat \<Rightarrow> lock_descriptor) \<Rightarrow> lock_descriptor \<Rightarrow> lock_descriptor \<times> bool" where
  "GRANT_WAKEUP st l = (let l = st l FLK_GRANTED_STATE; l = l\<lparr>l_state := l_state l OR flag GRANTED_LOCK\<rparr> in (l, \<not> IS_PXFS l))"

definition CANCEL_WAKEUP :: "(lock_descriptor \<Rightarrow> nat \<Rightarrow> lock_descriptor) \<Rightarrow> lock_descriptor \<Rightarrow> lock_descriptor \<times> bool" where
  "CANCEL_WAKEUP st l = (let l = st l FLK_CANCELLED_STATE; l = l\<lparr>l_state := l_state l OR flag CANCELLED_LOCK\<rparr> in (l, \<not> IS_PXFS l))"

definition INTERRUPT_WAKEUP :: "(lock_descriptor \<Rightarrow> nat \<Rightarrow> lock_descriptor) \<Rightarrow> lock_descriptor \<Rightarrow> lock_descriptor \<times> bool" where
  "INTERRUPT_WAKEUP st l = (let l = st l FLK_INTERRUPTED_STATE; l = l\<lparr>l_state := l_state l OR flag INTERRUPTED_LOCK\<rparr> in (l, \<not> IS_PXFS l))"

definition GRANT :: "(lock_descriptor \<Rightarrow> nat \<Rightarrow> lock_descriptor) \<Rightarrow> lock_descriptor \<Rightarrow> lock_descriptor" where
  "GRANT st l = st (l\<lparr>l_state := l_state l OR flag GRANTED_LOCK\<rparr>) FLK_GRANTED_STATE"

definition COPY :: "lock_descriptor \<Rightarrow> lock_descriptor \<Rightarrow> lock_descriptor" where
  "COPY l1 l2 = l1\<lparr>l_graph := l_graph l2, l_vnode := l_vnode l2, l_type := l_type l2, l_state := l_state l2,
     l_start := l_start l2, l_end := l_end l2, l_flock := l_flock l2, l_zoneid := l_zoneid l2, pvertex := pvertex l2\<rparr>"

definition COLORED :: "graph \<Rightarrow> lock_descriptor \<Rightarrow> bool" where "COLORED g v \<longleftrightarrow> l_color v = mark g"

definition COLOR :: "graph \<Rightarrow> lock_descriptor \<Rightarrow> lock_descriptor" where "COLOR g v = v\<lparr>l_color := mark g\<rparr>"

definition SET_NLM_STATE :: "lock_descriptor \<Rightarrow> flk_nlm_status_t \<Rightarrow> lock_descriptor" where
  "SET_NLM_STATE l n = l\<lparr>l_nlm_state := n\<rparr>"

definition GET_NLM_STATE :: "lock_descriptor \<Rightarrow> flk_nlm_status_t" where "GET_NLM_STATE l = l_nlm_state l"

definition FLK_REGISTRY_IS_NLM_UNKNOWN :: "flk_nlm_status_t list \<Rightarrow> nat \<Rightarrow> bool option" where
  "FLK_REGISTRY_IS_NLM_UNKNOWN nlmreg nlmid = map_option (\<lambda>x. x = FLK_NLM_UNKNOWN) (mem_get nlmreg nlmid)"

definition FLK_REGISTRY_IS_NLM_UP :: "flk_nlm_status_t list \<Rightarrow> nat \<Rightarrow> bool option" where
  "FLK_REGISTRY_IS_NLM_UP nlmreg nlmid = map_option (\<lambda>x. x = FLK_NLM_UP) (mem_get nlmreg nlmid)"

definition FLK_REGISTRY_ADD_NLMID :: "flk_nlm_status_t list \<Rightarrow> nat \<Rightarrow> flk_nlm_status_t list option" where
  "FLK_REGISTRY_ADD_NLMID nlmreg nlmid = mem_put nlmreg nlmid FLK_NLM_UP"

definition FLK_REGISTRY_CHANGE_NLM_STATE :: "flk_nlm_status_t list \<Rightarrow> nat \<Rightarrow> flk_nlm_status_t \<Rightarrow> flk_nlm_status_t list option" where
  "FLK_REGISTRY_CHANGE_NLM_STATE nlmreg nlmid st = mem_put nlmreg nlmid st"

section \<open>The graph of processes\<close>

record proc_vertex =
  pid :: int
  sysid :: u32
  p_edge :: nat
  incount :: int
  p_sedge :: nat
  p_stack :: nat
  atime :: int
  dtime :: int
  p_index :: int

record proc_graph =
  proc :: "nat list"
  gcount :: int
  free :: int
  pgraph_mark :: int

definition PROC_SAME_OWNER :: "lock_descriptor \<Rightarrow> proc_vertex \<Rightarrow> bool" where
  "PROC_SAME_OWNER l v \<longleftrightarrow> l_pid (l_flock l) = pid v \<and> l_sysid (l_flock l) = sysid v"

definition PROC_ARRIVE :: "proc_graph \<Rightarrow> proc_vertex \<Rightarrow> proc_vertex" where "PROC_ARRIVE g v = v\<lparr>atime := pgraph_mark g\<rparr>"

definition PROC_DEPART :: "proc_graph \<Rightarrow> proc_vertex \<Rightarrow> proc_vertex" where "PROC_DEPART g v = v\<lparr>dtime := pgraph_mark g\<rparr>"

definition PROC_ARRIVED :: "proc_graph \<Rightarrow> proc_vertex \<Rightarrow> bool" where "PROC_ARRIVED g v \<longleftrightarrow> atime v = pgraph_mark g"

definition PROC_DEPARTED :: "proc_graph \<Rightarrow> proc_vertex \<Rightarrow> bool" where "PROC_DEPARTED g v \<longleftrightarrow> dtime v = pgraph_mark g"

section \<open>Circular lists\<close>

text \<open>
  A circular list with head \<open>h\<close> and elements \<open>xs\<close>: the links of each element and of its
  successor point at each other.
\<close>

definition ring :: "('h \<Rightarrow> 'r \<Rightarrow> 'r option) \<Rightarrow> ('h \<Rightarrow> 'r \<Rightarrow> 'r option) \<Rightarrow> 'h \<Rightarrow> 'r \<Rightarrow> 'r list \<Rightarrow> bool" where
  "ring nx pv s h xs \<longleftrightarrow> distinct (h # xs) \<and>
     list_all (\<lambda>(u, v). nx s u = Some v \<and> pv s v = Some u) (zip (h # xs) (xs @ [h]))"

text \<open>The two assignments that take an element out, in the order of the macros.\<close>

definition unlink :: "('h \<Rightarrow> 'r \<Rightarrow> 'r option) \<Rightarrow> ('h \<Rightarrow> 'r \<Rightarrow> 'r option) \<Rightarrow> ('r \<Rightarrow> 'r \<Rightarrow> 'h \<Rightarrow> 'h option) \<Rightarrow>
    ('r \<Rightarrow> 'r \<Rightarrow> 'h \<Rightarrow> 'h option) \<Rightarrow> 'r \<Rightarrow> 'h \<Rightarrow> 'h option" where
  "unlink nx pv setn setp x s = Option.bind (nx s x) (\<lambda>n. Option.bind (pv s x) (\<lambda>p.
     Option.bind (setp n p s) (\<lambda>s. Option.bind (pv s x) (\<lambda>p. Option.bind (nx s x) (\<lambda>n. setn p n s)))))"

locale linked =
  fixes nx pv :: "'h \<Rightarrow> 'r \<Rightarrow> 'r option"
    and setn setp :: "'r \<Rightarrow> 'r \<Rightarrow> 'h \<Rightarrow> 'h option"
  assumes setn_ok: "nx s r \<noteq> None \<Longrightarrow> \<exists>s'. setn r v s = Some s'"
    and setp_ok: "pv s r \<noteq> None \<Longrightarrow> \<exists>s'. setp r v s = Some s'"
    and nx_setn: "setn r v s = Some s' \<Longrightarrow> nx s' q = (if q = r then Some v else nx s q)"
    and pv_setn: "setn r v s = Some s' \<Longrightarrow> pv s' q = pv s q"
    and pv_setp: "setp r v s = Some s' \<Longrightarrow> pv s' q = (if q = r then Some v else pv s q)"
    and nx_setp: "setp r v s = Some s' \<Longrightarrow> nx s' q = nx s q"
begin

lemma unlink_links:
  assumes "nx s x = Some n" "pv s x = Some p" "pv s n \<noteq> None" "nx s p \<noteq> None" "n \<noteq> x" "p \<noteq> x"
  obtains s' where "unlink nx pv setn setp x s = Some s'"
    "\<And>q. nx s' q = (if q = p then Some n else nx s q)" "\<And>q. pv s' q = (if q = n then Some p else pv s q)"
proof -
  obtain s1 where s1: "setp n p s = Some s1" using setp_ok assms(3) by blast
  have "nx s1 p \<noteq> None" using nx_setp [OF s1] assms(4) by simp
  then obtain s2 where s2: "setn p n s1 = Some s2" using setn_ok by blast
  have "unlink nx pv setn setp x s = Some s2"
    using assms s1 s2 pv_setp [OF s1, of x] nx_setp [OF s1, of x] by (simp add: unlink_def)
  then show thesis
    by (rule that) (simp_all add: nx_setn [OF s2] pv_setn [OF s2] nx_setp [OF s1] pv_setp [OF s1])
qed

lemma ring_pairs:
  assumes "ring nx pv s h xs" "(u, v) \<in> set (zip (h # xs) (xs @ [h]))"
  shows "nx s u = Some v" "pv s v = Some u"
  using assms by (auto simp: ring_def list_all_iff)

lemma unlink_ring:
  assumes ring: "ring nx pv s h (as @ x # bs)"
  obtains s' p n where "unlink nx pv setn setp x s = Some s'" "ring nx pv s' h (as @ bs)"
    "p \<in> set (h # as)" "n \<in> set (bs @ [h])" "nx s x = Some n" "pv s x = Some p"
proof -
  obtain ps p where ps: "h # as = ps @ [p]" by (metis append_butlast_last_id list.distinct(1))
  obtain n ns where ns: "bs @ [h] = n # ns" by (metis append_is_Nil_conv list.exhaust not_Cons_self2)
  have len: "length ps = length as" using arg_cong [OF ps, of length] by simp
  have len2: "length bs = length ns" using arg_cong [OF ns, of length] by simp
  have "zip (h # as @ x # bs) ((as @ x # bs) @ [h]) = zip ((ps @ [p]) @ x # bs) (as @ x # n # ns)"
    using ps ns by (metis append.assoc append_Cons)
  also have "\<dots> = zip ps as @ (p, x) # (x, n) # zip bs ns" using len len2 by simp
  finally have old: "zip (h # as @ x # bs) ((as @ x # bs) @ [h]) = zip ps as @ (p, x) # (x, n) # zip bs ns" .
  have "zip (h # as @ bs) ((as @ bs) @ [h]) = zip ((ps @ [p]) @ bs) (as @ n # ns)"
    using ps ns by (metis append.assoc append_Cons)
  also have "\<dots> = zip ps as @ (p, n) # zip bs ns" using len len2 by simp
  finally have new: "zip (h # as @ bs) ((as @ bs) @ [h]) = zip ps as @ (p, n) # zip bs ns" .
  have dist: "distinct (h # as @ x # bs)" using ring by (simp add: ring_def)
  have p: "p \<in> set (h # as)" using ps by simp
  have n: "n \<in> set (bs @ [h])" using ns by simp
  have firsts: "distinct (ps @ [p] @ x # bs)" using dist ps by (metis append.assoc append_Cons)
  have "distinct ((as @ x # bs) @ [h])" using dist by auto
  then have seconds: "distinct (as @ x # n # ns)" using ns by simp
  note pairs = ring_pairs [OF ring, unfolded old]
  have ends: "nx s p = Some x" "nx s x = Some n" "pv s n = Some x" "pv s x = Some p"
    by (rule pairs; simp)+
  moreover have "n \<noteq> x" "p \<noteq> x" using firsts seconds by auto
  ultimately obtain s' where s': "unlink nx pv setn setp x s = Some s'"
    "\<And>q. nx s' q = (if q = p then Some n else nx s q)" "\<And>q. pv s' q = (if q = n then Some p else pv s q)"
    using unlink_links [of s x n p] by auto
  have keep: "nx s' u = Some v \<and> pv s' v = Some u" if "(u, v) \<in> set (zip ps as @ zip bs ns)" for u v
  proof -
    have "u \<in> set ps \<union> set bs" "v \<in> set as \<union> set ns" using that by (auto dest: set_zip_leftD set_zip_rightD)
    then have "u \<noteq> p" "v \<noteq> n" using firsts seconds by auto
    then show ?thesis using pairs [of u v] that s' by auto
  qed
  have "ring nx pv s' h (as @ bs)"
    unfolding ring_def
  proof
    show "distinct (h # as @ bs)" using dist by auto
    have "list_all (\<lambda>(u, v). nx s' u = Some v \<and> pv s' v = Some u) (zip ps as @ (p, n) # zip bs ns)"
      using keep s'(2) [of p] s'(3) [of n] by (auto simp: list_all_iff)
    then show "list_all (\<lambda>(u, v). nx s' u = Some v \<and> pv s' v = Some u) (zip (h # as @ bs) ((as @ bs) @ [h]))"
      by (simp only: new)
  qed
  then show thesis
    using s'(1) p n ends(2,4) by (intro that [of s' p n])
qed

end

section \<open>The three lists\<close>

lemmas link_defs = lock_next_def lock_prev_def set_lock_next_def set_lock_prev_def adj_next_def adj_prev_def
  set_adj_next_def set_adj_prev_def in_next_def in_prev_def set_in_next_def set_in_prev_def upd_lock_def upd_edge_def

interpretation sleep_list: linked lock_next lock_prev set_lock_next set_lock_prev
  by unfold_locales (auto simp: link_defs split: option.splits)

interpretation adj_list: linked adj_next adj_prev set_adj_next set_adj_prev
  by unfold_locales (auto simp: link_defs split: option.splits)

interpretation in_list: linked in_next in_prev set_in_next set_in_prev
  by unfold_locales (auto simp: link_defs split: option.splits)

declare flag.simps [simp del]

lemma edge_removals:
  "IN_LIST_REMOVE = unlink in_next in_prev set_in_next set_in_prev"
  "ADJ_LIST_REMOVE = unlink adj_next adj_prev set_adj_next set_adj_prev"
  by (auto simp: fun_eq_iff IN_LIST_REMOVE_def ADJ_LIST_REMOVE_def unlink_def)

lemma flag_not_lists: "upd_lock r (\<lambda>l. l\<lparr>l_state := g l\<rparr>) s = Some s' \<Longrightarrow>
    lock_next s' = lock_next s \<and> lock_prev s' = lock_prev s"
  by (auto simp: link_defs fun_eq_iff split: option.splits)

lemma ring_frame:
  assumes "\<And>q. q \<in> set (h # xs) \<Longrightarrow> nx s' q = nx s q \<and> pv s' q = pv s q"
  shows "ring nx pv s' h xs = ring nx pv s h xs"
proof -
  have "nx s' u = nx s u \<and> pv s' v = pv s v" if "(u, v) \<in> set (zip (h # xs) (xs @ [h]))" for u v
    using set_zip_leftD [OF that] set_zip_rightD [OF that] assms [of u] assms [of v] by auto
  then have "list_all (\<lambda>(u, v). nx s' u = Some v \<and> pv s' v = Some u) (zip (h # xs) (xs @ [h])) \<longleftrightarrow>
      list_all (\<lambda>(u, v). nx s u = Some v \<and> pv s v = Some u) (zip (h # xs) (xs @ [h]))"
    unfolding list_all_iff by (intro ball_cong refl) auto
  then show ?thesis by (simp only: ring_def)
qed

lemma unlink_lock_frame:
  assumes "unlink lock_next lock_prev set_lock_next set_lock_prev r s = Some s'" "lock_next s r = Some n"
    "lock_prev s r = Some p" "n \<noteq> r" "p \<noteq> r"
  shows "locks s' r = locks s r"
  using assms by (auto simp: unlink_def link_defs split: option.splits bind_splits)

lemma remove_sleep_queue:
  assumes ring: "ring lock_next lock_prev s h (as @ r # bs)"
    and l: "locks s r = Some l" "IS_SLEEPING l \<or> IS_GRANTED l \<or> IS_INTERRUPTED l \<or> IS_CANCELLED l"
  obtains s' where "REMOVE_SLEEP_QUEUE r s = Some s'" "ring lock_next lock_prev s' h (as @ bs)"
    "locks s' r = Some (l\<lparr>l_state := l_state l AND NOT (flag SLEEPING_LOCK), l_next := 0, l_prev := 0\<rparr>)"
proof -
  define s1 where "s1 = s\<lparr>locks := (locks s)(r \<mapsto> l\<lparr>l_state := l_state l AND NOT (flag SLEEPING_LOCK)\<rparr>)\<rparr>"
  have upd: "upd_lock r (\<lambda>l. l\<lparr>l_state := l_state l AND NOT (flag SLEEPING_LOCK)\<rparr>) s = Some s1"
    by (simp add: upd_lock_def l s1_def)
  have ring1: "ring lock_next lock_prev s1 h (as @ r # bs)"
    using ring flag_not_lists [OF upd] by (simp add: ring_def)
  obtain s2 p n where s2: "unlink lock_next lock_prev set_lock_next set_lock_prev r s1 = Some s2"
    "ring lock_next lock_prev s2 h (as @ bs)" "p \<in> set (h # as)" "n \<in> set (bs @ [h])"
    "lock_next s1 r = Some n" "lock_prev s1 r = Some p"
    using ring1 by (rule sleep_list.unlink_ring)
  have r: "r \<notin> set (h # as @ bs)" using ring by (auto simp: ring_def)
  have l2: "locks s2 r = Some (l\<lparr>l_state := l_state l AND NOT (flag SLEEPING_LOCK)\<rparr>)"
    using unlink_lock_frame [OF s2(1) s2(5,6)] s2(3,4) r by (auto simp: s1_def)
  define s3 where "s3 = s2\<lparr>locks := (locks s2)(r \<mapsto> l\<lparr>l_state := l_state l AND NOT (flag SLEEPING_LOCK), l_next := 0, l_prev := 0\<rparr>)\<rparr>"
  have last: "upd_lock r (\<lambda>l. l\<lparr>l_next := 0, l_prev := 0\<rparr>) s2 = Some s3"
    by (simp add: upd_lock_def l2 s3_def)
  have "ring lock_next lock_prev s3 h (as @ bs)"
    using s2(2) r by (subst ring_frame [of _ _ _ _ s2]) (auto simp: s3_def lock_next_def lock_prev_def)
  moreover have "REMOVE_SLEEP_QUEUE r s = Some s3"
    using l s2(1) last by (simp add: REMOVE_SLEEP_QUEUE_def upd unlink_def bind_eq_Some_conv) blast
  moreover have "locks s3 r = Some (l\<lparr>l_state := l_state l AND NOT (flag SLEEPING_LOCK), l_next := 0, l_prev := 0\<rparr>)"
    by (simp add: s3_def)
  ultimately show thesis by (intro that)
qed

section \<open>Searching the sleep queue\<close>

lemma ring_step:
  assumes "ring nx pv s h (as @ x # bs)"
  shows "nx s x = Some (hd (bs @ [h]))"
proof -
  have "(h # as @ x # bs) ! Suc (length as) = x" "((as @ x # bs) @ [h]) ! Suc (length as) = hd (bs @ [h])"
    by (simp_all add: nth_append hd_conv_nth)
  then have "(x, hd (bs @ [h])) \<in> set (zip (h # as @ x # bs) ((as @ x # bs) @ [h]))"
    by (auto simp: set_zip intro!: exI [of _ "Suc (length as)"])
  then show ?thesis using assms by (auto simp: ring_def list_all_iff)
qed

lemma sleep_search_finds:
  assumes "ring lock_next lock_prev s h (as @ bs)" "length bs < n"
  shows "sleep_search n h vp (hd (bs @ [h])) s =
    Some (case List.find (\<lambda>r. map_option l_vnode (locks s r) = Some vp) bs of None \<Rightarrow> 0 | Some r \<Rightarrow> r)"
  using assms
proof (induction n arbitrary: as bs)
  case (Suc n)
  show ?case
  proof (cases bs)
    case (Cons b cs)
    have nx: "lock_next s b = Some (hd (cs @ [h]))" using ring_step Suc.prems(1) Cons by fastforce
    then obtain l where l: "locks s b = Some l" "l_next l = hd (cs @ [h])" by (auto simp: lock_next_def)
    have "b \<noteq> h" using Suc.prems(1) Cons by (auto simp: ring_def)
    moreover have "sleep_search n h vp (hd (cs @ [h])) s =
        Some (case List.find (\<lambda>r. map_option l_vnode (locks s r) = Some vp) cs of None \<Rightarrow> 0 | Some r \<Rightarrow> r)"
      using Suc.prems Cons by (intro Suc.IH [of "as @ [b]"]) auto
    ultimately show ?thesis using l Cons by simp
  qed simp
qed simp

lemma ring_first:
  assumes "ring nx pv s h xs"
  shows "nx s h = Some (hd (xs @ [h]))"
  using assms by (cases xs) (auto simp: ring_def)

section \<open>States\<close>

lemmas wakeup_defs = GRANT_WAKEUP_def CANCEL_WAKEUP_def INTERRUPT_WAKEUP_def GRANT_def Let_def

lemma pxfs_flag:
  assumes "f AND flag PXFS_LOCK = 0"
  shows "IS_PXFS (l\<lparr>l_state := l_state l OR f\<rparr>) \<longleftrightarrow> IS_PXFS l"
  using assms by (simp add: IS_PXFS_def bit.conj_disj_distrib2)

lemma wakeup_flags: "flag GRANTED_LOCK AND flag PXFS_LOCK = 0" "flag CANCELLED_LOCK AND flag PXFS_LOCK = 0" "flag INTERRUPTED_LOCK AND flag PXFS_LOCK = 0"
  by (simp_all add: flag.simps)

section \<open>Ranges\<close>

lemma overlap_meets:
  assumes "l_start l1 \<le> l_end l1" "l_start l2 \<le> l_end l2"
  shows "OVERLAP l1 l2 \<longleftrightarrow> {l_start l1..l_end l1} \<inter> {l_start l2..l_end l2} \<noteq> {}"
proof -
  have "{l_start l1..l_end l1} \<inter> {l_start l2..l_end l2} =
      {max (l_start l1) (l_start l2)..min (l_end l1) (l_end l2)}" by (rule Int_atLeastAtMost)
  also have "\<dots> \<noteq> {} \<longleftrightarrow> max (l_start l1) (l_start l2) \<le> min (l_end l1) (l_end l2)" by (simp only: atLeastatMost_empty_iff2 atLeastatMost_empty_iff not_not)
  also have "\<dots> \<longleftrightarrow> OVERLAP l1 l2" using assms unfolding OVERLAP_def by (auto simp: max_def)
  finally show ?thesis by simp
qed

section \<open>A small store\<close>

text \<open>Two sleeping locks on the vnodes 6 and 7 in the queue with head 10, and an edge from lock 12 to lock 11.\<close>

definition example_lock :: "lref \<Rightarrow> lref \<Rightarrow> nat \<Rightarrow> lock_descriptor" where
  "example_lock n p vp = \<lparr>l_next = n, l_prev = p, l_stack = 0, l_stack1 = 0, l_dstack = 0, l_sedge = Edge 0, l_index = 0,
     l_graph = 0, l_vnode = vp, l_type = F_WRLCK, l_state = flag SLEEPING_LOCK, l_start = 0, l_end = 9,
     l_flock = \<lparr>l_pid = 1, l_sysid = 0\<rparr>, l_color = 0, pvertex = 0, l_status = FLK_SLEEPING_STATE,
     l_nlm_state = FLK_NLM_UP, l_callbacks = 0, l_zoneid = 0\<rparr>"

definition example_store :: store where
  "example_store = \<lparr>locks = [10 \<mapsto> example_lock 11 12 0, 11 \<mapsto> example_lock 12 10 6, 12 \<mapsto> example_lock 10 11 7],
     edges = [L_edge 11 \<mapsto> \<lparr>edge_adj_next = L_edge 11, edge_adj_prev = L_edge 11, edge_in_next = Edge 1, edge_in_prev = Edge 1,
          from_vertex = 11, to_vertex = 11\<rparr>,
        L_edge 12 \<mapsto> \<lparr>edge_adj_next = Edge 1, edge_adj_prev = Edge 1, edge_in_next = L_edge 12, edge_in_prev = L_edge 12,
          from_vertex = 12, to_vertex = 12\<rparr>,
        Edge 1 \<mapsto> \<lparr>edge_adj_next = L_edge 12, edge_adj_prev = L_edge 12, edge_in_next = L_edge 11, edge_in_prev = L_edge 11,
          from_vertex = 12, to_vertex = 11\<rparr>]\<rparr>"

lemma example_lists:
  "ring lock_next lock_prev example_store 10 [11, 12]"
  "ring in_next in_prev example_store (L_edge 11) [Edge 1]"
  "ring adj_next adj_prev example_store (L_edge 12) [Edge 1]"
  "locks example_store 12 = Some (example_lock 10 11 7)"
  "IS_SLEEPING (example_lock 10 11 7)"
  by (simp_all add: ring_def example_store_def link_defs example_lock_def IS_SLEEPING_def)

section \<open>Properties\<close>

text \<open>C12: the removal macros on well-formed circular lists. Taking a lock out of the sleep queue clears its
  sleeping flag and its links and leaves the queue of the other locks in their order; the two macros for edges do the same
  to the list of an edge, whatever its position.\<close>

theorem list_removals:
  assumes "ring lock_next lock_prev s h (as @ r # bs)" "locks s r = Some l"
    "IS_SLEEPING l \<or> IS_GRANTED l \<or> IS_INTERRUPTED l \<or> IS_CANCELLED l"
    "ring in_next in_prev s h1 (as1 @ e1 # bs1)" "ring adj_next adj_prev s h2 (as2 @ e2 # bs2)"
  shows "(\<exists>s'. REMOVE_SLEEP_QUEUE r s = Some s' \<and> ring lock_next lock_prev s' h (as @ bs) \<and>
      locks s' r = Some (l\<lparr>l_state := l_state l AND NOT (flag SLEEPING_LOCK), l_next := 0, l_prev := 0\<rparr>)) \<and>
    (\<exists>s'. IN_LIST_REMOVE e1 s = Some s' \<and> ring in_next in_prev s' h1 (as1 @ bs1)) \<and>
    (\<exists>s'. ADJ_LIST_REMOVE e2 s = Some s' \<and> ring adj_next adj_prev s' h2 (as2 @ bs2))"
proof (intro conjI)
  show "\<exists>s'. REMOVE_SLEEP_QUEUE r s = Some s' \<and> ring lock_next lock_prev s' h (as @ bs) \<and>
      locks s' r = Some (l\<lparr>l_state := l_state l AND NOT (flag SLEEPING_LOCK), l_next := 0, l_prev := 0\<rparr>)"
    using assms(1-3) by (rule remove_sleep_queue) blast
  show "\<exists>s'. IN_LIST_REMOVE e1 s = Some s' \<and> ring in_next in_prev s' h1 (as1 @ bs1)"
    unfolding edge_removals using assms(4) by (rule in_list.unlink_ring) blast
  show "\<exists>s'. ADJ_LIST_REMOVE e2 s = Some s' \<and> ring adj_next adj_prev s' h2 (as2 @ bs2)"
    unfolding edge_removals using assms(5) by (rule adj_list.unlink_ring) blast
qed

theorem list_removals_witness:
  "(\<exists>s'. REMOVE_SLEEP_QUEUE 12 example_store = Some s' \<and> ring lock_next lock_prev s' 10 [11] \<and>
      map_option l_next (locks s' 12) = Some 0) \<and>
   (\<exists>s'. IN_LIST_REMOVE (Edge 1) example_store = Some s' \<and> ring in_next in_prev s' (L_edge 11) []) \<and>
   (\<exists>s'. ADJ_LIST_REMOVE (Edge 1) example_store = Some s' \<and> ring adj_next adj_prev s' (L_edge 12) [])"
  using list_removals [of example_store 10 "[11]" 12 "[]" "example_lock 10 11 7" "L_edge 11" "[]" "Edge 1" "[]" "L_edge 12" "[]" "Edge 1" "[]"]
    example_lists by (auto simp: example_lock_def)

text \<open>C16: the search of the sleep queue ends: with one test of the condition for each sleeping lock and one more it returns the
  first lock on the given vnode, and \<^verbatim>\<open>NULL\<close> when there is none.\<close>

theorem first_sleep_vp:
  assumes "ring lock_next lock_prev s (SLEEPING_HEAD gp) xs" "length xs < n"
  shows "SET_LOCK_TO_FIRST_SLEEP_VP n gp vp s =
    Some (case List.find (\<lambda>r. map_option l_vnode (locks s r) = Some vp) xs of None \<Rightarrow> 0 | Some r \<Rightarrow> r)"
  using sleep_search_finds [of s _ "[]"] assms ring_first [OF assms(1)] by (simp add: SET_LOCK_TO_FIRST_SLEEP_VP_def)

theorem first_sleep_vp_witness:
  "SET_LOCK_TO_FIRST_SLEEP_VP 3 \<lparr>active_locks = 20, sleeping_locks = 10, index = 0, mark = 0\<rparr> 7 example_store = Some 12"
  using first_sleep_vp [of example_store "\<lparr>active_locks = 20, sleeping_locks = 10, index = 0, mark = 0\<rparr>" "[11, 12]" 3 7]
    example_lists(1) by (simp add: SLEEPING_HEAD_def example_store_def example_lock_def)

text \<open>C29: on requests with \<^verbatim>\<open>l_start\<close> at most \<^verbatim>\<open>l_end\<close>, \<^verbatim>\<open>OVERLAP\<close> says that some offset
  lies in both ranges, \<^verbatim>\<open>COVERS\<close> that every offset of the second lies in the first, and \<^verbatim>\<open>BLOCKS\<close> is
  symmetric, never holds between requests of one owner nor between two read locks.\<close>

theorem conflicts_are_intervals:
  assumes "l_start l1 \<le> l_end l1" "l_start l2 \<le> l_end l2"
  shows "(OVERLAP l1 l2 \<longleftrightarrow> {l_start l1..l_end l1} \<inter> {l_start l2..l_end l2} \<noteq> {}) \<and>
    (COVERS l1 l2 \<longleftrightarrow> {l_start l2..l_end l2} \<subseteq> {l_start l1..l_end l1}) \<and>
    (BLOCKS l1 l2 \<longleftrightarrow> BLOCKS l2 l1) \<and>
    (BLOCKS l1 l2 \<longleftrightarrow> \<not> SAME_OWNER l1 l2 \<and> F_WRLCK \<in> {l_type l1, l_type l2} \<and>
       {l_start l1..l_end l1} \<inter> {l_start l2..l_end l2} \<noteq> {})"
proof -
  have meet: "OVERLAP l1 l2 \<longleftrightarrow> {l_start l1..l_end l1} \<inter> {l_start l2..l_end l2} \<noteq> {}"
    using assms by (rule overlap_meets)
  have "COVERS l1 l2 \<longleftrightarrow> {l_start l2..l_end l2} \<subseteq> {l_start l1..l_end l1}"
    using assms by (auto simp: COVERS_def)
  moreover have "BLOCKS l1 l2 \<longleftrightarrow> BLOCKS l2 l1" by (simp only: BLOCKS_def OVERLAP_def SAME_OWNER_def) argo
  moreover have "BLOCKS l1 l2 \<longleftrightarrow> \<not> SAME_OWNER l1 l2 \<and> F_WRLCK \<in> {l_type l1, l_type l2} \<and>
       {l_start l1..l_end l1} \<inter> {l_start l2..l_end l2} \<noteq> {}"
    by (simp only: BLOCKS_def meet insert_iff empty_iff simp_thms eq_commute [of F_WRLCK])
  ultimately show ?thesis using meet by (intro conjI)
qed

theorem conflicts_are_intervals_witness:
  "OVERLAP (example_lock 0 0 7) (example_lock 0 0 7) \<and> \<not> BLOCKS (example_lock 0 0 7) (example_lock 0 0 7)"
  using conflicts_are_intervals [of "example_lock 0 0 7" "example_lock 0 0 7"]
  by (simp add: example_lock_def SAME_OWNER_def)

text \<open>Whatever \<^verbatim>\<open>flk_set_state\<close> does, the flag that a wake-up macro raises does not change whether the lock belongs to PXFS: the
  lock is signalled exactly when it does not after that call.\<close>

theorem wakeups_signal:
  "(snd (GRANT_WAKEUP st l) \<longleftrightarrow> \<not> IS_PXFS (st l FLK_GRANTED_STATE)) \<and>
   (snd (CANCEL_WAKEUP st l) \<longleftrightarrow> \<not> IS_PXFS (st l FLK_CANCELLED_STATE)) \<and>
   (snd (INTERRUPT_WAKEUP st l) \<longleftrightarrow> \<not> IS_PXFS (st l FLK_INTERRUPTED_STATE))"
  by (simp add: wakeup_defs pxfs_flag wakeup_flags)

end
