(* ===== verification/HsfsSpec.thy ===== *)
theory HsfsSpec
  imports Bitmap
begin

unbundle bit_operations_syntax

text \<open>
  The High Sierra disc format (\<^verbatim>\<open>sys/fs/hsfs_spec.h\<close>): macros that read the fields of a volume
  descriptor, a path table entry and a directory record straight from the bytes of a sector. A buffer is a list of
  bytes and a pointer into it an index; a read outside the buffer has the result \<open>None\<close>. The definitions are those of a
  little-endian target where the header distinguishes. The headers name two macros for each field, one in lower case for its address and one in upper case for its
  value; here the fields of a structure are a type, with the lower-case names as constructors, and the two groups of macros are two functions
  on it.
\<close>

section \<open>Integers\<close>

text \<open>What a load of a \<^verbatim>\<open>short\<close> or an \<^verbatim>\<open>int\<close> finds in a little-endian memory.\<close>

definition load16 :: "u8 list \<Rightarrow> nat \<Rightarrow> u16 option" where
  "load16 m x = Option.bind (mem_get m x) (\<lambda>a. Option.bind (mem_get m (x + 1)) (\<lambda>b.
     Some (ucast a OR push_bit 8 (ucast b))))"

definition load32 :: "u8 list \<Rightarrow> nat \<Rightarrow> u32 option" where
  "load32 m x = Option.bind (load16 m x) (\<lambda>a. Option.bind (load16 m (x + 2)) (\<lambda>b.
     Some (ucast a OR push_bit 16 (ucast b))))"

definition ZERO :: "u8 list \<Rightarrow> nat \<Rightarrow> u32 option" where "ZERO m x = map_option ucast (mem_get m (x))"

definition ONE :: "u8 list \<Rightarrow> nat \<Rightarrow> u32 option" where "ONE m x = map_option ucast (mem_get m (x + 1))"

definition TWO :: "u8 list \<Rightarrow> nat \<Rightarrow> u32 option" where "TWO m x = map_option ucast (mem_get m (x + 2))"

definition THREE :: "u8 list \<Rightarrow> nat \<Rightarrow> u32 option" where "THREE m x = map_option ucast (mem_get m (x + 3))"

definition MSB_INT :: "u8 list \<Rightarrow> nat \<Rightarrow> u32 option" where
  "MSB_INT m x = Option.bind (ZERO m x) (\<lambda>a. Option.bind (ONE m x) (\<lambda>b. Option.bind (TWO m x) (\<lambda>c. Option.bind (THREE m x) (\<lambda>d.
     Some (push_bit 8 (push_bit 8 (push_bit 8 a OR b) OR c) OR d)))))"

definition LSB_INT :: "u8 list \<Rightarrow> nat \<Rightarrow> u32 option" where
  "LSB_INT m x = Option.bind (THREE m x) (\<lambda>a. Option.bind (TWO m x) (\<lambda>b. Option.bind (ONE m x) (\<lambda>c. Option.bind (ZERO m x) (\<lambda>d.
     Some (push_bit 8 (push_bit 8 (push_bit 8 a OR b) OR c) OR d)))))"

definition MSB_SHORT :: "u8 list \<Rightarrow> nat \<Rightarrow> u32 option" where
  "MSB_SHORT m x = Option.bind (ZERO m x) (\<lambda>a. Option.bind (ONE m x) (\<lambda>b. Some (push_bit 8 a OR b)))"

definition LSB_SHORT :: "u8 list \<Rightarrow> nat \<Rightarrow> u32 option" where
  "LSB_SHORT m x = Option.bind (ONE m x) (\<lambda>a. Option.bind (ZERO m x) (\<lambda>b. Some (push_bit 8 a OR b)))"

definition BOTH_SHORT :: "u8 list \<Rightarrow> nat \<Rightarrow> int option" where
  "BOTH_SHORT m x = map_option sint (load16 m x)"

definition BOTH_INT :: "u8 list \<Rightarrow> nat \<Rightarrow> int option" where
  "BOTH_INT m x = map_option sint (load32 m x)"

text \<open>The forms for SPARC.\<close>

definition BOTH_SHORT_sparc :: "u8 list \<Rightarrow> nat \<Rightarrow> u32 option" where "BOTH_SHORT_sparc m x = LSB_SHORT m x"

definition BOTH_INT_sparc :: "u8 list \<Rightarrow> nat \<Rightarrow> u32 option" where "BOTH_INT_sparc m x = LSB_INT m x"

text \<open>What a value macro gives: a pointer into the buffer, a byte, a signed or an unsigned number.\<close>

datatype hs_value = Pointer nat | Byte "u8 option" | Number "int option" | Unsigned "u32 option"

fun byte_of :: "hs_value \<Rightarrow> u8 option" where
  "byte_of (Byte b) = b"
| "byte_of _ = None"

section \<open>Sectors\<close>

definition HS_SECTOR_SIZE :: nat where "HS_SECTOR_SIZE = 2048"

section \<open>Volume descriptor\<close>

datatype hs_voldesc_type =
    VD_BOOT | VD_SFS | VD_CCFS | VD_UNSPEC | VD_EOV

fun hs_voldesc_type_code :: "hs_voldesc_type \<Rightarrow> u8" where
  "hs_voldesc_type_code VD_BOOT = 0"
| "hs_voldesc_type_code VD_SFS = 1"
| "hs_voldesc_type_code VD_CCFS = 2"
| "hs_voldesc_type_code VD_UNSPEC = 3"
| "hs_voldesc_type_code VD_EOV = 255"

definition HSV_ID_STRLEN :: nat where "HSV_ID_STRLEN = 5"

definition HSV_DATE_LEN :: nat where "HSV_DATE_LEN = 16"

datatype hsv_field =
    HSV_desc_lbn | HSV_desc_type | HSV_std_id | HSV_std_ver | HSV_sys_id | HSV_vol_id | HSV_vol_size
  | HSV_set_size | HSV_set_seq | HSV_blk_size | HSV_ptbl_size | HSV_ptbl_man_ls | HSV_ptbl_opt_ls1
  | HSV_ptbl_opt_ls2 | HSV_ptbl_opt_ls3 | HSV_ptbl_man_ms | HSV_ptbl_opt_ms1 | HSV_ptbl_opt_ms2
  | HSV_ptbl_opt_ms3 | HSV_root_dir | HSV_vol_set_id | HSV_pub_id | HSV_prep_id | HSV_appl_id | HSV_copyr_id
  | HSV_abstr_id | HSV_cre_date | HSV_mod_date | HSV_exp_date | HSV_eff_date | HSV_file_struct_ver

fun HSV_field :: "hsv_field \<Rightarrow> nat \<Rightarrow> nat" where
  "HSV_field HSV_desc_lbn x = x + 0"
| "HSV_field HSV_desc_type x = x + 8"
| "HSV_field HSV_std_id x = x + 9"
| "HSV_field HSV_std_ver x = x + 14"
| "HSV_field HSV_sys_id x = x + 16"
| "HSV_field HSV_vol_id x = x + 48"
| "HSV_field HSV_vol_size x = x + 88"
| "HSV_field HSV_set_size x = x + 128"
| "HSV_field HSV_set_seq x = x + 132"
| "HSV_field HSV_blk_size x = x + 136"
| "HSV_field HSV_ptbl_size x = x + 140"
| "HSV_field HSV_ptbl_man_ls x = x + 148"
| "HSV_field HSV_ptbl_opt_ls1 x = x + 152"
| "HSV_field HSV_ptbl_opt_ls2 x = x + 156"
| "HSV_field HSV_ptbl_opt_ls3 x = x + 160"
| "HSV_field HSV_ptbl_man_ms x = x + 164"
| "HSV_field HSV_ptbl_opt_ms1 x = x + 168"
| "HSV_field HSV_ptbl_opt_ms2 x = x + 172"
| "HSV_field HSV_ptbl_opt_ms3 x = x + 176"
| "HSV_field HSV_root_dir x = x + 180"
| "HSV_field HSV_vol_set_id x = x + 214"
| "HSV_field HSV_pub_id x = x + 342"
| "HSV_field HSV_prep_id x = x + 470"
| "HSV_field HSV_appl_id x = x + 598"
| "HSV_field HSV_copyr_id x = x + 726"
| "HSV_field HSV_abstr_id x = x + 758"
| "HSV_field HSV_cre_date x = x + 790"
| "HSV_field HSV_mod_date x = x + 806"
| "HSV_field HSV_exp_date x = x + 822"
| "HSV_field HSV_eff_date x = x + 838"
| "HSV_field HSV_file_struct_ver x = x + 854"

fun HSV_value :: "hsv_field \<Rightarrow> u8 list \<Rightarrow> nat \<Rightarrow> hs_value" where
  "HSV_value HSV_desc_lbn m x = Number (BOTH_INT m (HSV_field HSV_desc_lbn x))"
| "HSV_value HSV_desc_type m x = Byte (mem_get m (HSV_field HSV_desc_type x))"
| "HSV_value HSV_std_id m x = Pointer (HSV_field HSV_std_id x)"
| "HSV_value HSV_std_ver m x = Byte (mem_get m (HSV_field HSV_std_ver x))"
| "HSV_value HSV_sys_id m x = Pointer (HSV_field HSV_sys_id x)"
| "HSV_value HSV_vol_id m x = Pointer (HSV_field HSV_vol_id x)"
| "HSV_value HSV_vol_size m x = Number (BOTH_INT m (HSV_field HSV_vol_size x))"
| "HSV_value HSV_set_size m x = Number (BOTH_SHORT m (HSV_field HSV_set_size x))"
| "HSV_value HSV_set_seq m x = Number (BOTH_SHORT m (HSV_field HSV_set_seq x))"
| "HSV_value HSV_blk_size m x = Number (BOTH_SHORT m (HSV_field HSV_blk_size x))"
| "HSV_value HSV_ptbl_size m x = Number (BOTH_INT m (HSV_field HSV_ptbl_size x))"
| "HSV_value HSV_ptbl_man_ls m x = Unsigned (LSB_INT m (HSV_field HSV_ptbl_man_ls x))"
| "HSV_value HSV_ptbl_opt_ls1 m x = Unsigned (LSB_INT m (HSV_field HSV_ptbl_opt_ls1 x))"
| "HSV_value HSV_ptbl_opt_ls2 m x = Unsigned (LSB_INT m (HSV_field HSV_ptbl_opt_ls2 x))"
| "HSV_value HSV_ptbl_opt_ls3 m x = Unsigned (LSB_INT m (HSV_field HSV_ptbl_opt_ls3 x))"
| "HSV_value HSV_ptbl_man_ms m x = Unsigned (MSB_INT m (HSV_field HSV_ptbl_man_ms x))"
| "HSV_value HSV_ptbl_opt_ms1 m x = Unsigned (MSB_INT m (HSV_field HSV_ptbl_opt_ms1 x))"
| "HSV_value HSV_ptbl_opt_ms2 m x = Unsigned (MSB_INT m (HSV_field HSV_ptbl_opt_ms2 x))"
| "HSV_value HSV_ptbl_opt_ms3 m x = Unsigned (MSB_INT m (HSV_field HSV_ptbl_opt_ms3 x))"
| "HSV_value HSV_root_dir m x = Pointer (HSV_field HSV_root_dir x)"
| "HSV_value HSV_vol_set_id m x = Pointer (HSV_field HSV_vol_set_id x)"
| "HSV_value HSV_pub_id m x = Pointer (HSV_field HSV_pub_id x)"
| "HSV_value HSV_prep_id m x = Pointer (HSV_field HSV_prep_id x)"
| "HSV_value HSV_appl_id m x = Pointer (HSV_field HSV_appl_id x)"
| "HSV_value HSV_copyr_id m x = Pointer (HSV_field HSV_copyr_id x)"
| "HSV_value HSV_abstr_id m x = Pointer (HSV_field HSV_abstr_id x)"
| "HSV_value HSV_cre_date m x = Pointer (HSV_field HSV_cre_date x)"
| "HSV_value HSV_mod_date m x = Pointer (HSV_field HSV_mod_date x)"
| "HSV_value HSV_exp_date m x = Pointer (HSV_field HSV_exp_date x)"
| "HSV_value HSV_eff_date m x = Pointer (HSV_field HSV_eff_date x)"
| "HSV_value HSV_file_struct_ver m x = Byte (mem_get m (HSV_field HSV_file_struct_ver x))"

text \<open>The lengths of the texts.\<close>

fun HSV_STRLEN :: "hsv_field \<Rightarrow> nat option" where
  "HSV_STRLEN HSV_sys_id = Some 32"
| "HSV_STRLEN HSV_vol_id = Some 32"
| "HSV_STRLEN HSV_vol_set_id = Some 128"
| "HSV_STRLEN HSV_pub_id = Some 128"
| "HSV_STRLEN HSV_prep_id = Some 128"
| "HSV_STRLEN HSV_appl_id = Some 128"
| "HSV_STRLEN HSV_copyr_id = Some 32"
| "HSV_STRLEN HSV_abstr_id = Some 32"
| "HSV_STRLEN _ = None"

text \<open>Its dates, written as digits, and a time zone.\<close>

datatype date_part =
    Date_year | Date_month | Date_day | Date_hour | Date_min | Date_sec | Date_hsec | Date_gmtoff

definition HSV_DATE_2DIG :: "u8 list \<Rightarrow> nat \<Rightarrow> int option" where
  "HSV_DATE_2DIG m x = Option.bind (mem_get m x) (\<lambda>a. Option.bind (mem_get m (x + 1)) (\<lambda>b.
     Some ((uint a - 48) * 10 + (uint b - 48))))"

definition HSV_DATE_4DIG :: "u8 list \<Rightarrow> nat \<Rightarrow> int option" where
  "HSV_DATE_4DIG m x = Option.bind (mem_get m x) (\<lambda>a. Option.bind (mem_get m (x + 1)) (\<lambda>b.
     Option.bind (mem_get m (x + 2)) (\<lambda>c. Option.bind (mem_get m (x + 3)) (\<lambda>d.
     Some ((uint a - 48) * 1000 + (uint b - 48) * 100 + (uint c - 48) * 10 + (uint d - 48))))))"

fun HSV_DATE :: "date_part \<Rightarrow> u8 list \<Rightarrow> nat \<Rightarrow> int option" where
  "HSV_DATE Date_year m x = HSV_DATE_4DIG m (x + 0)"
| "HSV_DATE Date_month m x = HSV_DATE_2DIG m (x + 4)"
| "HSV_DATE Date_day m x = HSV_DATE_2DIG m (x + 6)"
| "HSV_DATE Date_hour m x = HSV_DATE_2DIG m (x + 8)"
| "HSV_DATE Date_min m x = HSV_DATE_2DIG m (x + 10)"
| "HSV_DATE Date_sec m x = HSV_DATE_2DIG m (x + 12)"
| "HSV_DATE Date_hsec m x = HSV_DATE_2DIG m (x + 14)"
| "HSV_DATE Date_gmtoff m x = map_option sint (mem_get m (x + 16))"

section \<open>Path table entries\<close>

definition HPE_FPESIZE :: nat where "HPE_FPESIZE = 8"

datatype hpe_field =
    HPE_ext_lbn | HPE_xar_len | HPE_name_len | HPE_parent_no | HPE_name

fun HPE_field :: "hpe_field \<Rightarrow> nat \<Rightarrow> nat" where
  "HPE_field HPE_ext_lbn x = x + 0"
| "HPE_field HPE_xar_len x = x + 4"
| "HPE_field HPE_name_len x = x + 5"
| "HPE_field HPE_parent_no x = x + 6"
| "HPE_field HPE_name x = x + 8"

fun HPE_value :: "hpe_field \<Rightarrow> u8 list \<Rightarrow> nat \<Rightarrow> hs_value" where
  "HPE_value HPE_ext_lbn m x = Number (map_option sint (load32 m (HPE_field HPE_ext_lbn x)))"
| "HPE_value HPE_xar_len m x = Byte (mem_get m (HPE_field HPE_xar_len x))"
| "HPE_value HPE_name_len m x = Byte (mem_get m (HPE_field HPE_name_len x))"
| "HPE_value HPE_parent_no m x = Number (map_option sint (load16 m (HPE_field HPE_parent_no x)))"
| "HPE_value HPE_name m x = Pointer (HPE_field HPE_name x)"

section \<open>Directory records\<close>

definition HDE_ROOT_DIR_REC_SIZE :: nat where "HDE_ROOT_DIR_REC_SIZE = 34"

definition HDE_FDESIZE :: nat where "HDE_FDESIZE = 33"

datatype hde_field =
    HDE_dir_len | HDE_xar_len | HDE_ext_lbn | HDE_ext_size | HDE_cdate | HDE_flags | HDE_reserved
  | HDE_intrlv_size | HDE_intrlv_skip | HDE_vol_set | HDE_name_len | HDE_name

fun HDE_field :: "hde_field \<Rightarrow> nat \<Rightarrow> nat" where
  "HDE_field HDE_dir_len x = x + 0"
| "HDE_field HDE_xar_len x = x + 1"
| "HDE_field HDE_ext_lbn x = x + 2"
| "HDE_field HDE_ext_size x = x + 10"
| "HDE_field HDE_cdate x = x + 18"
| "HDE_field HDE_flags x = x + 24"
| "HDE_field HDE_reserved x = x + 25"
| "HDE_field HDE_intrlv_size x = x + 26"
| "HDE_field HDE_intrlv_skip x = x + 27"
| "HDE_field HDE_vol_set x = x + 28"
| "HDE_field HDE_name_len x = x + 32"
| "HDE_field HDE_name x = x + 33"

fun HDE_value :: "hde_field \<Rightarrow> u8 list \<Rightarrow> nat \<Rightarrow> hs_value" where
  "HDE_value HDE_dir_len m x = Byte (mem_get m (HDE_field HDE_dir_len x))"
| "HDE_value HDE_xar_len m x = Byte (mem_get m (HDE_field HDE_xar_len x))"
| "HDE_value HDE_ext_lbn m x = Number (BOTH_INT m (HDE_field HDE_ext_lbn x))"
| "HDE_value HDE_ext_size m x = Number (BOTH_INT m (HDE_field HDE_ext_size x))"
| "HDE_value HDE_cdate m x = Pointer (HDE_field HDE_cdate x)"
| "HDE_value HDE_flags m x = Byte (mem_get m (HDE_field HDE_flags x))"
| "HDE_value HDE_reserved m x = Byte (mem_get m (HDE_field HDE_reserved x))"
| "HDE_value HDE_intrlv_size m x = Byte (mem_get m (HDE_field HDE_intrlv_size x))"
| "HDE_value HDE_intrlv_skip m x = Byte (mem_get m (HDE_field HDE_intrlv_skip x))"
| "HDE_value HDE_vol_set m x = Number (BOTH_SHORT m (HDE_field HDE_vol_set x))"
| "HDE_value HDE_name_len m x = Byte (mem_get m (HDE_field HDE_name_len x))"
| "HDE_value HDE_name m x = Pointer (HDE_field HDE_name x)"

text \<open>The Unix extension.\<close>

datatype hde_unix_field =
    HDE_mode | HDE_uid | HDE_gid

fun HDE_unix :: "hde_unix_field \<Rightarrow> nat \<Rightarrow> nat" where
  "HDE_unix HDE_mode x = x + 0"
| "HDE_unix HDE_uid x = x + 4"
| "HDE_unix HDE_gid x = x + 8"

fun HDE_unix_value :: "hde_unix_field \<Rightarrow> u8 list \<Rightarrow> nat \<Rightarrow> hs_value" where
  "HDE_unix_value HDE_mode m x = Byte (mem_get m (HDE_unix HDE_mode x))"
| "HDE_unix_value HDE_uid m x = Byte (mem_get m (HDE_unix HDE_uid x))"
| "HDE_unix_value HDE_gid m x = Byte (mem_get m (HDE_unix HDE_gid x))"

text \<open>Flags.\<close>

datatype hs_flag =
    Flag_existence | Flag_directory | Flag_associated | Flag_record | Flag_protection | Flag_unused_flags
  | Flag_last_extent

fun HDE_flag :: "hs_flag \<Rightarrow> u32" where
  "HDE_flag Flag_existence = 0x01"
| "HDE_flag Flag_directory = 0x02"
| "HDE_flag Flag_associated = 0x04"
| "HDE_flag Flag_record = 0x08"
| "HDE_flag Flag_protection = 0x10"
| "HDE_flag Flag_unused_flags = 0x60"
| "HDE_flag Flag_last_extent = 0x80"

definition HDE_PROHIBITED :: u32 where
  "HDE_PROHIBITED = HDE_flag Flag_directory OR HDE_flag Flag_record OR HDE_flag Flag_last_extent OR HDE_flag Flag_unused_flags"

definition HDE_REGULAR_FILE :: "u32 \<Rightarrow> bool" where "HDE_REGULAR_FILE x \<longleftrightarrow> x AND HDE_PROHIBITED = 0"

definition HDE_REGULAR_DIR :: "u32 \<Rightarrow> bool" where
  "HDE_REGULAR_DIR x \<longleftrightarrow> x AND HDE_PROHIBITED = HDE_flag Flag_directory"

text \<open>Dates, written in binary, and a time zone.\<close>

datatype dir_date_part =
    Dir_year | Dir_month | Dir_day | Dir_hour | Dir_min | Dir_sec | Dir_gmtoff

fun HDE_DATE :: "dir_date_part \<Rightarrow> u8 list \<Rightarrow> nat \<Rightarrow> int option" where
  "HDE_DATE Dir_year m x = map_option (\<lambda>y. uint y + 1900) (mem_get m (x + 0))"
| "HDE_DATE Dir_month m x = map_option uint (mem_get m (x + 1))"
| "HDE_DATE Dir_day m x = map_option uint (mem_get m (x + 2))"
| "HDE_DATE Dir_hour m x = map_option uint (mem_get m (x + 3))"
| "HDE_DATE Dir_min m x = map_option uint (mem_get m (x + 4))"
| "HDE_DATE Dir_sec m x = map_option uint (mem_get m (x + 5))"
| "HDE_DATE Dir_gmtoff m x = map_option sint (mem_get m (x + 6))"

section \<open>Bytes in a buffer\<close>

definition recorded :: "u8 list \<Rightarrow> nat \<Rightarrow> u8 list \<Rightarrow> bool" where
  "recorded m x bs \<longleftrightarrow> take (length bs) (drop x m) = bs"

text \<open>A number recorded in both byte orders, as the standards prescribe.\<close>

definition both16 :: "u16 \<Rightarrow> u8 list" where "both16 v = octets v 2 @ rev (octets v 2)"

definition both32 :: "u32 \<Rightarrow> u8 list" where "both32 v = octets v 4 @ rev (octets v 4)"

text \<open>The bytes of a sequence of fields, each given by its address and its length.\<close>

definition field_bytes :: "(nat \<times> nat) list \<Rightarrow> nat list" where
  "field_bytes fs = concat (map (\<lambda>(a, n). [a..<a + n]) fs)"

lemma recorded_get: "recorded m x bs \<Longrightarrow> i < length bs \<Longrightarrow> mem_get m (x + i) = Some (bs ! i)"
proof -
  assume r: "recorded m x bs" and i: "i < length bs"
  have bs: "take (length bs) (drop x m) = bs" using r by (simp add: recorded_def)
  have "length bs \<le> length m - x" using arg_cong [OF bs, of length] by simp
  then have len: "x + i < length m" using i by simp
  have "bs ! i = take (length bs) (drop x m) ! i" using bs by simp
  also have "\<dots> = m ! (x + i)" using i len by simp
  finally show ?thesis using len by simp
qed

lemma recorded_append: "recorded m x (as @ bs) \<longleftrightarrow> recorded m x as \<and> recorded m (x + length as) bs"
proof
  assume r: "recorded m x (as @ bs)"
  then have all: "take (length as + length bs) (drop x m) = as @ bs" by (simp add: recorded_def)
  have "take (length as) (drop x m) = take (length as) (take (length as + length bs) (drop x m))" by (simp add: min_def)
  moreover have "take (length bs) (drop (x + length as) m) = drop (length as) (take (length as + length bs) (drop x m))"
    by (simp add: drop_take add.commute)
  ultimately show "recorded m x as \<and> recorded m (x + length as) bs" by (simp add: recorded_def all)
next
  assume "recorded m x as \<and> recorded m (x + length as) bs"
  then show "recorded m x (as @ bs)" by (simp add: recorded_def take_add add.commute)
qed

lemma recorded_Cons: "recorded m x (b # bs) \<longleftrightarrow> mem_get m x = Some b \<and> recorded m (Suc x) bs"
proof -
  have "recorded m x [b] \<longleftrightarrow> mem_get m x = Some b"
    by (auto simp: recorded_def mem_get_def take_Suc_conv_app_nth hd_drop_conv_nth take_Suc drop_Suc split: if_splits list.splits)
  then show ?thesis using recorded_append [of m x "[b]" bs] by simp
qed

text \<open>The parts of a structure at numeral offsets.\<close>

lemma recorded_Cons1: "recorded m x (b # bs) \<longleftrightarrow> mem_get m x = Some b \<and> recorded m (x + 1) bs"
  by (simp add: recorded_Cons)

lemmas offset_simps = add.assoc one_add_one numeral_plus_numeral numeral_plus_one one_plus_numeral add_num_simps add_numeral_left

lemmas recorded_parts = recorded_append recorded_Cons1 append_Cons append_Nil offset_simps

lemma recorded_Nil [simp]: "recorded m x []"
  by (simp add: recorded_def)

lemma octets_2: "octets v 2 = [ucast v, ucast (drop_bit 8 v)]"
  by (simp add: octets_def upt_rec)

lemma octets_4: "octets v 4 = [ucast v, ucast (drop_bit 8 v), ucast (drop_bit 16 v), ucast (drop_bit 24 v)]"
  by (simp add: octets_def upt_rec)

lemma length_octets [simp]: "length (octets v n) = n"
  by (simp add: octets_def)

lemma length_both [simp]: "length (both16 v) = 4" "length (both32 w) = 8"
  by (simp_all add: both16_def both32_def octets_def)

lemma load16_octets: "recorded m x (octets v 2) \<Longrightarrow> load16 m x = Some v"
  by (auto simp: load16_def octets_2 recorded_Cons intro!: bit_eqI simp: bit_simps)

lemma join16: "ucast (ucast (v :: u32) :: u16) OR push_bit 16 (ucast (ucast (drop_bit 16 v) :: u16)) = v"
  by (auto intro!: bit_eqI simp: bit_simps)

lemma load32_octets: "recorded m x (octets v 4) \<Longrightarrow> load32 m x = Some v"
proof -
  assume r: "recorded m x (octets v 4)"
  have "octets v 4 = octets (ucast v :: u16) 2 @ octets (ucast (drop_bit 16 v) :: u16) 2"
    by (auto simp: octets_2 octets_4 intro!: bit_eqI simp: bit_simps)
  then have "recorded m x (octets (ucast v :: u16) 2)" "recorded m (x + 2) (octets (ucast (drop_bit 16 v) :: u16) 2)"
    using r by (simp_all add: recorded_append)
  then show ?thesis by (simp add: load32_def load16_octets join16)
qed

lemma shifted_bytes:
  "push_bit 8 (push_bit 8 (push_bit 8 (ucast (ucast (drop_bit 24 v) :: u8)) OR ucast (ucast (drop_bit 16 v) :: u8))
     OR ucast (ucast (drop_bit 8 v) :: u8)) OR ucast (ucast (v :: u32) :: u8) = v"
proof (rule bit_eqI)
  fix n :: nat
  consider "n < 8" | "8 \<le> n" "n < 16" | "16 \<le> n" "n < 24" | "24 \<le> n" "n < 32" | "32 \<le> n" by linarith
  then show "bit (push_bit 8 (push_bit 8 (push_bit 8 (ucast (ucast (drop_bit 24 v) :: u8)) OR ucast (ucast (drop_bit 16 v) :: u8))
     OR ucast (ucast (drop_bit 8 v) :: u8)) OR ucast (ucast v :: u8) :: u32) n = bit v n"
    by cases (auto simp: bit_simps dest: bit_imp_le_length)
qed

lemma shifted_short:
  "push_bit 8 (ucast (ucast (drop_bit 8 v) :: u8)) OR ucast (ucast (v :: u16) :: u8) = (ucast v :: u32)"
proof (rule bit_eqI)
  fix n :: nat
  consider "n < 8" | "8 \<le> n" "n < 16" | "16 \<le> n" by linarith
  then show "bit (push_bit 8 (ucast (ucast (drop_bit 8 v) :: u8)) OR ucast (ucast v :: u8) :: u32) n = bit (ucast v :: u32) n"
    by cases (auto simp: bit_simps dest: bit_imp_le_length)
qed

lemmas byte_defs = ZERO_def ONE_def TWO_def THREE_def

lemma four_bytes:
  assumes "recorded m x [a, b, c, d]"
  shows "ZERO m x = Some (ucast a)" "ONE m x = Some (ucast b)" "TWO m x = Some (ucast c)" "THREE m x = Some (ucast d)"
    "LSB_INT m x = Some (push_bit 8 (push_bit 8 (push_bit 8 (ucast d) OR ucast c) OR ucast b) OR ucast a)"
    "MSB_INT m x = Some (push_bit 8 (push_bit 8 (push_bit 8 (ucast a) OR ucast b) OR ucast c) OR ucast d)"
proof -
  show *: "ZERO m x = Some (ucast a)" "ONE m x = Some (ucast b)" "TWO m x = Some (ucast c)" "THREE m x = Some (ucast d)"
    using assms by (simp_all add: byte_defs recorded_Cons numeral_eq_Suc)
  show "LSB_INT m x = Some (push_bit 8 (push_bit 8 (push_bit 8 (ucast d) OR ucast c) OR ucast b) OR ucast a)"
    "MSB_INT m x = Some (push_bit 8 (push_bit 8 (push_bit 8 (ucast a) OR ucast b) OR ucast c) OR ucast d)"
    by (simp_all only: LSB_INT_def MSB_INT_def * Option.bind.bind_lunit)
qed

lemma two_bytes:
  assumes "recorded m x [a, b]"
  shows "LSB_SHORT m x = Some (push_bit 8 (ucast b) OR ucast a)" "MSB_SHORT m x = Some (push_bit 8 (ucast a) OR ucast b)"
  using assms by (simp_all add: LSB_SHORT_def MSB_SHORT_def byte_defs recorded_Cons)

lemma ints_octets:
  "recorded m x (octets v 4) \<Longrightarrow> LSB_INT m x = Some v"
  "recorded m x (rev (octets v 4)) \<Longrightarrow> MSB_INT m x = Some v"
  "recorded m x (octets v 4) \<Longrightarrow> BOTH_INT m x = Some (sint v)"
  using four_bytes(5,6) shifted_bytes [of v] load32_octets [of m x v] by (simp_all add: octets_4 BOTH_INT_def)

lemma shorts_octets:
  "recorded m x (octets (v :: u16) 2) \<Longrightarrow> LSB_SHORT m x = Some (ucast v)"
  "recorded m x (rev (octets v 2)) \<Longrightarrow> MSB_SHORT m x = Some (ucast v)"
  "recorded m x (octets v 2) \<Longrightarrow> BOTH_SHORT m x = Some (sint v)"
  using two_bytes shifted_short [of v] load16_octets [of m x v] by (simp_all add: octets_2 BOTH_SHORT_def)

lemma both_ints:
  "recorded m x (both32 v) \<Longrightarrow> BOTH_INT m x = Some (sint v)"
  "recorded m x (both16 w) \<Longrightarrow> BOTH_SHORT m x = Some (sint w)"
  by (simp_all add: both32_def both16_def recorded_append ints_octets shorts_octets)

text \<open>Joining adjacent fields.\<close>

lemma upt_join: "a \<le> b \<Longrightarrow> b \<le> c \<Longrightarrow> [a..<b] @ [b..<c] = [a..<c]"
  using upt_add_eq_append [of a b "c - b"] by simp

lemma upt_join2: "a \<le> b \<Longrightarrow> b \<le> c \<Longrightarrow> [a..<b] @ [b..<c] @ r = [a..<c] @ r"
  using upt_join [of a b c] by (metis append_assoc)

lemma signed_range:
  fixes k :: int
  assumes "0 \<le> k" "k < 2 ^ Suc n"
  shows "signed_take_bit n k = (if k < 2 ^ n then k else k - 2 ^ Suc n)"
proof -
  have "bit k n \<longleftrightarrow> \<not> k < 2 ^ n"
  proof (cases "k < 2 ^ n")
    case False
    then have "k div 2 ^ n = 1" using assms by (intro int_div_pos_eq [where r = "k - 2 ^ n"]) auto
    then show ?thesis using False by (simp add: bit_iff_odd)
  qed (use assms in \<open>simp add: bit_iff_odd div_pos_pos_trivial\<close>)
  then show ?thesis using assms by (simp add: signed_take_bit_eq_take_bit_minus take_bit_int_eq_self)
qed

section \<open>Recorded dates\<close>

text \<open>A date of a volume descriptor, and its decimal digits as the standards record them. The time zone follows in the newer format
  only.\<close>

record disc_date =
  d_year :: nat
  d_month :: nat
  d_day :: nat
  d_hour :: nat
  d_min :: nat
  d_sec :: nat
  d_hsec :: nat
  d_gmtoff :: u8

definition digit :: "nat \<Rightarrow> u8" where "digit n = word_of_nat (48 + n)"

definition digits2 :: "nat \<Rightarrow> u8 list" where "digits2 n = [digit (n div 10), digit (n mod 10)]"

definition date_digits :: "disc_date \<Rightarrow> u8 list" where
  "date_digits d = digits2 (d_year d div 100) @ digits2 (d_year d mod 100) @ digits2 (d_month d) @ digits2 (d_day d) @
     digits2 (d_hour d) @ digits2 (d_min d) @ digits2 (d_sec d) @ digits2 (d_hsec d)"

definition date_ok :: "disc_date \<Rightarrow> bool" where
  "date_ok d \<longleftrightarrow> d_year d < 10000 \<and> d_month d < 100 \<and> d_day d < 100 \<and> d_hour d < 100 \<and> d_min d < 100 \<and> d_sec d < 100 \<and> d_hsec d < 100"

fun date_value :: "date_part \<Rightarrow> disc_date \<Rightarrow> int" where
  "date_value Date_year d = int (d_year d)"
| "date_value Date_month d = int (d_month d)"
| "date_value Date_day d = int (d_day d)"
| "date_value Date_hour d = int (d_hour d)"
| "date_value Date_min d = int (d_min d)"
| "date_value Date_sec d = int (d_sec d)"
| "date_value Date_hsec d = int (d_hsec d)"
| "date_value Date_gmtoff d = sint (d_gmtoff d)"

lemma uint_digit: "n < 10 \<Longrightarrow> uint (digit n) = 48 + int n"
proof -
  assume "n < 10"
  then have "take_bit 8 (48 + n) = 48 + n" by (simp add: take_bit_eq_mod)
  then show ?thesis by (simp add: digit_def unsigned_of_nat del: of_nat_add)
qed

lemma length_date [simp]: "length (digits2 n) = 2" "length (date_digits d) = 16"
  by (simp_all add: digits2_def date_digits_def)

lemma digits2_read:
  assumes "recorded m x (digits2 n)" "n < 100"
  shows "HSV_DATE_2DIG m x = Some (int n)"
proof -
  have "int (n div 10) * 10 + int (n mod 10) = int (n div 10 * 10 + n mod 10)" by (simp only: of_nat_add of_nat_mult of_nat_numeral)
  then have "int (n div 10) * 10 + int (n mod 10) = int n" by (simp only: div_mult_mod_eq)
  then show ?thesis
    using assms by (simp add: HSV_DATE_2DIG_def digits2_def recorded_Cons1 uint_digit)
qed

lemma digits4_read:
  assumes "recorded m x (digits2 (n div 100) @ digits2 (n mod 100))" "n < 10000"
  shows "HSV_DATE_4DIG m x = Some (int n)"
proof -
  have r: "recorded m x (digits2 (n div 100))" "recorded m (x + 2) (digits2 (n mod 100))" using assms(1) by (simp_all add: recorded_append)
  have "n div 100 < 100" using assms(2) by simp
  from digits2_read [OF r(1) this] digits2_read [OF r(2)]
  have "HSV_DATE_2DIG m x = Some (int (n div 100))" "HSV_DATE_2DIG m (x + 2) = Some (int (n mod 100))" by simp_all
  moreover have "HSV_DATE_4DIG m x = Option.bind (HSV_DATE_2DIG m x) (\<lambda>h. Option.bind (HSV_DATE_2DIG m (x + 2)) (\<lambda>l. Some (100 * h + l)))"
    using r by (simp add: HSV_DATE_4DIG_def HSV_DATE_2DIG_def digits2_def recorded_Cons1 algebra_simps numeral_3_eq_3)
  moreover have "100 * int (n div 100) + int (n mod 100) = int n"
    using mult_div_mod_eq [of 100 n] by (metis of_nat_add of_nat_mult of_nat_numeral)
  ultimately show ?thesis by simp
qed

text \<open>The parts of a recorded date.\<close>

lemma date_parts:
  assumes "recorded m x (date_digits d)"
  shows "recorded m x (digits2 (d_year d div 100) @ digits2 (d_year d mod 100))" "recorded m (x + 4) (digits2 (d_month d))"
    "recorded m (x + 6) (digits2 (d_day d))" "recorded m (x + 8) (digits2 (d_hour d))" "recorded m (x + 10) (digits2 (d_min d))"
    "recorded m (x + 12) (digits2 (d_sec d))" "recorded m (x + 14) (digits2 (d_hsec d))"
  using assms by (simp_all only: date_digits_def recorded_parts length_date)

lemma date_read:
  assumes "recorded m x (date_digits d)" "date_ok d" "p \<noteq> Date_gmtoff"
  shows "HSV_DATE p m x = Some (date_value p d)"
  using digits4_read [OF date_parts(1) [OF assms(1)]] date_parts(2-) [OF assms(1)] assms(2,3)
  by (cases p) (simp_all add: date_ok_def digits2_read)

text \<open>The first digit of a year.\<close>

lemma first_digit:
  assumes "recorded m x (date_digits d)" "date_ok d"
  shows "map_option sint (mem_get m x) = Some (48 + int (d_year d div 1000))"
proof -
  have g: "mem_get m x = Some (digit (d_year d div 1000))"
    using date_parts(1) [OF assms(1)] by (simp add: digits2_def recorded_Cons1 div_mult2_eq [symmetric])
  have "d_year d div 1000 < 10" using assms(2) by (simp add: date_ok_def div_less_iff_less_mult)
  then have "uint (digit (d_year d div 1000)) = 48 + int (d_year d div 1000)" "48 + int (d_year d div 1000) < 2 ^ 7"
    by (simp_all add: uint_digit)
  then show ?thesis using g signed_range [of "48 + int (d_year d div 1000)" 7] by (simp add: sint_uint)
qed

section \<open>Properties\<close>

text \<open>C21: a number recorded in both byte orders is read back by each macro from its part of the field. The forms for the two
  targets agree on numbers below half the range; above it the little-endian form, a signed load, gives the number
  less the range, and the SPARC form the number.\<close>

theorem both_endian_integers:
  assumes "recorded m x (both32 v)" "recorded m y (both16 w)"
  shows "LSB_INT m x = Some v \<and> MSB_INT m (x + 4) = Some v \<and> BOTH_INT_sparc m x = Some v \<and>
    BOTH_INT m x = Some (if uint v < 2 ^ 31 then uint v else uint v - 2 ^ 32) \<and>
    LSB_SHORT m y = Some (ucast w) \<and> MSB_SHORT m (y + 2) = Some (ucast w) \<and> BOTH_SHORT_sparc m y = Some (ucast w) \<and>
    BOTH_SHORT m y = Some (if uint w < 2 ^ 15 then uint w else uint w - 2 ^ 16)"
proof -
  have "sint v = (if uint v < 2 ^ 31 then uint v else uint v - 2 ^ 32)" "sint w = (if uint w < 2 ^ 15 then uint w else uint w - 2 ^ 16)"
    using uint_lt2p [of v] uint_lt2p [of w] signed_range [of "uint v" 31] signed_range [of "uint w" 15]
    by (simp_all add: sint_uint)
  moreover have "recorded m x (octets v 4)" "recorded m (x + 4) (rev (octets v 4))" "recorded m y (octets w 2)" "recorded m (y + 2) (rev (octets w 2))"
    using assms by (simp_all add: both32_def both16_def recorded_append)
  ultimately show ?thesis
    by (simp add: ints_octets shorts_octets BOTH_INT_sparc_def BOTH_SHORT_sparc_def)
qed

theorem both_endian_integers_witness:
  "BOTH_SHORT (both32 70000 @ both16 0x8000) 8 = Some (- 32768) \<and> BOTH_SHORT_sparc (both32 70000 @ both16 0x8000) 8 = Some 0x8000 \<and>
   BOTH_INT (both32 70000 @ both16 0x8000) 0 = Some 70000"
proof -
  have "recorded (both32 70000 @ both16 0x8000) 0 (both32 70000)" "recorded (both32 70000 @ both16 0x8000) 8 (both16 0x8000)"
    by (simp_all add: recorded_def)
  then show ?thesis using both_endian_integers [of "both32 70000 @ both16 0x8000" 0 70000 8 "0x8000"] by simp
qed


definition example_date :: disc_date where
  "example_date = \<lparr>d_year = 1994, d_month = 12, d_day = 31, d_hour = 23, d_min = 59, d_sec = 58, d_hsec = 7, d_gmtoff = 4\<rparr>"


end
