(* ===== verification/HsfsIso.thy ===== *)
theory HsfsIso
  imports HsfsSpec
begin

unbundle bit_operations_syntax

text \<open>
  The ISO 9660 disc format (\<^verbatim>\<open>sys/fs/hsfs_isospec.h\<close>), modelled as the High Sierra format is. The macros that
  parse integers have the same text in both headers and are defined once, in \<^verbatim>\<open>HsfsSpec\<close>. The theorems say that the fields of a
  descriptor and of a record tile it, that a record written by the standard is read back, and where the accessors of the
  two headers do not meet their formats.
\<close>

section \<open>Sectors\<close>

definition ISO_SECTOR_SIZE :: nat where "ISO_SECTOR_SIZE = 2048"

section \<open>Volume descriptor\<close>

datatype iso_voldesc_type =
    ISO_VD_BOOT | ISO_VD_PVD | ISO_VD_SVD | ISO_VD_VPD | ISO_VD_EOV

fun iso_voldesc_type_code :: "iso_voldesc_type \<Rightarrow> u8" where
  "iso_voldesc_type_code ISO_VD_BOOT = 0"
| "iso_voldesc_type_code ISO_VD_PVD = 1"
| "iso_voldesc_type_code ISO_VD_SVD = 2"
| "iso_voldesc_type_code ISO_VD_VPD = 3"
| "iso_voldesc_type_code ISO_VD_EOV = 255"

definition ISO_ID_STRLEN :: nat where "ISO_ID_STRLEN = 5"

definition ISO_SHORT_DATE_LEN :: nat where "ISO_SHORT_DATE_LEN = 7"

definition ISO_DATE_LEN :: nat where "ISO_DATE_LEN = 17"

datatype iso_field =
    ISO_desc_type | ISO_std_id | ISO_std_ver | ISO_sys_id | ISO_vol_id | ISO_vol_size | ISO_set_size
  | ISO_set_seq | ISO_blk_size | ISO_ptbl_size | ISO_ptbl_man_ls | ISO_ptbl_opt_ls1 | ISO_ptbl_man_ms
  | ISO_ptbl_opt_ms1 | ISO_root_dir | ISO_vol_set_id | ISO_pub_id | ISO_prep_id | ISO_appl_id | ISO_copyr_id
  | ISO_abstr_id | ISO_bibli_id | ISO_cre_date | ISO_mod_date | ISO_exp_date | ISO_eff_date
  | ISO_file_struct_ver

fun ISO_field :: "iso_field \<Rightarrow> nat \<Rightarrow> nat" where
  "ISO_field ISO_desc_type x = x + 0"
| "ISO_field ISO_std_id x = x + 1"
| "ISO_field ISO_std_ver x = x + 6"
| "ISO_field ISO_sys_id x = x + 8"
| "ISO_field ISO_vol_id x = x + 40"
| "ISO_field ISO_vol_size x = x + 80"
| "ISO_field ISO_set_size x = x + 120"
| "ISO_field ISO_set_seq x = x + 124"
| "ISO_field ISO_blk_size x = x + 128"
| "ISO_field ISO_ptbl_size x = x + 132"
| "ISO_field ISO_ptbl_man_ls x = x + 140"
| "ISO_field ISO_ptbl_opt_ls1 x = x + 144"
| "ISO_field ISO_ptbl_man_ms x = x + 148"
| "ISO_field ISO_ptbl_opt_ms1 x = x + 152"
| "ISO_field ISO_root_dir x = x + 156"
| "ISO_field ISO_vol_set_id x = x + 190"
| "ISO_field ISO_pub_id x = x + 318"
| "ISO_field ISO_prep_id x = x + 446"
| "ISO_field ISO_appl_id x = x + 574"
| "ISO_field ISO_copyr_id x = x + 702"
| "ISO_field ISO_abstr_id x = x + 739"
| "ISO_field ISO_bibli_id x = x + 776"
| "ISO_field ISO_cre_date x = x + 813"
| "ISO_field ISO_mod_date x = x + 830"
| "ISO_field ISO_exp_date x = x + 847"
| "ISO_field ISO_eff_date x = x + 864"
| "ISO_field ISO_file_struct_ver x = x + 881"

fun ISO_value :: "iso_field \<Rightarrow> u8 list \<Rightarrow> nat \<Rightarrow> hs_value" where
  "ISO_value ISO_desc_type m x = Byte (mem_get m (ISO_field ISO_desc_type x))"
| "ISO_value ISO_std_id m x = Pointer (ISO_field ISO_std_id x)"
| "ISO_value ISO_std_ver m x = Byte (mem_get m (ISO_field ISO_std_ver x))"
| "ISO_value ISO_sys_id m x = Pointer (ISO_field ISO_sys_id x)"
| "ISO_value ISO_vol_id m x = Pointer (ISO_field ISO_vol_id x)"
| "ISO_value ISO_vol_size m x = Number (BOTH_INT m (ISO_field ISO_vol_size x))"
| "ISO_value ISO_set_size m x = Number (BOTH_SHORT m (ISO_field ISO_set_size x))"
| "ISO_value ISO_set_seq m x = Number (BOTH_SHORT m (ISO_field ISO_set_seq x))"
| "ISO_value ISO_blk_size m x = Number (BOTH_SHORT m (ISO_field ISO_blk_size x))"
| "ISO_value ISO_ptbl_size m x = Number (BOTH_INT m (ISO_field ISO_ptbl_size x))"
| "ISO_value ISO_ptbl_man_ls m x = Unsigned (LSB_INT m (ISO_field ISO_ptbl_man_ls x))"
| "ISO_value ISO_ptbl_opt_ls1 m x = Unsigned (LSB_INT m (ISO_field ISO_ptbl_opt_ls1 x))"
| "ISO_value ISO_ptbl_man_ms m x = Unsigned (MSB_INT m (ISO_field ISO_ptbl_man_ms x))"
| "ISO_value ISO_ptbl_opt_ms1 m x = Unsigned (MSB_INT m (ISO_field ISO_ptbl_opt_ms1 x))"
| "ISO_value ISO_root_dir m x = Pointer (ISO_field ISO_root_dir x)"
| "ISO_value ISO_vol_set_id m x = Pointer (ISO_field ISO_vol_set_id x)"
| "ISO_value ISO_pub_id m x = Pointer (ISO_field ISO_pub_id x)"
| "ISO_value ISO_prep_id m x = Pointer (ISO_field ISO_prep_id x)"
| "ISO_value ISO_appl_id m x = Pointer (ISO_field ISO_appl_id x)"
| "ISO_value ISO_copyr_id m x = Pointer (ISO_field ISO_copyr_id x)"
| "ISO_value ISO_abstr_id m x = Pointer (ISO_field ISO_abstr_id x)"
| "ISO_value ISO_bibli_id m x = Pointer (ISO_field ISO_bibli_id x)"
| "ISO_value ISO_cre_date m x = Pointer (HSV_field HSV_cre_date x)"
| "ISO_value ISO_mod_date m x = Pointer (HSV_field HSV_mod_date x)"
| "ISO_value ISO_exp_date m x = Pointer (HSV_field HSV_exp_date x)"
| "ISO_value ISO_eff_date m x = Pointer (HSV_field HSV_eff_date x)"
| "ISO_value ISO_file_struct_ver m x = Byte (mem_get m (ISO_field ISO_file_struct_ver x))"

text \<open>The lengths of the texts.\<close>

fun ISO_STRLEN :: "iso_field \<Rightarrow> nat option" where
  "ISO_STRLEN ISO_sys_id = Some 32"
| "ISO_STRLEN ISO_vol_id = Some 32"
| "ISO_STRLEN ISO_vol_set_id = Some 128"
| "ISO_STRLEN ISO_pub_id = Some 128"
| "ISO_STRLEN ISO_prep_id = Some 128"
| "ISO_STRLEN ISO_appl_id = Some 128"
| "ISO_STRLEN ISO_copyr_id = Some 37"
| "ISO_STRLEN ISO_abstr_id = Some 37"
| "ISO_STRLEN _ = None"

text \<open>Its dates.\<close>

definition ISO_DATE_2DIG :: "u8 list \<Rightarrow> nat \<Rightarrow> int option" where
  "ISO_DATE_2DIG m x = Option.bind (mem_get m x) (\<lambda>a. Option.bind (mem_get m (x + 1)) (\<lambda>b.
     Some ((uint a - 48) * 10 + (uint b - 48))))"

definition ISO_DATE_4DIG :: "u8 list \<Rightarrow> nat \<Rightarrow> int option" where
  "ISO_DATE_4DIG m x = Option.bind (mem_get m x) (\<lambda>a. Option.bind (mem_get m (x + 1)) (\<lambda>b.
     Option.bind (mem_get m (x + 2)) (\<lambda>c. Option.bind (mem_get m (x + 3)) (\<lambda>d.
     Some ((uint a - 48) * 1000 + (uint b - 48) * 100 + (uint c - 48) * 10 + (uint d - 48))))))"

fun ISO_DATE :: "date_part \<Rightarrow> u8 list \<Rightarrow> nat \<Rightarrow> int option" where
  "ISO_DATE Date_year m x = ISO_DATE_4DIG m (x + 0)"
| "ISO_DATE Date_month m x = ISO_DATE_2DIG m (x + 4)"
| "ISO_DATE Date_day m x = ISO_DATE_2DIG m (x + 6)"
| "ISO_DATE Date_hour m x = ISO_DATE_2DIG m (x + 8)"
| "ISO_DATE Date_min m x = ISO_DATE_2DIG m (x + 10)"
| "ISO_DATE Date_sec m x = ISO_DATE_2DIG m (x + 12)"
| "ISO_DATE Date_hsec m x = ISO_DATE_2DIG m (x + 14)"
| "ISO_DATE Date_gmtoff m x = map_option sint (mem_get m (x + 16))"

section \<open>Directory records\<close>

definition IDE_ROOT_DIR_REC_SIZE :: nat where "IDE_ROOT_DIR_REC_SIZE = 34"

definition IDE_FDESIZE :: nat where "IDE_FDESIZE = 33"

datatype ide_field =
    IDE_dir_len | IDE_xar_len | IDE_ext_lbn | IDE_ext_size | IDE_cdate | IDE_flags | IDE_intrlv_size
  | IDE_intrlv_skip | IDE_vol_set | IDE_name_len | IDE_name

fun IDE_field :: "ide_field \<Rightarrow> nat \<Rightarrow> nat" where
  "IDE_field IDE_dir_len x = x + 0"
| "IDE_field IDE_xar_len x = x + 1"
| "IDE_field IDE_ext_lbn x = x + 2"
| "IDE_field IDE_ext_size x = x + 10"
| "IDE_field IDE_cdate x = x + 18"
| "IDE_field IDE_flags x = x + 25"
| "IDE_field IDE_intrlv_size x = x + 26"
| "IDE_field IDE_intrlv_skip x = x + 27"
| "IDE_field IDE_vol_set x = x + 28"
| "IDE_field IDE_name_len x = x + 32"
| "IDE_field IDE_name x = x + 33"

fun IDE_value :: "ide_field \<Rightarrow> u8 list \<Rightarrow> nat \<Rightarrow> hs_value" where
  "IDE_value IDE_dir_len m x = Byte (mem_get m (IDE_field IDE_dir_len x))"
| "IDE_value IDE_xar_len m x = Byte (mem_get m (IDE_field IDE_xar_len x))"
| "IDE_value IDE_ext_lbn m x = Number (BOTH_INT m (IDE_field IDE_ext_lbn x))"
| "IDE_value IDE_ext_size m x = Number (BOTH_INT m (IDE_field IDE_ext_size x))"
| "IDE_value IDE_cdate m x = Pointer (IDE_field IDE_cdate x)"
| "IDE_value IDE_flags m x = Byte (mem_get m (IDE_field IDE_flags x))"
| "IDE_value IDE_intrlv_size m x = Byte (mem_get m (IDE_field IDE_intrlv_size x))"
| "IDE_value IDE_intrlv_skip m x = Byte (mem_get m (IDE_field IDE_intrlv_skip x))"
| "IDE_value IDE_vol_set m x = Number (BOTH_SHORT m (IDE_field IDE_vol_set x))"
| "IDE_value IDE_name_len m x = Byte (mem_get m (IDE_field IDE_name_len x))"
| "IDE_value IDE_name m x = Pointer (IDE_field IDE_name x)"

definition IDE_PAD_LEN :: "u8 list \<Rightarrow> nat \<Rightarrow> nat option" where
  "IDE_PAD_LEN m x = map_option (\<lambda>n. if unat n mod 2 \<noteq> 0 then 0 else 1) (byte_of (IDE_value IDE_name_len m x))"

definition IDE_sys_use_area :: "u8 list \<Rightarrow> nat \<Rightarrow> nat option" where
  "IDE_sys_use_area m x = Option.bind (byte_of (IDE_value IDE_name_len m x)) (\<lambda>n. Option.bind (IDE_PAD_LEN m x) (\<lambda>p.
     Some (x + (unat n + p) + IDE_FDESIZE)))"

definition IDE_SUA_LEN :: "u8 list \<Rightarrow> nat \<Rightarrow> int option" where
  "IDE_SUA_LEN m x = Option.bind (byte_of (IDE_value IDE_dir_len m x)) (\<lambda>l. Option.bind (byte_of (IDE_value IDE_name_len m x)) (\<lambda>n.
     Option.bind (IDE_PAD_LEN m x) (\<lambda>p. Some (uint l - int IDE_FDESIZE - uint n - int p))))"

text \<open>Flags and dates.\<close>

fun IDE_flag :: "hs_flag \<Rightarrow> u32" where
  "IDE_flag Flag_existence = 0x01"
| "IDE_flag Flag_directory = 0x02"
| "IDE_flag Flag_associated = 0x04"
| "IDE_flag Flag_record = 0x08"
| "IDE_flag Flag_protection = 0x10"
| "IDE_flag Flag_unused_flags = 0x60"
| "IDE_flag Flag_last_extent = 0x80"

definition IDE_PROHIBITED :: u32 where
  "IDE_PROHIBITED = IDE_flag Flag_directory OR IDE_flag Flag_record OR IDE_flag Flag_last_extent OR IDE_flag Flag_unused_flags"

definition IDE_REGULAR_FILE :: "u32 \<Rightarrow> bool" where "IDE_REGULAR_FILE x \<longleftrightarrow> x AND IDE_PROHIBITED = 0"

definition IDE_REGULAR_DIR :: "u32 \<Rightarrow> bool" where
  "IDE_REGULAR_DIR x \<longleftrightarrow> x AND IDE_PROHIBITED = IDE_flag Flag_directory"

fun IDE_DATE :: "dir_date_part \<Rightarrow> u8 list \<Rightarrow> nat \<Rightarrow> int option" where
  "IDE_DATE Dir_year m x = map_option (\<lambda>y. uint y + 1900) (mem_get m (x + 0))"
| "IDE_DATE Dir_month m x = map_option uint (mem_get m (x + 1))"
| "IDE_DATE Dir_day m x = map_option uint (mem_get m (x + 2))"
| "IDE_DATE Dir_hour m x = map_option uint (mem_get m (x + 3))"
| "IDE_DATE Dir_min m x = map_option uint (mem_get m (x + 4))"
| "IDE_DATE Dir_sec m x = map_option uint (mem_get m (x + 5))"
| "IDE_DATE Dir_gmtoff m x = map_option sint (mem_get m (x + 6))"

section \<open>Path table entries\<close>

definition IPE_FPESIZE :: nat where "IPE_FPESIZE = 8"

datatype ipe_field =
    IPE_name_len | IPE_xar_len | IPE_ext_lbn | IPE_parent_no | IPE_name

fun IPE_field :: "ipe_field \<Rightarrow> nat \<Rightarrow> nat" where
  "IPE_field IPE_name_len x = x + 0"
| "IPE_field IPE_xar_len x = x + 1"
| "IPE_field IPE_ext_lbn x = x + 2"
| "IPE_field IPE_parent_no x = x + 6"
| "IPE_field IPE_name x = x + 8"

fun IPE_value :: "ipe_field \<Rightarrow> u8 list \<Rightarrow> nat \<Rightarrow> hs_value" where
  "IPE_value IPE_ext_lbn m x = Unsigned (MSB_INT m (IPE_field IPE_ext_lbn x))"
| "IPE_value IPE_xar_len m x = Byte (mem_get m (IPE_field IPE_xar_len x))"
| "IPE_value IPE_name_len m x = Byte (mem_get m (IPE_field IPE_name_len x))"
| "IPE_value IPE_parent_no m x = Number (map_option sint (load16 m (IPE_field IPE_parent_no x)))"
| "IPE_value IPE_name m x = Pointer (IPE_field IPE_name x)"

section \<open>Fields\<close>

text \<open>The fields with their lengths, from the length constants of the headers; numbers recorded in both byte orders
  take twice their width.\<close>

definition iso_voldesc_fields :: "nat \<Rightarrow> (nat \<times> nat) list" where
  "iso_voldesc_fields x = [
     (ISO_field ISO_desc_type x, 1), (ISO_field ISO_std_id x, ISO_ID_STRLEN), (ISO_field ISO_std_ver x, 1),
     (ISO_field ISO_sys_id x, the (ISO_STRLEN ISO_sys_id)),
     (ISO_field ISO_vol_id x, the (ISO_STRLEN ISO_vol_id)), (ISO_field ISO_vol_size x, 8),
     (ISO_field ISO_set_size x, 4), (ISO_field ISO_set_seq x, 4), (ISO_field ISO_blk_size x, 4),
     (ISO_field ISO_ptbl_size x, 8), (ISO_field ISO_ptbl_man_ls x, 4), (ISO_field ISO_ptbl_opt_ls1 x, 4),
     (ISO_field ISO_ptbl_man_ms x, 4), (ISO_field ISO_ptbl_opt_ms1 x, 4),
     (ISO_field ISO_root_dir x, IDE_ROOT_DIR_REC_SIZE),
     (ISO_field ISO_vol_set_id x, the (ISO_STRLEN ISO_vol_set_id)),
     (ISO_field ISO_pub_id x, the (ISO_STRLEN ISO_pub_id)),
     (ISO_field ISO_prep_id x, the (ISO_STRLEN ISO_prep_id)),
     (ISO_field ISO_appl_id x, the (ISO_STRLEN ISO_appl_id)),
     (ISO_field ISO_copyr_id x, the (ISO_STRLEN ISO_copyr_id)),
     (ISO_field ISO_abstr_id x, the (ISO_STRLEN ISO_abstr_id)),
     (ISO_field ISO_bibli_id x, the (ISO_STRLEN ISO_abstr_id)), (ISO_field ISO_cre_date x, ISO_DATE_LEN),
     (ISO_field ISO_mod_date x, ISO_DATE_LEN), (ISO_field ISO_exp_date x, ISO_DATE_LEN),
     (ISO_field ISO_eff_date x, ISO_DATE_LEN), (ISO_field ISO_file_struct_ver x, 1)]"

definition hsv_voldesc_fields :: "nat \<Rightarrow> (nat \<times> nat) list" where
  "hsv_voldesc_fields x = [
     (HSV_field HSV_desc_lbn x, 8), (HSV_field HSV_desc_type x, 1), (HSV_field HSV_std_id x, HSV_ID_STRLEN),
     (HSV_field HSV_std_ver x, 1), (HSV_field HSV_sys_id x, the (HSV_STRLEN HSV_sys_id)),
     (HSV_field HSV_vol_id x, the (HSV_STRLEN HSV_vol_id)), (HSV_field HSV_vol_size x, 8),
     (HSV_field HSV_set_size x, 4), (HSV_field HSV_set_seq x, 4), (HSV_field HSV_blk_size x, 4),
     (HSV_field HSV_ptbl_size x, 8), (HSV_field HSV_ptbl_man_ls x, 4), (HSV_field HSV_ptbl_opt_ls1 x, 4),
     (HSV_field HSV_ptbl_opt_ls2 x, 4), (HSV_field HSV_ptbl_opt_ls3 x, 4), (HSV_field HSV_ptbl_man_ms x, 4),
     (HSV_field HSV_ptbl_opt_ms1 x, 4), (HSV_field HSV_ptbl_opt_ms2 x, 4), (HSV_field HSV_ptbl_opt_ms3 x, 4),
     (HSV_field HSV_root_dir x, HDE_ROOT_DIR_REC_SIZE),
     (HSV_field HSV_vol_set_id x, the (HSV_STRLEN HSV_vol_set_id)),
     (HSV_field HSV_pub_id x, the (HSV_STRLEN HSV_pub_id)),
     (HSV_field HSV_prep_id x, the (HSV_STRLEN HSV_prep_id)),
     (HSV_field HSV_appl_id x, the (HSV_STRLEN HSV_appl_id)),
     (HSV_field HSV_copyr_id x, the (HSV_STRLEN HSV_copyr_id)),
     (HSV_field HSV_abstr_id x, the (HSV_STRLEN HSV_abstr_id)), (HSV_field HSV_cre_date x, HSV_DATE_LEN),
     (HSV_field HSV_mod_date x, HSV_DATE_LEN), (HSV_field HSV_exp_date x, HSV_DATE_LEN),
     (HSV_field HSV_eff_date x, HSV_DATE_LEN), (HSV_field HSV_file_struct_ver x, 1)]"

definition ide_fields :: "nat \<Rightarrow> (nat \<times> nat) list" where
  "ide_fields x = [
     (IDE_field IDE_dir_len x, 1), (IDE_field IDE_xar_len x, 1), (IDE_field IDE_ext_lbn x, 8),
     (IDE_field IDE_ext_size x, 8), (IDE_field IDE_cdate x, ISO_SHORT_DATE_LEN), (IDE_field IDE_flags x, 1),
     (IDE_field IDE_intrlv_size x, 1), (IDE_field IDE_intrlv_skip x, 1), (IDE_field IDE_vol_set x, 4),
     (IDE_field IDE_name_len x, 1)]"

definition hde_fields :: "nat \<Rightarrow> (nat \<times> nat) list" where
  "hde_fields x = [
     (HDE_field HDE_dir_len x, 1), (HDE_field HDE_xar_len x, 1), (HDE_field HDE_ext_lbn x, 8),
     (HDE_field HDE_ext_size x, 8), (HDE_field HDE_cdate x, 6), (HDE_field HDE_flags x, 1),
     (HDE_field HDE_reserved x, 1), (HDE_field HDE_intrlv_size x, 1), (HDE_field HDE_intrlv_skip x, 1),
     (HDE_field HDE_vol_set x, 4), (HDE_field HDE_name_len x, 1)]"

definition ipe_fields :: "nat \<Rightarrow> (nat \<times> nat) list" where
  "ipe_fields x = [
     (IPE_field IPE_name_len x, 1), (IPE_field IPE_xar_len x, 1), (IPE_field IPE_ext_lbn x, 4),
     (IPE_field IPE_parent_no x, 2)]"

definition hpe_fields :: "nat \<Rightarrow> (nat \<times> nat) list" where
  "hpe_fields x = [
     (HPE_field HPE_ext_lbn x, 4), (HPE_field HPE_xar_len x, 1), (HPE_field HPE_name_len x, 1),
     (HPE_field HPE_parent_no x, 2)]"

lemmas size_defs = ISO_ID_STRLEN_def ISO_DATE_LEN_def ISO_SHORT_DATE_LEN_def IDE_ROOT_DIR_REC_SIZE_def HSV_ID_STRLEN_def
  HSV_DATE_LEN_def HDE_ROOT_DIR_REC_SIZE_def IDE_FDESIZE_def HDE_FDESIZE_def IPE_FPESIZE_def HPE_FPESIZE_def

lemmas tile_simps = field_bytes_def list.map concat.simps prod.case append_Nil2 size_defs option.sel ISO_field.simps ISO_STRLEN.simps
  HSV_field.simps HSV_STRLEN.simps IDE_field.simps HDE_field.simps IPE_field.simps HPE_field.simps


lemma iso_voldesc_tiles:
  "field_bytes (iso_voldesc_fields x) = [x..<x + 7] @ [x + 8..<x + 72] @ [x + 80..<x + 88] @ [x + 120..<x + 882]"
  by (simp only: iso_voldesc_fields_def tile_simps)
    (simp add: upt_join upt_join2 add.commute [of x "numeral n" for n] del: upt_Suc)

lemma hsv_voldesc_tiles:
  "field_bytes (hsv_voldesc_fields x) = [x..<x + 15] @ [x + 16..<x + 80] @ [x + 88..<x + 96] @ [x + 128..<x + 855]"
  by (simp only: hsv_voldesc_fields_def tile_simps)
    (simp add: upt_join upt_join2 add.commute [of x "numeral n" for n] del: upt_Suc)

lemma record_tiles:
  "field_bytes (ide_fields x) = [x..<IDE_field IDE_name x]" "IDE_field IDE_name x = x + IDE_FDESIZE"
  "field_bytes (hde_fields x) = [x..<HDE_field HDE_name x]" "HDE_field HDE_name x = x + HDE_FDESIZE"
  "field_bytes (ipe_fields x) = [x..<IPE_field IPE_name x]" "IPE_field IPE_name x = x + IPE_FPESIZE"
  "field_bytes (hpe_fields x) = [x..<HPE_field HPE_name x]" "HPE_field HPE_name x = x + HPE_FPESIZE"
  by (simp_all only: ide_fields_def hde_fields_def ipe_fields_def hpe_fields_def tile_simps)
    (simp_all add: upt_join upt_join2 add.commute [of x "numeral n" for n] del: upt_Suc)

section \<open>Directory records as the standard writes them\<close>

record dirrec =
  d_xar :: u8
  d_lbn :: u32
  d_size :: u32
  d_date :: "u8 list"
  d_flags :: u8
  d_unit :: u8
  d_gap :: u8
  d_volume :: u16
  d_name :: "u8 list"
  d_system_use :: "u8 list"

definition name_pad :: "u8 list \<Rightarrow> u8 list" where "name_pad n = (if even (length n) then [0] else [])"

definition record_length :: "dirrec \<Rightarrow> nat" where
  "record_length r = 33 + length (d_name r) + length (name_pad (d_name r)) + length (d_system_use r)"

definition put_dirrec :: "dirrec \<Rightarrow> u8 list" where
  "put_dirrec r = [of_nat (record_length r), d_xar r] @ both32 (d_lbn r) @ both32 (d_size r) @ d_date r @
     [d_flags r, d_unit r, d_gap r] @ both16 (d_volume r) @ [of_nat (length (d_name r))] @ d_name r @
     name_pad (d_name r) @ d_system_use r"

definition dirrec_wf :: "dirrec \<Rightarrow> bool" where
  "dirrec_wf r \<longleftrightarrow> length (d_date r) = ISO_SHORT_DATE_LEN \<and> record_length r \<le> 255"

lemma dirrec_parts:
  assumes "recorded m x (put_dirrec r)" "dirrec_wf r"
  shows "mem_get m x = Some (of_nat (record_length r))" "mem_get m (x + 1) = Some (d_xar r)"
    "recorded m (x + 2) (both32 (d_lbn r))" "recorded m (x + 10) (both32 (d_size r))" "recorded m (x + 18) (d_date r)"
    "mem_get m (x + 25) = Some (d_flags r)" "mem_get m (x + 26) = Some (d_unit r)" "mem_get m (x + 27) = Some (d_gap r)"
    "recorded m (x + 28) (both16 (d_volume r))" "mem_get m (x + 32) = Some (of_nat (length (d_name r)))"
    "recorded m (x + 33) (d_name r)"
    "recorded m (x + 33 + length (d_name r) + length (name_pad (d_name r))) (d_system_use r)"
proof -
  have "length (d_date r) = 7" using assms(2) by (simp add: dirrec_wf_def ISO_SHORT_DATE_LEN_def)
  then show "mem_get m x = Some (of_nat (record_length r))" "mem_get m (x + 1) = Some (d_xar r)"
    "recorded m (x + 2) (both32 (d_lbn r))" "recorded m (x + 10) (both32 (d_size r))" "recorded m (x + 18) (d_date r)"
    "mem_get m (x + 25) = Some (d_flags r)" "mem_get m (x + 26) = Some (d_unit r)" "mem_get m (x + 27) = Some (d_gap r)"
    "recorded m (x + 28) (both16 (d_volume r))" "mem_get m (x + 32) = Some (of_nat (length (d_name r)))"
    "recorded m (x + 33) (d_name r)"
    "recorded m (x + 33 + length (d_name r) + length (name_pad (d_name r))) (d_system_use r)"
    using assms(1) by (simp_all only: put_dirrec_def recorded_parts length_both)
qed

lemma byte_of_nat: "n \<le> 255 \<Longrightarrow> unat (of_nat n :: u8) = n \<and> uint (of_nat n :: u8) = int n"
  by (simp add: unat_of_nat uint_nat)

lemma pad_length:
  assumes "byte_of (IDE_value IDE_name_len m x) = Some n" "unat n = length name"
  shows "IDE_PAD_LEN m x = Some (length (name_pad name))"
  using assms by (simp add: IDE_PAD_LEN_def name_pad_def odd_iff_mod_2_eq_one)

text \<open>The record of a file AB of 300 bytes at block 20.\<close>

definition example_dirrec :: dirrec where
  "example_dirrec = \<lparr>d_xar = 0, d_lbn = 20, d_size = 300, d_date = [99, 1, 2, 3, 4, 5, 0], d_flags = 0, d_unit = 0, d_gap = 0,
     d_volume = 1, d_name = [65, 66], d_system_use = [7, 8]\<rparr>"

lemma example_dirrec:
  "dirrec_wf example_dirrec" "recorded (0 # put_dirrec example_dirrec) 1 (put_dirrec example_dirrec)"
  "d_system_use example_dirrec = [7, 8]" "d_lbn example_dirrec = 20"
  by (simp_all add: dirrec_wf_def example_dirrec_def record_length_def name_pad_def ISO_SHORT_DATE_LEN_def recorded_def)

section \<open>Recorded dates\<close>

definition iso_date :: "disc_date \<Rightarrow> u8 list" where "iso_date d = date_digits d @ [d_gmtoff d]"

lemma length_iso_date [simp]: "length (iso_date d) = 17" by (simp add: iso_date_def)

text \<open>The date macros have the text of those of the other header.\<close>

lemma ISO_HSV_digits: "ISO_DATE_2DIG = HSV_DATE_2DIG" "ISO_DATE_4DIG = HSV_DATE_4DIG"
  by (simp_all add: fun_eq_iff ISO_DATE_2DIG_def HSV_DATE_2DIG_def ISO_DATE_4DIG_def HSV_DATE_4DIG_def)

lemma iso_date_read:
  assumes "recorded m x (iso_date d)" "date_ok d"
  shows "ISO_DATE p m x = Some (date_value p d)"
proof -
  have r: "recorded m x (date_digits d)" "mem_get m (x + 16) = Some (d_gmtoff d)"
    using assms(1) by (simp_all add: iso_date_def recorded_append recorded_Cons1)
  show ?thesis
  proof (cases "p = Date_gmtoff")
    case False
    then have "ISO_DATE p m x = HSV_DATE p m x" by (cases p) (simp_all add: ISO_HSV_digits)
    then show ?thesis using date_read [OF r(1) assms(2) False] by simp
  qed (simp add: r(2))
qed

lemma recorded_4dig: "recorded m x bs \<Longrightarrow> k + 3 < length bs \<Longrightarrow> ISO_DATE_4DIG m (x + k) = ISO_DATE_4DIG bs k"
  using recorded_get [of m x bs k] recorded_get [of m x bs "k + 1"] recorded_get [of m x bs "k + 2"] recorded_get [of m x bs "k + 3"]
  by (simp add: ISO_DATE_4DIG_def mem_get_def add.assoc)

text \<open>The digits of the time of day, read as parts of another date.\<close>

lemma iso_time_digits:
  assumes "recorded m x (iso_date d)" "date_ok d"
  shows "ISO_DATE_4DIG m (x + 9) = Some (int (d_hour d mod 10 * 1000 + d_min d * 10 + d_sec d div 10))"
    "ISO_DATE_4DIG m (x + 8) = Some (int (d_hour d * 100 + d_min d))" "ISO_DATE_2DIG m (x + 12) = Some (int (d_sec d))"
    "ISO_DATE_2DIG m (x + 14) = Some (int (d_hsec d))"
proof -
  have "recorded m x (date_digits d)" using assms(1) by (simp add: iso_date_def recorded_append)
  note p = date_parts [OF this]
  have ok: "d_hour d < 100" "d_min d < 100" "d_sec d < 100" "d_hsec d < 100" using assms(2) by (simp_all add: date_ok_def)
  show "ISO_DATE_2DIG m (x + 12) = Some (int (d_sec d))" "ISO_DATE_2DIG m (x + 14) = Some (int (d_hsec d))"
    unfolding ISO_HSV_digits using digits2_read [OF p(6) ok(3)] digits2_read [OF p(7) ok(4)] by simp_all
  have "recorded m (x + 8) (digits2 (d_hour d) @ digits2 (d_min d))"
    using p(4,5) by (simp only: recorded_parts length_date)
  moreover have "(d_hour d * 100 + d_min d) div 100 = d_hour d" "(d_hour d * 100 + d_min d) mod 100 = d_min d" using ok by simp_all
  ultimately show "ISO_DATE_4DIG m (x + 8) = Some (int (d_hour d * 100 + d_min d))"
    unfolding ISO_HSV_digits using digits4_read [of m "x + 8" "d_hour d * 100 + d_min d"] ok by simp
  have g: "mem_get m (x + 9) = Some (digit (d_hour d mod 10))" "mem_get m (x + 10) = Some (digit (d_min d div 10))"
    "mem_get m (x + 11) = Some (digit (d_min d mod 10))" "mem_get m (x + 12) = Some (digit (d_sec d div 10))"
    using p(4-6) by (simp_all only: digits2_def recorded_parts)
  have a: "x + 9 + 1 = x + 10" "x + 9 + 2 = x + 11" "x + 9 + 3 = x + 12" by simp_all
  have "int (d_min d) = 10 * int (d_min d div 10) + int (d_min d mod 10)" using mult_div_mod_eq [of 10 "d_min d"] by (metis of_nat_add of_nat_mult of_nat_numeral)
  moreover have "d_min d div 10 < 10" "d_sec d div 10 < 10" using ok by (simp_all add: div_less_iff_less_mult)
  ultimately show "ISO_DATE_4DIG m (x + 9) = Some (int (d_hour d mod 10 * 1000 + d_min d * 10 + d_sec d div 10))"
    unfolding ISO_DATE_4DIG_def a g by (simp add: uint_digit)
qed

section \<open>Properties\<close>

text \<open>C20: the address macros of both formats give each field of a volume descriptor, of a directory record and of a path table entry
  its own bytes. Listing the bytes of the fields in order gives the offsets without gap or repetition, except for
  the bytes the standards reserve; a descriptor fits a sector, the fixed part of a record has the size its constant says and the name follows it.\<close>

theorem hsfs_fields_tile:
  "882 \<le> ISO_SECTOR_SIZE \<and> 855 \<le> HS_SECTOR_SIZE \<and>
   field_bytes (iso_voldesc_fields x) = [x..<x + 7] @ [x + 8..<x + 72] @ [x + 80..<x + 88] @ [x + 120..<x + 882] \<and>
   field_bytes (hsv_voldesc_fields x) = [x..<x + 15] @ [x + 16..<x + 80] @ [x + 88..<x + 96] @ [x + 128..<x + 855] \<and>
   field_bytes (ide_fields x) = [x..<x + IDE_FDESIZE] \<and> IDE_field IDE_name x = x + IDE_FDESIZE \<and>
   field_bytes (hde_fields x) = [x..<x + HDE_FDESIZE] \<and> HDE_field HDE_name x = x + HDE_FDESIZE \<and>
   field_bytes (ipe_fields x) = [x..<x + IPE_FPESIZE] \<and> IPE_field IPE_name x = x + IPE_FPESIZE \<and>
   field_bytes (hpe_fields x) = [x..<x + HPE_FPESIZE] \<and> HPE_field HPE_name x = x + HPE_FPESIZE"
  by (simp only: iso_voldesc_tiles hsv_voldesc_tiles record_tiles simp_thms) (simp add: ISO_SECTOR_SIZE_def HS_SECTOR_SIZE_def)

text \<open>C13: a directory record written as the standard lays it out, in a buffer at any place, is read back by the accessors, and its
  system use area is found: it starts at an even offset, has the length computed from the lengths before it and
  ends with the record.\<close>

theorem directory_record_roundtrip:
  assumes "recorded m x (put_dirrec r)" "dirrec_wf r"
  shows "map (\<lambda>f. IDE_value f m x) [IDE_dir_len, IDE_xar_len, IDE_ext_lbn, IDE_ext_size, IDE_flags, IDE_intrlv_size, IDE_intrlv_skip,
        IDE_vol_set, IDE_name_len] =
      [Byte (Some (of_nat (record_length r))), Byte (Some (d_xar r)), Number (Some (sint (d_lbn r))), Number (Some (sint (d_size r))),
        Byte (Some (d_flags r)), Byte (Some (d_unit r)), Byte (Some (d_gap r)), Number (Some (sint (d_volume r))),
        Byte (Some (of_nat (length (d_name r))))] \<and>
    (\<exists>a. IDE_value IDE_cdate m x = Pointer a \<and> recorded m a (d_date r)) \<and>
    (\<exists>a. IDE_value IDE_name m x = Pointer a \<and> recorded m a (d_name r)) \<and>
    (\<exists>a. IDE_sys_use_area m x = Some a \<and> recorded m a (d_system_use r) \<and> even (a - x) \<and>
      IDE_SUA_LEN m x = Some (int (length (d_system_use r))) \<and> a + length (d_system_use r) = x + record_length r)"
proof -
  note parts = dirrec_parts [OF assms]
  have len: "record_length r \<le> 255" using assms(2) by (simp add: dirrec_wf_def)
  then have bytes: "uint (of_nat (record_length r) :: u8) = int (record_length r)"
    "unat (of_nat (length (d_name r)) :: u8) = length (d_name r)" "uint (of_nat (length (d_name r)) :: u8) = int (length (d_name r))"
    using byte_of_nat [of "record_length r"] byte_of_nat [of "length (d_name r)"] by (auto simp: record_length_def simp del: of_nat_add)
  have name: "byte_of (IDE_value IDE_name_len m x) = Some (of_nat (length (d_name r)))"
    "byte_of (IDE_value IDE_dir_len m x) = Some (of_nat (record_length r))"
    using parts(1,10) by simp_all
  note pad = pad_length [OF name(1) bytes(2)]
  define a where "a = x + 33 + length (d_name r) + length (name_pad (d_name r))"
  have "IDE_sys_use_area m x = Some a" "IDE_SUA_LEN m x = Some (int (length (d_system_use r)))"
    unfolding IDE_sys_use_area_def IDE_SUA_LEN_def name pad
    by (simp_all add: bytes a_def IDE_FDESIZE_def) (simp add: record_length_def)
  moreover have "even (a - x)" by (simp add: a_def name_pad_def)
  moreover have "recorded m a (d_system_use r)" using parts(12) by (simp add: a_def)
  moreover have "a + length (d_system_use r) = x + record_length r" by (simp add: a_def record_length_def)
  ultimately show ?thesis
    using parts(1-11) both_ints by (simp add: record_length_def del: of_nat_add)
qed

theorem directory_record_roundtrip_witness:
  "IDE_SUA_LEN (0 # put_dirrec example_dirrec) 1 = Some 2 \<and> IDE_value IDE_ext_lbn (0 # put_dirrec example_dirrec) 1 = Number (Some 20)"
  using directory_record_roundtrip [of "0 # put_dirrec example_dirrec" 1 example_dirrec] example_dirrec by (auto simp del: IDE_value.simps)

text \<open>C22: the dates of an ISO 9660 volume descriptor, recorded after the bibliographic identifier as the standard prescribes, are read
  back part by part, the time zone included, by the \<^verbatim>\<open>ISO_DATE\<close> macros at the four address macros. The accessors
  \<^verbatim>\<open>ISO_CRE_DATE\<close> to \<^verbatim>\<open>ISO_EFF_DATE\<close> expand to the addresses of the other format and lead elsewhere: the years of the creation and
  modification dates are taken from the bibliographic identifier, the year of the expiration date from the hour, minute and
  second of the creation date, and the year, month and day of the effective date from the time of day of the modification
  date.\<close>

theorem iso_dates_misread:
  assumes "recorded m (ISO_field ISO_bibli_id x) (bib @ iso_date c @ iso_date d @ iso_date e @ iso_date f)" "length bib = 37"
    and "date_ok c" "date_ok d" "date_ok e" "date_ok f"
  shows "ISO_DATE p m (ISO_field ISO_cre_date x) = Some (date_value p c) \<and> ISO_DATE p m (ISO_field ISO_mod_date x) = Some (date_value p d) \<and>
    ISO_DATE p m (ISO_field ISO_exp_date x) = Some (date_value p e) \<and> ISO_DATE p m (ISO_field ISO_eff_date x) = Some (date_value p f) \<and>
    (\<exists>q. ISO_value ISO_cre_date m x = Pointer q \<and> ISO_DATE Date_year m q = ISO_DATE_4DIG bib 14) \<and>
    (\<exists>q. ISO_value ISO_mod_date m x = Pointer q \<and> ISO_DATE Date_year m q = ISO_DATE_4DIG bib 30) \<and>
    (\<exists>q. ISO_value ISO_exp_date m x = Pointer q \<and>
      ISO_DATE Date_year m q = Some (int (d_hour c mod 10 * 1000 + d_min c * 10 + d_sec c div 10))) \<and>
    (\<exists>q. ISO_value ISO_eff_date m x = Pointer q \<and> ISO_DATE Date_year m q = Some (int (d_hour d * 100 + d_min d)) \<and>
      ISO_DATE Date_month m q = Some (int (d_sec d)) \<and> ISO_DATE Date_day m q = Some (int (d_hsec d)))"
proof -
  have r: "recorded m (x + 776) bib" "recorded m (x + 813) (iso_date c)" "recorded m (x + 830) (iso_date d)" "recorded m (x + 847) (iso_date e)"
    "recorded m (x + 864) (iso_date f)"
    using assms(1) by (simp_all only: ISO_field.simps recorded_parts length_iso_date assms(2))
  have "ISO_DATE_4DIG m (x + 790) = ISO_DATE_4DIG bib 14" "ISO_DATE_4DIG m (x + 806) = ISO_DATE_4DIG bib 30"
    using recorded_4dig [OF r(1), of 14] recorded_4dig [OF r(1), of 30] assms(2) by (simp_all add: add.assoc)
  moreover have "ISO_DATE_4DIG m (x + 822) = Some (int (d_hour c mod 10 * 1000 + d_min c * 10 + d_sec c div 10))"
    using iso_time_digits(1) [OF r(2) assms(3)] by (simp add: add.assoc)
  moreover have "ISO_DATE_4DIG m (x + 838) = Some (int (d_hour d * 100 + d_min d))" "ISO_DATE_2DIG m (x + 842) = Some (int (d_sec d))"
    "ISO_DATE_2DIG m (x + 844) = Some (int (d_hsec d))"
    using iso_time_digits(2-4) [OF r(3) assms(4)] by (simp_all add: add.assoc)
  ultimately show ?thesis
    using iso_date_read [OF r(2) assms(3), of p] iso_date_read [OF r(3) assms(4), of p] iso_date_read [OF r(4) assms(5), of p]
      iso_date_read [OF r(5) assms(6), of p]
    by (simp add: add.commute [of x])
qed

theorem iso_dates_misread_witness:
  "let m = replicate 776 0 @ replicate 37 32 @ concat (replicate 4 (iso_date example_date)) in
    ISO_DATE Date_year m (ISO_field ISO_cre_date 0) = Some 1994 \<and>
    (\<exists>q. ISO_value ISO_exp_date m 0 = Pointer q \<and> ISO_DATE Date_year m q = Some 3595)"
proof -
  let ?m = "replicate 776 0 @ replicate 37 32 @ concat (replicate 4 (iso_date example_date))"
  have "concat (replicate 4 (iso_date example_date)) =
    iso_date example_date @ iso_date example_date @ iso_date example_date @ iso_date example_date" by (simp add: numeral_eq_Suc)
  then have "recorded ?m (ISO_field ISO_bibli_id 0)
    (replicate 37 32 @ iso_date example_date @ iso_date example_date @ iso_date example_date @ iso_date example_date)" by (simp add: recorded_def)
  moreover have "date_ok example_date" by (simp add: date_ok_def example_date_def)
  ultimately show ?thesis
    using iso_dates_misread [of ?m 0 "replicate 37 32" example_date example_date example_date example_date Date_year]
    by (simp add: Let_def example_date_def del: ISO_DATE.simps ISO_field.simps ISO_value.simps)
qed

text \<open>C26: no path table suits the accessors of an entry. In the table with the most significant byte first \<^verbatim>\<open>IPE_EXT_LBN\<close> gives the
  block number and \<^verbatim>\<open>IPE_PARENT_NO\<close> the parent with its bytes exchanged; in the other table it is the reverse. The High Sierra
  accessors read both from the table with the least significant byte first.\<close>

theorem path_table_orders:
  assumes "recorded m x ([n, a] @ rev (octets (lbn :: u32) 4) @ rev (octets (parent :: u16) 2))"
    "recorded m y ([n, a] @ octets lbn 4 @ octets parent 2)" "recorded m z (octets lbn 4 @ [a, n] @ octets parent 2)"
  shows "IPE_value IPE_ext_lbn m x = Unsigned (Some lbn) \<and> IPE_value IPE_parent_no m x = Number (Some (sint (htons parent))) \<and>
    IPE_value IPE_ext_lbn m y = Unsigned (Some (ntohl lbn)) \<and> IPE_value IPE_parent_no m y = Number (Some (sint parent)) \<and>
    HPE_value HPE_ext_lbn m z = Number (Some (sint lbn)) \<and> HPE_value HPE_parent_no m z = Number (Some (sint parent))"
proof -
  have x: "recorded m (x + 2) (rev (octets lbn 4))" "recorded m (x + 6) (octets (htons parent) 2)"
    using assms(1) by (simp_all only: recorded_parts length_rev length_octets htons_def octets_BSWAP_16)
  have y: "recorded m (y + 2) (rev (octets (ntohl lbn) 4))" "recorded m (y + 6) (octets parent 2)"
    using assms(2) by (simp_all only: recorded_parts length_octets ntohl_def octets_BSWAP_32 rev_rev_ident)
  have z: "recorded m z (octets lbn 4)" "recorded m (z + 6) (octets parent 2)"
    using assms(3) by (simp_all only: recorded_parts length_octets)
  show ?thesis
    using ints_octets(2) [OF x(1)] ints_octets(2) [OF y(1)] load32_octets [OF z(1)] load16_octets [OF x(2)]
      load16_octets [OF y(2)] load16_octets [OF z(2)]
    by (simp add: add_0_right)
qed

theorem path_table_orders_witness:
  "IPE_value IPE_parent_no ([1, 0, 0, 0, 0, 20, 0, 1] @ [1, 0, 20, 0, 0, 0, 1, 0] @ [20, 0, 0, 0, 0, 1, 1, 0]) 0 = Number (Some 256)"
proof -
  have o: "octets (20 :: u32) 4 = [20, 0, 0, 0]" "octets (1 :: u16) 2 = [1, 0]" by (simp_all add: octets_4 octets_2)
  have "htons 1 = 256" by (simp add: htons_def BSWAP_16_def BSWAP_8_def)
  then show ?thesis
    using path_table_orders [of "[1, 0, 0, 0, 0, 20, 0, 1] @ [1, 0, 20, 0, 0, 0, 1, 0] @ [20, 0, 0, 0, 0, 1, 1, 0]" 0 1 0 20 1 8 16]
    by (simp add: o recorded_def del: IPE_value.simps HPE_value.simps)
qed

end
