(* ===== verification/RockRidge.thy ===== *)
theory RockRidge
  imports HsfsIso
begin

unbundle bit_operations_syntax

text \<open>
  The system use areas of directory records: the sharing protocol of \<^verbatim>\<open>sys/fs/hsfs_susp.h\<close> and the Rock Ridge fields of
  \<^verbatim>\<open>sys/fs/hsfs_rrip.h\<close>, which carry Posix names, attributes, times and symbolic links. The parsers that walk
  an area are declared in the headers and defined elsewhere; the macros they use are all here but \<^verbatim>\<open>RESTORE_NM\<close>, which tests a variable of its caller.
\<close>

section \<open>State\<close>

text \<open>The field of \<^verbatim>\<open>struct hsfs\<close> that the macros use.\<close>

record hsfs =
  hsfs_ext_impl :: u32

text \<open>The length of a string in a buffer; a string without terminator has none.\<close>

definition strlen :: "u8 list \<Rightarrow> nat \<Rightarrow> nat option" where
  "strlen m x = (if 0 \<in> set (drop x m) then Some (length (takeWhile (\<lambda>b. b \<noteq> 0) (drop x m))) else None)"

section \<open>System use areas\<close>

text \<open>What the parser of an area returns.\<close>

datatype sua_code =
    Code_sua_null_pointer | Code_end_of_sua_parsing | Code_end_of_sua | Code_get_continuation | Code_sua_enomem
  | Code_sua_einval | Code_reloc_dir

fun SUA_code :: "sua_code \<Rightarrow> int" where
  "SUA_code Code_sua_null_pointer = - 1"
| "SUA_code Code_end_of_sua_parsing = - 2"
| "SUA_code Code_end_of_sua = - 3"
| "SUA_code Code_get_continuation = - 4"
| "SUA_code Code_sua_enomem = - 5"
| "SUA_code Code_sua_einval = - 6"
| "SUA_code Code_reloc_dir = - 7"

text \<open>The bits of the implemented extensions; a shift by the width of the word or more has no value.\<close>

definition SET_IMPL_BIT :: "hsfs \<Rightarrow> nat \<Rightarrow> hsfs option" where
  "SET_IMPL_BIT fsp y = (if y < 32 then Some (fsp\<lparr>hsfs_ext_impl := hsfs_ext_impl fsp OR push_bit y 1\<rparr>) else None)"

definition UNSET_IMPL_BIT :: "hsfs \<Rightarrow> nat \<Rightarrow> hsfs option" where
  "UNSET_IMPL_BIT fsp y = (if y < 32 then Some (fsp\<lparr>hsfs_ext_impl := hsfs_ext_impl fsp AND NOT (push_bit y 1)\<rparr>) else None)"

definition IS_IMPL_BIT_SET :: "hsfs \<Rightarrow> nat \<Rightarrow> u32 option" where
  "IS_IMPL_BIT_SET fsp y = (if y < 32 then Some (hsfs_ext_impl fsp AND push_bit y 1) else None)"

definition HAVE_SUSP :: nat where "HAVE_SUSP = 0"

definition SET_SUSP_BIT :: "hsfs \<Rightarrow> hsfs option" where "SET_SUSP_BIT fsp = SET_IMPL_BIT fsp HAVE_SUSP"

definition UNSET_SUSP_BIT :: "hsfs \<Rightarrow> hsfs option" where
  "UNSET_SUSP_BIT fsp = UNSET_IMPL_BIT fsp HAVE_SUSP"

definition IS_SUSP_IMPLEMENTED :: "hsfs \<Rightarrow> nat option" where
  "IS_SUSP_IMPLEMENTED fsp = map_option (\<lambda>b. if b \<noteq> 0 then 1 else 0) (IS_IMPL_BIT_SET fsp 0)"

text \<open>Fields of a system use area.\<close>

datatype susp_signature =
    Sig_SP | Sig_CE | Sig_PD | Sig_ER | Sig_ST

fun SUSP_sig :: "susp_signature \<Rightarrow> string" where
  "SUSP_sig Sig_SP = ''SP''"
| "SUSP_sig Sig_CE = ''CE''"
| "SUSP_sig Sig_PD = ''PD''"
| "SUSP_sig Sig_ER = ''ER''"
| "SUSP_sig Sig_ST = ''ST''"

datatype suf_field =
    SUF_len | SUF_ver

fun SUF_field :: "suf_field \<Rightarrow> nat \<Rightarrow> nat" where
  "SUF_field SUF_len x = x + 2"
| "SUF_field SUF_ver x = x + 3"

fun SUF_value :: "suf_field \<Rightarrow> u8 list \<Rightarrow> nat \<Rightarrow> hs_value" where
  "SUF_value SUF_len m x = Byte (mem_get m (SUF_field SUF_len x))"
| "SUF_value SUF_ver m x = Byte (mem_get m (SUF_field SUF_ver x))"

text \<open>Extension references.\<close>

datatype er_field =
    ER_id_len | ER_des_len | ER_src_len | ER_ext_ver

fun ER_field :: "er_field \<Rightarrow> nat \<Rightarrow> nat" where
  "ER_field ER_id_len x = x + 4"
| "ER_field ER_des_len x = x + 5"
| "ER_field ER_src_len x = x + 6"
| "ER_field ER_ext_ver x = x + 7"

fun ER_value :: "er_field \<Rightarrow> u8 list \<Rightarrow> nat \<Rightarrow> hs_value" where
  "ER_value ER_id_len m x = Byte (mem_get m (ER_field ER_id_len x))"
| "ER_value ER_des_len m x = Byte (mem_get m (ER_field ER_des_len x))"
| "ER_value ER_src_len m x = Byte (mem_get m (ER_field ER_src_len x))"
| "ER_value ER_ext_ver m x = Byte (mem_get m (ER_field ER_ext_ver x))"

definition ER_EXT_ID_LOC :: nat where "ER_EXT_ID_LOC = 8"

definition ER_ext_id :: "nat \<Rightarrow> nat" where "ER_ext_id x = x + ER_EXT_ID_LOC"

definition ER_ext_des :: "u8 list \<Rightarrow> nat \<Rightarrow> nat option" where
  "ER_ext_des m x = map_option (\<lambda>n. x + (ER_EXT_ID_LOC + unat n)) (byte_of (ER_value ER_id_len m x))"

definition ER_ext_src :: "u8 list \<Rightarrow> nat \<Rightarrow> nat option" where
  "ER_ext_src m x = Option.bind (byte_of (ER_value ER_id_len m x)) (\<lambda>n. map_option (\<lambda>d. x + (ER_EXT_ID_LOC + unat n + unat d)) (byte_of (ER_value ER_des_len m x)))"

text \<open>Continuation areas.\<close>

datatype ce_field =
    CE_blk_loc | CE_offset | CE_cont_len

fun CE_field :: "ce_field \<Rightarrow> nat \<Rightarrow> nat" where
  "CE_field CE_blk_loc x = x + 4"
| "CE_field CE_offset x = x + 12"
| "CE_field CE_cont_len x = x + 20"

fun CE_value :: "ce_field \<Rightarrow> u8 list \<Rightarrow> nat \<Rightarrow> hs_value" where
  "CE_value CE_blk_loc m x = Number (BOTH_INT m (CE_field CE_blk_loc x))"
| "CE_value CE_offset m x = Number (BOTH_INT m (CE_field CE_offset x))"
| "CE_value CE_cont_len m x = Number (BOTH_INT m (CE_field CE_cont_len x))"

text \<open>The sharing protocol.\<close>

datatype sp_field =
    SP_chk_byte_1 | SP_chk_byte_2

fun SP_field :: "sp_field \<Rightarrow> nat \<Rightarrow> nat" where
  "SP_field SP_chk_byte_1 x = x + 4"
| "SP_field SP_chk_byte_2 x = x + 5"

fun SP_value :: "sp_field \<Rightarrow> u8 list \<Rightarrow> nat \<Rightarrow> hs_value" where
  "SP_value SP_chk_byte_1 m x = Byte (mem_get m (SP_field SP_chk_byte_1 x))"
| "SP_value SP_chk_byte_2 m x = Byte (mem_get m (SP_field SP_chk_byte_2 x))"

definition SUSP_CHECK_BYTE_1 :: u8 where "SUSP_CHECK_BYTE_1 = 0xBE"

definition SUSP_CHECK_BYTE_2 :: u8 where "SUSP_CHECK_BYTE_2 = 0xEF"

definition CHECK_BYTES_OK :: "u8 list \<Rightarrow> nat \<Rightarrow> bool option" where
  "CHECK_BYTES_OK m x = Option.bind (byte_of (SP_value SP_chk_byte_1 m x)) (\<lambda>a. if a = SUSP_CHECK_BYTE_1
     then map_option (\<lambda>b. b = SUSP_CHECK_BYTE_2) (byte_of (SP_value SP_chk_byte_2 m x)) else Some False)"

definition SP_sua_offset :: "nat \<Rightarrow> nat" where "SP_sua_offset x = x + 6"

definition SP_SUA_OFFSET :: "u8 list \<Rightarrow> nat \<Rightarrow> u8 option" where
  "SP_SUA_OFFSET m x = mem_get m (SP_sua_offset x)"

section \<open>Rock Ridge fields\<close>

definition RRIP_BIT :: nat where "RRIP_BIT = 1"

definition IS_RRIP_IMPLEMENTED :: "hsfs \<Rightarrow> nat option" where
  "IS_RRIP_IMPLEMENTED fsp = map_option (\<lambda>b. if b \<noteq> 0 then 1 else 0) (IS_IMPL_BIT_SET fsp RRIP_BIT)"

datatype rrip_signature =
    Rrip_CL | Rrip_NM | Rrip_PL | Rrip_PN | Rrip_PX | Rrip_RE | Rrip_RR | Rrip_SL | Rrip_TF

fun RRIP_sig :: "rrip_signature \<Rightarrow> string" where
  "RRIP_sig Rrip_CL = ''CL''"
| "RRIP_sig Rrip_NM = ''NM''"
| "RRIP_sig Rrip_PL = ''PL''"
| "RRIP_sig Rrip_PN = ''PN''"
| "RRIP_sig Rrip_PX = ''PX''"
| "RRIP_sig Rrip_RE = ''RE''"
| "RRIP_sig Rrip_RR = ''RR''"
| "RRIP_sig Rrip_SL = ''SL''"
| "RRIP_sig Rrip_TF = ''TF''"

definition RRIP_ER_EXT_ID :: string where "RRIP_ER_EXT_ID = ''RRIP_1991A''"

definition RRIP_ER_EXT_DES :: string where
  "RRIP_ER_EXT_DES = ''THE ROCK RIDGE INTERCHANGE PROTOCOL PROVIDES SUPPORT FOR POSIX FILE SYSTEM SEMANTICS.''"

definition RRIP_ER_EXT_SRC :: string where
  "RRIP_ER_EXT_SRC = ''PLEASE CONTACT DISC PUBLISHER FOR SPECIFICATION SOURCE.  SEE PUBLISHER IDENTIFIER IN PRIMARY VOLUME DESCRIPTOR FOR CONTACT INFORMATION.''"

text \<open>Time stamps.\<close>

datatype rrip_stamp =
    Stamp_creation | Stamp_modify | Stamp_access | Stamp_attributes | Stamp_backup | Stamp_expiration
  | Stamp_effective | Stamp_long

fun RRIP_TF_BIT :: "rrip_stamp \<Rightarrow> u32" where
  "RRIP_TF_BIT Stamp_creation = 0x01"
| "RRIP_TF_BIT Stamp_modify = 0x02"
| "RRIP_TF_BIT Stamp_access = 0x04"
| "RRIP_TF_BIT Stamp_attributes = 0x08"
| "RRIP_TF_BIT Stamp_backup = 0x10"
| "RRIP_TF_BIT Stamp_expiration = 0x20"
| "RRIP_TF_BIT Stamp_effective = 0x40"
| "RRIP_TF_BIT Stamp_long = 0x80"

definition RRIP_tf_flags :: "nat \<Rightarrow> nat" where "RRIP_tf_flags x = x + 4"

definition RRIP_TF_FLAGS :: "u8 list \<Rightarrow> nat \<Rightarrow> u8 option" where
  "RRIP_TF_FLAGS m x = mem_get m (RRIP_tf_flags x)"

definition RRIP_TIME_START_BP :: nat where "RRIP_TIME_START_BP = 5"

definition IS_TIME_BIT_SET :: "u32 \<Rightarrow> u32 \<Rightarrow> nat" where
  "IS_TIME_BIT_SET x y = (if x AND y \<noteq> 0 then 1 else 0)"

definition RRIP_TF_TIME_LENGTH :: "u8 list \<Rightarrow> nat \<Rightarrow> nat option" where
  "RRIP_TF_TIME_LENGTH m x = map_option (\<lambda>f. if IS_TIME_BIT_SET (ucast f) (RRIP_TF_BIT Stamp_long) \<noteq> 0
     then ISO_DATE_LEN else ISO_SHORT_DATE_LEN) (RRIP_TF_FLAGS m x)"

definition RRIP_tf_creation :: "nat \<Rightarrow> nat" where "RRIP_tf_creation x = x + RRIP_TIME_START_BP"

definition RRIP_tf_modify :: "u8 list \<Rightarrow> nat \<Rightarrow> nat option" where
  "RRIP_tf_modify m x = Option.bind (RRIP_TF_TIME_LENGTH m x) (\<lambda>l. Option.bind (RRIP_TF_FLAGS m x) (\<lambda>f.
     Some (x + (RRIP_TIME_START_BP + l *
       (IS_TIME_BIT_SET (ucast f) (RRIP_TF_BIT Stamp_creation))))))"

definition RRIP_tf_access :: "u8 list \<Rightarrow> nat \<Rightarrow> nat option" where
  "RRIP_tf_access m x = Option.bind (RRIP_TF_TIME_LENGTH m x) (\<lambda>l. Option.bind (RRIP_TF_FLAGS m x) (\<lambda>f.
     Some (x + (RRIP_TIME_START_BP + l *
       (IS_TIME_BIT_SET (ucast f) (RRIP_TF_BIT Stamp_creation) + IS_TIME_BIT_SET (ucast f) (RRIP_TF_BIT Stamp_modify))))))"

definition RRIP_tf_attributes :: "u8 list \<Rightarrow> nat \<Rightarrow> nat option" where
  "RRIP_tf_attributes m x = Option.bind (RRIP_TF_TIME_LENGTH m x) (\<lambda>l. Option.bind (RRIP_TF_FLAGS m x) (\<lambda>f.
     Some (x + (RRIP_TIME_START_BP + l *
       (IS_TIME_BIT_SET (ucast f) (RRIP_TF_BIT Stamp_creation) + IS_TIME_BIT_SET (ucast f) (RRIP_TF_BIT Stamp_modify) + IS_TIME_BIT_SET (ucast f) (RRIP_TF_BIT Stamp_access))))))"

definition SET_TIME_BIT :: "u32 \<Rightarrow> u32 \<Rightarrow> u32" where "SET_TIME_BIT x y = x OR y"

text \<open>Attributes and device numbers.\<close>

datatype px_field =
    RRIP_mode | RRIP_nlink | RRIP_uid | RRIP_gid

fun PX_field :: "px_field \<Rightarrow> nat \<Rightarrow> nat" where
  "PX_field RRIP_mode x = x + 4"
| "PX_field RRIP_nlink x = x + 12"
| "PX_field RRIP_uid x = x + 20"
| "PX_field RRIP_gid x = x + 28"

fun PX_value :: "px_field \<Rightarrow> u8 list \<Rightarrow> nat \<Rightarrow> hs_value" where
  "PX_value RRIP_mode m x = Unsigned (map_option word_of_int (BOTH_INT m (PX_field RRIP_mode x)))"
| "PX_value RRIP_nlink m x = Number (map_option (\<lambda>i. sint (word_of_int i :: u16)) (BOTH_INT m (PX_field RRIP_nlink x)))"
| "PX_value RRIP_uid m x = Number (BOTH_INT m (PX_field RRIP_uid x))"
| "PX_value RRIP_gid m x = Number (BOTH_INT m (PX_field RRIP_gid x))"

datatype pn_field =
    RRIP_major | RRIP_minor

fun PN_field :: "pn_field \<Rightarrow> nat \<Rightarrow> nat" where
  "PN_field RRIP_major x = x + 4"
| "PN_field RRIP_minor x = x + 12"

fun PN_value :: "pn_field \<Rightarrow> u8 list \<Rightarrow> nat \<Rightarrow> hs_value" where
  "PN_value RRIP_major m x = Number (BOTH_INT m (PN_field RRIP_major x))"
| "PN_value RRIP_minor m x = Number (BOTH_INT m (PN_field RRIP_minor x))"

text \<open>Names and symbolic links.\<close>

definition SYM_LINK_LEN :: "u8 list \<Rightarrow> nat \<Rightarrow> nat option" where
  "SYM_LINK_LEN m x = map_option (\<lambda>n. n + 1) (strlen m x)"

definition RRIP_NAME_LEN_BASE :: nat where "RRIP_NAME_LEN_BASE = 5"

definition RRIP_NAME_LEN :: "u8 list \<Rightarrow> nat \<Rightarrow> int option" where
  "RRIP_NAME_LEN m x = map_option (\<lambda>l. uint l - int RRIP_NAME_LEN_BASE) (byte_of (SUF_value SUF_len m x))"

definition RRIP_NAME_FLAGS :: "u8 list \<Rightarrow> nat \<Rightarrow> u8 option" where
  "RRIP_NAME_FLAGS m x = mem_get m (x + 4)"

datatype rrip_name_flag =
    Name_continue | Name_current | Name_parent | Name_root | Name_volroot | Name_host

fun RRIP_NAME_flag :: "rrip_name_flag \<Rightarrow> u32" where
  "RRIP_NAME_flag Name_continue = 0x01"
| "RRIP_NAME_flag Name_current = 0x02"
| "RRIP_NAME_flag Name_parent = 0x04"
| "RRIP_NAME_flag Name_root = 0x08"
| "RRIP_NAME_flag Name_volroot = 0x10"
| "RRIP_NAME_flag Name_host = 0x20"

definition RRIP_NAME_CHANGE :: u32 where "RRIP_NAME_CHANGE = 0x40"

definition RRIP_SYM_LINK_COMPLETE :: u32 where "RRIP_SYM_LINK_COMPLETE = 0x80"

definition SET_NAME_BIT :: "u32 \<Rightarrow> u32 \<Rightarrow> u32" where "SET_NAME_BIT x y = x OR y"

definition UNSET_NAME_BIT :: "u32 \<Rightarrow> u32 \<Rightarrow> u32" where "UNSET_NAME_BIT x y = x AND NOT y"

definition IS_NAME_BIT_SET :: "u32 \<Rightarrow> u32 \<Rightarrow> u32" where "IS_NAME_BIT_SET x y = x AND y"

definition NAME_HAS_CHANGED :: "u32 \<Rightarrow> nat" where
  "NAME_HAS_CHANGED flag = (if IS_NAME_BIT_SET flag RRIP_NAME_CHANGE \<noteq> 0 then 1 else 0)"

definition RRIP_name :: "nat \<Rightarrow> nat" where "RRIP_name x = x + 5"

definition RRIP_NAME :: "nat \<Rightarrow> nat" where "RRIP_NAME x = RRIP_name x"

definition RRIP_sl_comp :: "nat \<Rightarrow> nat" where "RRIP_sl_comp x = x + 5"

definition RRIP_SL_COMP :: "nat \<Rightarrow> nat" where "RRIP_SL_COMP x = RRIP_sl_comp x"

definition RRIP_SL_FLAGS :: "u8 list \<Rightarrow> nat \<Rightarrow> u8 option" where
  "RRIP_SL_FLAGS m x = mem_get m (x + 4)"

definition RRIP_comp :: "nat \<Rightarrow> nat" where "RRIP_comp x = x + 2"

definition RRIP_COMP :: "nat \<Rightarrow> nat" where "RRIP_COMP x = RRIP_comp x"

definition RRIP_COMP_FLAGS :: "u8 list \<Rightarrow> nat \<Rightarrow> u8 option" where
  "RRIP_COMP_FLAGS m x = mem_get m (x + 0)"

definition RRIP_COMP_NAME_LEN :: "u8 list \<Rightarrow> nat \<Rightarrow> u8 option" where
  "RRIP_COMP_NAME_LEN m x = mem_get m (x + 1)"

definition RRIP_COMP_LEN :: "u8 list \<Rightarrow> nat \<Rightarrow> nat option" where
  "RRIP_COMP_LEN m x = map_option (\<lambda>n. unat n + 2) (RRIP_COMP_NAME_LEN m x)"

text \<open>Relocated directories.\<close>

definition IS_RELOC_BIT_SET :: "u32 \<Rightarrow> u32 \<Rightarrow> nat" where
  "IS_RELOC_BIT_SET x y = (if x AND y \<noteq> 0 then 1 else 0)"

definition SET_RELOC_BIT :: "u32 \<Rightarrow> u32 \<Rightarrow> u32" where "SET_RELOC_BIT x y = x OR y"

datatype reloc_bit =
    Child_link | Parent_link | Relocated_dir

fun RELOC_bit :: "reloc_bit \<Rightarrow> u32" where
  "RELOC_bit Child_link = 0x01"
| "RELOC_bit Parent_link = 0x02"
| "RELOC_bit Relocated_dir = 0x04"

datatype link_field =
    RRIP_child_lbn | RRIP_parent_lbn

fun LINK_field :: "link_field \<Rightarrow> nat \<Rightarrow> nat" where
  "LINK_field RRIP_child_lbn x = x + 4"
| "LINK_field RRIP_parent_lbn x = x + 4"

fun LINK_value :: "link_field \<Rightarrow> u8 list \<Rightarrow> nat \<Rightarrow> hs_value" where
  "LINK_value RRIP_child_lbn m x = Unsigned (map_option word_of_int (BOTH_INT m (LINK_field RRIP_child_lbn x)))"
| "LINK_value RRIP_parent_lbn m x = Unsigned (map_option word_of_int (BOTH_INT m (LINK_field RRIP_parent_lbn x)))"

section \<open>The bits of the extensions\<close>

text \<open>The word of the file system is a set of 32 numbers.\<close>

interpretation impl_map: bitset "\<lambda>_. 32" "\<lambda>fsp y. map_option (\<lambda>b. b \<noteq> 0) (IS_IMPL_BIT_SET fsp y)" SET_IMPL_BIT UNSET_IMPL_BIT
proof unfold_locales
  have one: "w AND 2 ^ j = 0 \<longleftrightarrow> \<not> bit w j" for w :: u32 and j
    using bit_iff_and_push_bit_not_eq_0 [of w j] by simp
  show "\<exists>m'. SET_IMPL_BIT m i = Some m' \<and> 32 = 32 \<and> (\<forall>j. map_option (\<lambda>b. b \<noteq> 0) (IS_IMPL_BIT_SET m' j) =
      (if j = i then Some True else map_option (\<lambda>b. b \<noteq> 0) (IS_IMPL_BIT_SET m j)))" if "i < 32" for i m
    using that by (auto simp: SET_IMPL_BIT_def IS_IMPL_BIT_SET_def one bit_or_iff bit_exp_iff)
  show "\<exists>m'. UNSET_IMPL_BIT m i = Some m' \<and> 32 = 32 \<and> (\<forall>j. map_option (\<lambda>b. b \<noteq> 0) (IS_IMPL_BIT_SET m' j) =
      (if j = i then Some False else map_option (\<lambda>b. b \<noteq> 0) (IS_IMPL_BIT_SET m j)))" if "i < 32" for i m
    using that by (auto simp: UNSET_IMPL_BIT_def IS_IMPL_BIT_SET_def one bit_and_iff bit_not_iff bit_exp_iff)
qed (auto simp: SET_IMPL_BIT_def UNSET_IMPL_BIT_def IS_IMPL_BIT_SET_def)

section \<open>Time stamps\<close>

text \<open>The number of stamps recorded before stamp \<open>k\<close>, and where the macros look for it.\<close>

definition stamps_before :: "u8 \<Rightarrow> nat \<Rightarrow> nat" where
  "stamps_before f k = length (filter (bit f) [0..<k])"

definition stamp_length :: "u8 \<Rightarrow> nat" where
  "stamp_length f = (if bit f 7 then ISO_DATE_LEN else ISO_SHORT_DATE_LEN)"

definition stamp_address :: "u8 list \<Rightarrow> nat \<Rightarrow> nat \<Rightarrow> nat option" where
  "stamp_address m x k = [Some (RRIP_tf_creation x), RRIP_tf_modify m x, RRIP_tf_access m x, RRIP_tf_attributes m x] ! k"

declare RRIP_TF_BIT.simps [simp del]

lemma time_bits:
  "IS_TIME_BIT_SET (ucast (f :: u8)) (RRIP_TF_BIT Stamp_creation) = of_bool (bit f 0)"
  "IS_TIME_BIT_SET (ucast f) (RRIP_TF_BIT Stamp_modify) = of_bool (bit f 1)"
  "IS_TIME_BIT_SET (ucast f) (RRIP_TF_BIT Stamp_access) = of_bool (bit f 2)"
  "IS_TIME_BIT_SET (ucast f) (RRIP_TF_BIT Stamp_long) = of_bool (bit f 7)"
proof -
  have one: "(ucast f :: u32) AND 2 ^ k = 0 \<longleftrightarrow> \<not> bit f k" if "k < 8" for k
    using bit_iff_and_push_bit_not_eq_0 [of "ucast f :: u32" k] that by (simp add: bit_simps)
  show "IS_TIME_BIT_SET (ucast f) (RRIP_TF_BIT Stamp_creation) = of_bool (bit f 0)"
    "IS_TIME_BIT_SET (ucast f) (RRIP_TF_BIT Stamp_modify) = of_bool (bit f 1)"
    "IS_TIME_BIT_SET (ucast f) (RRIP_TF_BIT Stamp_access) = of_bool (bit f 2)"
    "IS_TIME_BIT_SET (ucast f) (RRIP_TF_BIT Stamp_long) = of_bool (bit f 7)"
    using one [of 0] one [of 1] one [of 2] one [of 7]
    by (simp_all add: IS_TIME_BIT_SET_def RRIP_TF_BIT.simps)
qed

lemma stamp_address:
  assumes "mem_get m (x + 4) = Some f" "k < 4"
  shows "stamp_address m x k = Some (x + 5 + stamp_length f * stamps_before f k)"
proof -
  have f: "RRIP_TF_FLAGS m x = Some f" using assms(1) by (simp add: RRIP_TF_FLAGS_def RRIP_tf_flags_def)
  have l: "RRIP_TF_TIME_LENGTH m x = Some (stamp_length f)"
    by (simp add: RRIP_TF_TIME_LENGTH_def f time_bits stamp_length_def)
  have "[0..<0] = ([] :: nat list)" "[0..<Suc 0] = [0]" "[0..<2] = [0, 1]" "[0..<3] = [0, 1, 2 :: nat]" by (simp_all add: upt_rec)
  note rank = this
  consider "k = 0" | "k = 1" | "k = 2" | "k = 3" using assms(2) by linarith
  then show ?thesis
    by cases (simp_all add: stamp_address_def stamps_before_def rank RRIP_tf_creation_def RRIP_tf_modify_def RRIP_tf_access_def
        RRIP_tf_attributes_def RRIP_TIME_START_BP_def f l time_bits del: upt_Suc)
qed

lemma recorded_concat:
  assumes "recorded m x (concat ss)" "\<And>s. s \<in> set ss \<Longrightarrow> length s = n" "i < length ss"
  shows "recorded m (x + n * i) (ss ! i)"
  using assms
proof (induction ss arbitrary: x i)
  case (Cons s ss)
  then have parts: "recorded m x s" "recorded m (x + n) (concat ss)" by (auto simp: recorded_append)
  show ?case
  proof (cases i)
    case (Suc j)
    then show ?thesis using Cons.IH [OF parts(2), of j] Cons.prems by (simp add: add.assoc)
  qed (simp add: parts)
qed simp

section \<open>Fields as the protocol writes them\<close>

definition sig_bytes :: "string \<Rightarrow> u8 list" where "sig_bytes s = map of_char s"

definition put_suf :: "string \<Rightarrow> u8 list \<Rightarrow> u8 list" where
  "put_suf sig body = sig_bytes sig @ [of_nat (length body + 4), 1] @ body"

definition put_er :: "u8 list \<Rightarrow> u8 list \<Rightarrow> u8 list \<Rightarrow> u8 list" where
  "put_er eid des src = put_suf (SUSP_sig Sig_ER) ([of_nat (length eid), of_nat (length des), of_nat (length src), 1] @ eid @ des @ src)"

definition put_component :: "u8 \<times> u8 list \<Rightarrow> u8 list" where
  "put_component c = [fst c, of_nat (length (snd c))] @ snd c"

lemma sig_length [simp]: "length (sig_bytes s) = length s"
  by (simp add: sig_bytes_def)

lemma suf_parts:
  assumes "recorded m x (put_suf sig body)" "length sig = 2"
  shows "mem_get m (x + 2) = Some (of_nat (length body + 4))" "recorded m (x + 4) body"
  using assms(1) by (simp_all only: put_suf_def recorded_parts sig_length assms(2))

lemma er_parts:
  assumes "recorded m x (put_er eid des src)"
  shows "byte_of (ER_value ER_id_len m x) = Some (of_nat (length eid))" "byte_of (ER_value ER_des_len m x) = Some (of_nat (length des))"
    "byte_of (SUF_value SUF_len m x) = Some (of_nat (8 + length eid + length des + length src))" "recorded m (x + 8) eid"
    "recorded m (x + 8 + length eid) des" "recorded m (x + 8 + length eid + length des) src"
proof -
  have er: "length (SUSP_sig Sig_ER) = 2" by (simp add: SUSP_sig.simps)
  have body: "mem_get m (x + 4) = Some (of_nat (length eid))" "mem_get m (x + 5) = Some (of_nat (length des))"
    "recorded m (x + 8) eid" "recorded m (x + 8 + length eid) des" "recorded m (x + 8 + length eid + length des) src"
    using suf_parts(2) [OF assms [unfolded put_er_def] er] by (simp_all only: recorded_parts)
  then show "byte_of (ER_value ER_id_len m x) = Some (of_nat (length eid))" "byte_of (ER_value ER_des_len m x) = Some (of_nat (length des))"
    "recorded m (x + 8) eid" "recorded m (x + 8 + length eid) des" "recorded m (x + 8 + length eid + length des) src"
    by simp_all
  show "byte_of (SUF_value SUF_len m x) = Some (of_nat (8 + length eid + length des + length src))"
    using suf_parts(1) [OF assms [unfolded put_er_def] er] by (simp add: algebra_simps)
qed

section \<open>Properties\<close>

text \<open>C27: the time stamps of a file. In a field whose flags \<open>f\<close> announce the stamps \<open>ts\<close>, all of the length the flags announce,
  the macros find each of the first four kinds: stamp number \<open>k\<close> is the one after the stamps of the smaller kinds that are present.\<close>

theorem time_stamps_found:
  assumes "recorded m x (put_suf (RRIP_sig Rrip_TF) (f # concat ts))" "\<forall>t \<in> set ts. length t = stamp_length f"
    "length ts = stamps_before f 7" "k < 4" "bit f k"
  shows "\<exists>a. stamp_address m x k = Some a \<and> recorded m a (ts ! stamps_before f k)"
proof -
  have field: "mem_get m (x + 4) = Some f" "recorded m (x + 5) (concat ts)"
    using suf_parts(2) [OF assms(1)] by (simp_all add: recorded_Cons RRIP_sig.simps add.commute [of x])
  have "[0..<7] = [0..<k] @ k # [Suc k..<7]" using assms(4) upt_join [of 0 k 7] by (simp add: upt_conv_Cons)
  then have "stamps_before f k < length ts" using assms(3,5) by (simp add: stamps_before_def)
  then have "recorded m (x + 5 + stamp_length f * stamps_before f k) (ts ! stamps_before f k)"
    using recorded_concat [OF field(2)] assms(2) by blast
  then show ?thesis using stamp_address [OF field(1) assms(4)] by blast
qed

theorem time_stamps_found_witness:
  "\<exists>a. stamp_address (put_suf (RRIP_sig Rrip_TF) (5 # concat [replicate 7 1, replicate 7 2])) 0 2 = Some a \<and>
     recorded (put_suf (RRIP_sig Rrip_TF) (5 # concat [replicate 7 1, replicate 7 2])) a (replicate 7 2)"
proof -
  have bits: "bit (5 :: u8) 0" "\<not> bit (5 :: u8) 1" "bit (5 :: u8) 2" "stamp_length 5 = 7"
    by (simp_all add: bit_iff_odd_drop_bit stamp_length_def ISO_SHORT_DATE_LEN_def)
  have "stamps_before 5 2 = 1" "stamps_before 5 7 = 2" by (simp_all add: stamps_before_def upt_rec bit_iff_odd_drop_bit)
  then show ?thesis
    using time_stamps_found [of "put_suf (RRIP_sig Rrip_TF) (5 # concat [replicate 7 1, replicate 7 2])" 0 5 "[replicate 7 1, replicate 7 2]" 2]
    by (simp add: bits recorded_def del: concat.simps)
qed

text \<open>The strings of the extensions. The three texts of an extension reference are found one after another at the lengths its
  header gives, the lengths of the Rock Ridge texts fit their bytes, and stepping by \<^verbatim>\<open>RRIP_COMP_LEN\<close> goes from one component
  of a symbolic link to the next.\<close>

theorem extension_strings_found:
  assumes "recorded m x (put_er eid des src)" "length eid + length des + length src \<le> 247"
    "recorded m y (put_component c @ rest)" "length (snd c) \<le> 248"
  shows "recorded m (ER_ext_id x) eid \<and> (\<exists>a. ER_ext_des m x = Some a \<and> recorded m a des) \<and>
    (\<exists>a. ER_ext_src m x = Some a \<and> recorded m a src \<and> map_option unat (byte_of (SUF_value SUF_len m x)) = Some (a + length src - x)) \<and>
    length RRIP_ER_EXT_ID + length RRIP_ER_EXT_DES + length RRIP_ER_EXT_SRC \<le> 247 \<and>
    RRIP_COMP_FLAGS m y = Some (fst c) \<and> recorded m (RRIP_COMP y) (snd c) \<and>
    (\<exists>n. RRIP_COMP_LEN m y = Some n \<and> recorded m (y + n) rest)"
proof -
  note er = er_parts [OF assms(1)]
  have small: "unat (of_nat (length eid) :: u8) = length eid" "unat (of_nat (length des) :: u8) = length des"
    "unat (of_nat (8 + length eid + length des + length src) :: u8) = 8 + length eid + length des + length src"
    "unat (of_nat (length (snd c)) :: u8) = length (snd c)"
    using assms(2,4) by (intro byte_of_nat [THEN conjunct1]; simp)+
  have "ER_ext_des m x = Some (x + 8 + length eid)" "ER_ext_src m x = Some (x + 8 + length eid + length des)"
    by (simp_all only: ER_ext_des_def ER_ext_src_def er(1,2) option.map Option.bind.bind_lunit small ER_EXT_ID_LOC_def add.assoc)
  moreover have "map_option unat (byte_of (SUF_value SUF_len m x)) = Some (x + 8 + length eid + length des + length src - x)"
    unfolding er(3) option.map small by simp
  moreover have "recorded m (ER_ext_id x) eid" using er(4) by (simp add: ER_ext_id_def ER_EXT_ID_LOC_def)
  moreover have "length RRIP_ER_EXT_ID + length RRIP_ER_EXT_DES + length RRIP_ER_EXT_SRC \<le> 247"
    by (simp add: RRIP_ER_EXT_ID_def RRIP_ER_EXT_DES_def RRIP_ER_EXT_SRC_def)
  moreover have c: "mem_get m y = Some (fst c)" "mem_get m (y + 1) = Some (of_nat (length (snd c)))" "recorded m (y + 2) (snd c)"
    "recorded m (y + 2 + length (snd c)) rest"
    using assms(3) by (simp_all only: put_component_def append_assoc recorded_parts)
  moreover have "RRIP_COMP_FLAGS m y = Some (fst c)" "recorded m (RRIP_COMP y) (snd c)" "RRIP_COMP_LEN m y = Some (2 + length (snd c))"
    using c small(4) by (simp_all add: RRIP_COMP_FLAGS_def RRIP_COMP_def RRIP_comp_def RRIP_COMP_LEN_def RRIP_COMP_NAME_LEN_def)
  ultimately show ?thesis using er(5,6) by (simp add: add.assoc)
qed

theorem extension_strings_found_witness:
  "\<exists>a. ER_ext_src (put_er [65] [66, 67] [68]) 0 = Some a \<and> recorded (put_er [65] [66, 67] [68]) a [68]"
  using extension_strings_found [of "put_er [65] [66, 67] [68]" 0 "[65]" "[66, 67]" "[68]" 5 "(2, [1])" "[65]"]
  by (auto simp: recorded_def put_er_def put_suf_def put_component_def SUSP_sig.simps sig_bytes_def)

end
