(* ===== verification/Elf.thy ===== *)
theory Elf
  imports Layout
begin

unbundle bit_operations_syntax

text \<open>
  Object files (\<^verbatim>\<open>sys/elf.h\<close> and \<^verbatim>\<open>sys/elftypes.h\<close>): the structures of a file of each class as layouts, and the macros that
  pack and unpack the information words of symbols, relocations and move entries. The scalar types depend on whether
  the compiler defines \<^verbatim>\<open>_LP64\<close>; the variant \<^verbatim>\<open>_I32LPx\<close>, with the same sizes, is left out.
\<close>

section \<open>Scalar types\<close>

definition LP64 :: "abi \<Rightarrow> bool" where "LP64 A \<longleftrightarrow> long_size A = 8"

datatype elf32_type = Addr32 | Half32 | Off32 | Sword32 | Word32 | Lword32

datatype elf64_type = Addr64 | Half64 | Off64 | Sword64 | Sxword64 | Word64 | Xword64 | Lword64

fun Elf32 :: "elf32_type \<Rightarrow> abi \<Rightarrow> ctype" where
  "Elf32 Addr32 A = (if LP64 A then CInt else CLong)"
| "Elf32 Half32 A = CShort"
| "Elf32 Off32 A = (if LP64 A then CInt else CLong)"
| "Elf32 Sword32 A = (if LP64 A then CInt else CLong)"
| "Elf32 Word32 A = (if LP64 A then CInt else CLong)"
| "Elf32 Lword32 A = (if LP64 A then CLong else CLongLong)"

fun Elf64 :: "elf64_type \<Rightarrow> abi \<Rightarrow> ctype" where
  "Elf64 Addr64 A = (if LP64 A then CLong else CLongLong)"
| "Elf64 Half64 A = CShort"
| "Elf64 Off64 A = (if LP64 A then CLong else CLongLong)"
| "Elf64 Sword64 A = CInt"
| "Elf64 Sxword64 A = (if LP64 A then CLong else CLongLong)"
| "Elf64 Word64 A = CInt"
| "Elf64 Xword64 A = (if LP64 A then CLong else CLongLong)"
| "Elf64 Lword64 A = (if LP64 A then CLong else CLongLong)"

text \<open>The sizes the header gives for them.\<close>

fun ELF32_FSZ :: "elf32_type \<Rightarrow> nat option" where
  "ELF32_FSZ Addr32 = Some 4"
| "ELF32_FSZ Half32 = Some 2"
| "ELF32_FSZ Off32 = Some 4"
| "ELF32_FSZ Sword32 = Some 4"
| "ELF32_FSZ Word32 = Some 4"
| "ELF32_FSZ _ = None"

fun ELF64_FSZ :: "elf64_type \<Rightarrow> nat option" where
  "ELF64_FSZ Addr64 = Some 8"
| "ELF64_FSZ Half64 = Some 2"
| "ELF64_FSZ Off64 = Some 8"
| "ELF64_FSZ Sword64 = Some 4"
| "ELF64_FSZ Word64 = Some 4"
| "ELF64_FSZ Sxword64 = Some 8"
| "ELF64_FSZ Xword64 = Some 8"
| "ELF64_FSZ _ = None"

section \<open>Structures\<close>

definition EI_NIDENT :: nat where "EI_NIDENT = 16"

text \<open>The header of a file.\<close>

definition Elf32_Ehdr :: "abi \<Rightarrow> ctype" where
  "Elf32_Ehdr A = Struct [
     (''e_ident'', Array EI_NIDENT CChar), (''e_type'', Elf32 Half32 A), (''e_machine'', Elf32 Half32 A),
     (''e_version'', Elf32 Word32 A), (''e_entry'', Elf32 Addr32 A), (''e_phoff'', Elf32 Off32 A),
     (''e_shoff'', Elf32 Off32 A), (''e_flags'', Elf32 Word32 A), (''e_ehsize'', Elf32 Half32 A),
     (''e_phentsize'', Elf32 Half32 A), (''e_phnum'', Elf32 Half32 A), (''e_shentsize'', Elf32 Half32 A),
     (''e_shnum'', Elf32 Half32 A), (''e_shstrndx'', Elf32 Half32 A)]"

definition Elf64_Ehdr :: "abi \<Rightarrow> ctype" where
  "Elf64_Ehdr A = Struct [
     (''e_ident'', Array EI_NIDENT CChar), (''e_type'', Elf64 Half64 A), (''e_machine'', Elf64 Half64 A),
     (''e_version'', Elf64 Word64 A), (''e_entry'', Elf64 Addr64 A), (''e_phoff'', Elf64 Off64 A),
     (''e_shoff'', Elf64 Off64 A), (''e_flags'', Elf64 Word64 A), (''e_ehsize'', Elf64 Half64 A),
     (''e_phentsize'', Elf64 Half64 A), (''e_phnum'', Elf64 Half64 A), (''e_shentsize'', Elf64 Half64 A),
     (''e_shnum'', Elf64 Half64 A), (''e_shstrndx'', Elf64 Half64 A)]"

text \<open>Program headers.\<close>

definition Elf32_Phdr :: "abi \<Rightarrow> ctype" where
  "Elf32_Phdr A = Struct [
     (''p_type'', Elf32 Word32 A), (''p_offset'', Elf32 Off32 A), (''p_vaddr'', Elf32 Addr32 A),
     (''p_paddr'', Elf32 Addr32 A), (''p_filesz'', Elf32 Word32 A), (''p_memsz'', Elf32 Word32 A),
     (''p_flags'', Elf32 Word32 A), (''p_align'', Elf32 Word32 A)]"

definition Elf64_Phdr :: "abi \<Rightarrow> ctype" where
  "Elf64_Phdr A = Struct [
     (''p_type'', Elf64 Word64 A), (''p_flags'', Elf64 Word64 A), (''p_offset'', Elf64 Off64 A),
     (''p_vaddr'', Elf64 Addr64 A), (''p_paddr'', Elf64 Addr64 A), (''p_filesz'', Elf64 Xword64 A),
     (''p_memsz'', Elf64 Xword64 A), (''p_align'', Elf64 Xword64 A)]"

text \<open>Section headers.\<close>

definition Elf32_Shdr :: "abi \<Rightarrow> ctype" where
  "Elf32_Shdr A = Struct [
     (''sh_name'', Elf32 Word32 A), (''sh_type'', Elf32 Word32 A), (''sh_flags'', Elf32 Word32 A),
     (''sh_addr'', Elf32 Addr32 A), (''sh_offset'', Elf32 Off32 A), (''sh_size'', Elf32 Word32 A),
     (''sh_link'', Elf32 Word32 A), (''sh_info'', Elf32 Word32 A), (''sh_addralign'', Elf32 Word32 A),
     (''sh_entsize'', Elf32 Word32 A)]"

definition Elf64_Shdr :: "abi \<Rightarrow> ctype" where
  "Elf64_Shdr A = Struct [
     (''sh_name'', Elf64 Word64 A), (''sh_type'', Elf64 Word64 A), (''sh_flags'', Elf64 Xword64 A),
     (''sh_addr'', Elf64 Addr64 A), (''sh_offset'', Elf64 Off64 A), (''sh_size'', Elf64 Xword64 A),
     (''sh_link'', Elf64 Word64 A), (''sh_info'', Elf64 Word64 A), (''sh_addralign'', Elf64 Xword64 A),
     (''sh_entsize'', Elf64 Xword64 A)]"

text \<open>Symbols.\<close>

definition Elf32_Sym :: "abi \<Rightarrow> ctype" where
  "Elf32_Sym A = Struct [
     (''st_name'', Elf32 Word32 A), (''st_value'', Elf32 Addr32 A), (''st_size'', Elf32 Word32 A),
     (''st_info'', CChar), (''st_other'', CChar), (''st_shndx'', Elf32 Half32 A)]"

definition Elf64_Sym :: "abi \<Rightarrow> ctype" where
  "Elf64_Sym A = Struct [
     (''st_name'', Elf64 Word64 A), (''st_info'', CChar), (''st_other'', CChar), (''st_shndx'', Elf64 Half64 A),
     (''st_value'', Elf64 Addr64 A), (''st_size'', Elf64 Xword64 A)]"

text \<open>Relocations.\<close>

definition Elf32_Rel :: "abi \<Rightarrow> ctype" where
  "Elf32_Rel A = Struct [
     (''r_offset'', Elf32 Addr32 A), (''r_info'', Elf32 Word32 A)]"

definition Elf32_Rela :: "abi \<Rightarrow> ctype" where
  "Elf32_Rela A = Struct [
     (''r_offset'', Elf32 Addr32 A), (''r_info'', Elf32 Word32 A), (''r_addend'', Elf32 Sword32 A)]"

definition Elf64_Rel :: "abi \<Rightarrow> ctype" where
  "Elf64_Rel A = Struct [
     (''r_offset'', Elf64 Addr64 A), (''r_info'', Elf64 Xword64 A)]"

definition Elf64_Rela :: "abi \<Rightarrow> ctype" where
  "Elf64_Rela A = Struct [
     (''r_offset'', Elf64 Addr64 A), (''r_info'', Elf64 Xword64 A), (''r_addend'', Elf64 Sxword64 A)]"

text \<open>Notes.\<close>

definition Elf32_Nhdr :: "abi \<Rightarrow> ctype" where
  "Elf32_Nhdr A = Struct [
     (''n_namesz'', Elf32 Word32 A), (''n_descsz'', Elf32 Word32 A), (''n_type'', Elf32 Word32 A)]"

definition Elf64_Nhdr :: "abi \<Rightarrow> ctype" where
  "Elf64_Nhdr A = Struct [
     (''n_namesz'', Elf64 Word64 A), (''n_descsz'', Elf64 Word64 A), (''n_type'', Elf64 Word64 A)]"

text \<open>Move entries.\<close>

definition Elf32_Move :: "abi \<Rightarrow> ctype" where
  "Elf32_Move A = Struct [
     (''m_value'', Elf32 Lword32 A), (''m_info'', Elf32 Word32 A), (''m_poffset'', Elf32 Word32 A),
     (''m_repeat'', Elf32 Half32 A), (''m_stride'', Elf32 Half32 A)]"

definition Elf64_Move :: "abi \<Rightarrow> ctype" where
  "Elf64_Move A = Struct [
     (''m_value'', Elf64 Lword64 A), (''m_info'', Elf64 Xword64 A), (''m_poffset'', Elf64 Xword64 A),
     (''m_repeat'', Elf64 Half64 A), (''m_stride'', Elf64 Half64 A)]"

text \<open>Capabilities.\<close>

definition Elf32_Cap :: "abi \<Rightarrow> ctype" where
  "Elf32_Cap A = Struct [
     (''c_tag'', Elf32 Word32 A), (''c_un'', Union [(''c_val'', Elf32 Word32 A), (''c_ptr'', Elf32 Addr32 A)])]"

definition Elf64_Cap :: "abi \<Rightarrow> ctype" where
  "Elf64_Cap A = Struct [
     (''c_tag'', Elf64 Xword64 A), (''c_un'', Union [(''c_val'', Elf64 Xword64 A), (''c_ptr'', Elf64 Addr64 A)])]"

section \<open>Information words\<close>

definition ELF32_ST_BIND :: "u32 \<Rightarrow> u32" where "ELF32_ST_BIND info = drop_bit 4 info"

definition ELF32_ST_TYPE :: "u32 \<Rightarrow> u32" where "ELF32_ST_TYPE info = info AND 0xf"

definition ELF32_ST_INFO :: "u32 \<Rightarrow> u32 \<Rightarrow> u32" where "ELF32_ST_INFO b t = push_bit 4 b + (t AND 0xf)"

definition ELF32_ST_VISIBILITY :: "u32 \<Rightarrow> u32" where "ELF32_ST_VISIBILITY other = other AND 0x3"

definition ELF64_ST_BIND :: "u32 \<Rightarrow> u32" where "ELF64_ST_BIND info = drop_bit 4 info"

definition ELF64_ST_TYPE :: "u32 \<Rightarrow> u32" where "ELF64_ST_TYPE info = info AND 0xf"

definition ELF64_ST_INFO :: "u32 \<Rightarrow> u32 \<Rightarrow> u32" where "ELF64_ST_INFO b t = push_bit 4 b + (t AND 0xf)"

definition ELF64_ST_VISIBILITY :: "u32 \<Rightarrow> u32" where "ELF64_ST_VISIBILITY other = other AND 0x3"

definition ELF32_R_SYM :: "u32 \<Rightarrow> u32" where "ELF32_R_SYM info = drop_bit 8 info"

definition ELF32_R_TYPE :: "u32 \<Rightarrow> u32" where "ELF32_R_TYPE info = ucast (ucast info :: u8)"

definition ELF32_R_INFO :: "u32 \<Rightarrow> u32 \<Rightarrow> u32" where
  "ELF32_R_INFO s t = push_bit 8 s + ucast (ucast t :: u8)"

definition ELF64_R_SYM :: "u64 \<Rightarrow> u64" where "ELF64_R_SYM info = drop_bit 32 info"

definition ELF64_R_TYPE :: "u64 \<Rightarrow> u32" where "ELF64_R_TYPE info = ucast info"

definition ELF64_R_INFO :: "u64 \<Rightarrow> u64 \<Rightarrow> u64" where
  "ELF64_R_INFO s t = push_bit 32 s + t"

definition ELF64_R_TYPE_DATA :: "u64 \<Rightarrow> u64" where "ELF64_R_TYPE_DATA info = drop_bit 40 (push_bit 32 info)"

definition ELF64_R_TYPE_ID :: "u64 \<Rightarrow> u64" where "ELF64_R_TYPE_ID info = drop_bit 56 (push_bit 56 info)"

definition ELF64_R_TYPE_INFO :: "u64 \<Rightarrow> u64 \<Rightarrow> u64" where
  "ELF64_R_TYPE_INFO d t = push_bit 8 d + t"

definition ELF32_M_SYM :: "u32 \<Rightarrow> u32" where "ELF32_M_SYM info = drop_bit 8 info"

definition ELF32_M_SIZE :: "u32 \<Rightarrow> u32" where "ELF32_M_SIZE info = ucast (ucast info :: u8)"

definition ELF32_M_INFO :: "u32 \<Rightarrow> u32 \<Rightarrow> u32" where
  "ELF32_M_INFO s n = push_bit 8 s + ucast (ucast n :: u8)"

definition ELF64_M_SYM :: "u64 \<Rightarrow> u64" where "ELF64_M_SYM info = drop_bit 8 info"

definition ELF64_M_SIZE :: "u64 \<Rightarrow> u64" where "ELF64_M_SIZE info = ucast (ucast info :: u8)"

text \<open>\<^verbatim>\<open>ELF64_M_INFO\<close> does not convert the symbol number, so it shifts in the width of its argument.\<close>

definition ELF64_M_INFO :: "'a::len word \<Rightarrow> 'b::len word \<Rightarrow> 'a word" where
  "ELF64_M_INFO s n = push_bit 8 s + ucast (ucast n :: u8)"

section \<open>Sizes\<close>

lemma lp64_cases [simp]: "\<not> LP64 i386" "\<not> LP64 sparc" "LP64 lp64"
  by (simp_all add: LP64_def i386_def sparc_def lp64_def)

lemma scalar_sizes:
  assumes "A = i386 \<or> A = sparc \<or> A = lp64"
  shows "ELF32_FSZ t = Some n \<Longrightarrow> size_of A (Elf32 t A) = n" "ELF64_FSZ u = Some n \<Longrightarrow> size_of A (Elf64 u A) = n"
  using assms by (cases t; elim disjE; simp add: layout_eval) (cases u; insert assms; elim disjE; simp add: layout_eval)

lemma elf32_sizes:
  assumes "A = i386 \<or> A = sparc \<or> A = lp64"
  shows "size_of A (Elf32_Ehdr A) = 52" "size_of A (Elf32_Phdr A) = 32" "size_of A (Elf32_Shdr A) = 40" "size_of A (Elf32_Sym A) = 16"
    "size_of A (Elf32_Rel A) = 8" "size_of A (Elf32_Rela A) = 12" "size_of A (Elf32_Nhdr A) = 12" "size_of A (Elf32_Cap A) = 8"
    "unpadded A (Elf32_Ehdr A)" "unpadded A (Elf32_Phdr A)" "unpadded A (Elf32_Shdr A)" "unpadded A (Elf32_Sym A)"
    "unpadded A (Elf32_Rel A)" "unpadded A (Elf32_Rela A)" "unpadded A (Elf32_Nhdr A)" "unpadded A (Elf32_Cap A)"
  using assms
  by (elim disjE; simp add: Elf32_Ehdr_def Elf32_Phdr_def Elf32_Shdr_def Elf32_Sym_def Elf32_Rel_def Elf32_Rela_def Elf32_Nhdr_def
      Elf32_Cap_def EI_NIDENT_def layout_eval)+

lemma elf64_sizes:
  assumes "A = i386 \<or> A = sparc \<or> A = lp64"
  shows "size_of A (Elf64_Ehdr A) = 64" "size_of A (Elf64_Phdr A) = 56" "size_of A (Elf64_Shdr A) = 64" "size_of A (Elf64_Sym A) = 24"
    "size_of A (Elf64_Rel A) = 16" "size_of A (Elf64_Rela A) = 24" "size_of A (Elf64_Nhdr A) = 12" "size_of A (Elf64_Cap A) = 16"
    "unpadded A (Elf64_Ehdr A)" "unpadded A (Elf64_Phdr A)" "unpadded A (Elf64_Shdr A)" "unpadded A (Elf64_Sym A)"
    "unpadded A (Elf64_Rel A)" "unpadded A (Elf64_Rela A)" "unpadded A (Elf64_Nhdr A)" "unpadded A (Elf64_Cap A)"
  using assms
  by (elim disjE; simp add: Elf64_Ehdr_def Elf64_Phdr_def Elf64_Shdr_def Elf64_Sym_def Elf64_Rel_def Elf64_Rela_def Elf64_Nhdr_def
      Elf64_Cap_def EI_NIDENT_def layout_eval)+

lemma move_sizes:
  "size_of i386 (Elf32_Move i386) = 20" "size_of sparc (Elf32_Move sparc) = 24" "size_of lp64 (Elf32_Move lp64) = 24"
  "size_of i386 (Elf64_Move i386) = 28" "size_of sparc (Elf64_Move sparc) = 32" "size_of lp64 (Elf64_Move lp64) = 32"
  by (simp_all add: Elf32_Move_def Elf64_Move_def layout_eval)

section \<open>Packing\<close>

lemma pack_or:
  fixes a b :: "'a::len word"
  assumes "\<And>n. k \<le> n \<Longrightarrow> \<not> bit b n"
  shows "push_bit k a + b = push_bit k a OR b"
  using assms by (intro disjunctive_add) (auto simp: bit_push_bit_iff not_le)

lemma unpack:
  fixes a b :: "'a::len word"
  assumes b: "\<And>n. k \<le> n \<Longrightarrow> \<not> bit b n" and a: "\<And>n. LENGTH('a) \<le> n + k \<Longrightarrow> \<not> bit a n"
  shows "drop_bit k (push_bit k a + b) = a" "take_bit k (push_bit k a + b) = b"
proof -
  have eq: "push_bit k a + b = push_bit k a OR b" using b by (rule pack_or)
  have a': "n + k < LENGTH('a)" if "bit a n" for n using a [of n] that by (cases "n + k < LENGTH('a)") auto
  show "drop_bit k (push_bit k a + b) = a"
    unfolding eq by (rule bit_eqI) (use a' b in \<open>auto simp: bit_simps ac_simps\<close>)
  show "take_bit k (push_bit k a + b) = b"
    unfolding eq by (rule bit_eqI) (use b in \<open>auto simp: bit_simps not_less\<close>)
qed

lemma repack:
  fixes i :: "'a::len word"
  shows "push_bit k (drop_bit k i) + take_bit k i = i"
  by (subst pack_or) (auto simp: bit_simps intro!: bit_eqI)

lemma low_bits:
  fixes i :: "'a::len word"
  shows "i AND 0xf = take_bit 4 i" "i AND 0x3 = take_bit 2 i"
  by (simp_all add: take_bit_eq_mask mask_eq_exp_minus_1)

lemma low_byte: "(ucast (ucast (i :: 'a::len word) :: u8) :: 'a::len word) = take_bit 8 i"
  by (auto intro!: bit_eqI simp: bit_simps)

text \<open>A word below a power of two has no higher bit.\<close>

lemma small_bits:
  fixes w :: "'a::len word"
  assumes "unat w < 2 ^ j" "j \<le> n"
  shows "\<not> bit w n"
proof
  assume "bit w n"
  then have "2 ^ n \<le> unat w" by (metis bit_unat not_le bit_iff_odd div_less even_zero)
  moreover have "(2 :: nat) ^ j \<le> 2 ^ n" using assms(2) by (rule power_increasing) simp
  ultimately show False using assms(1) by linarith
qed

lemma take_small:
  fixes w :: "'a::len word"
  assumes "unat w < 2 ^ k"
  shows "take_bit k w = w"
proof (rule bit_eqI)
  fix n
  show "bit (take_bit k w) n = bit w n" using small_bits [OF assms, of n] by (cases "n < k") (simp_all add: bit_take_bit_iff)
qed

lemma unpack_small:
  fixes a b :: "'a::len word"
  assumes "unat a < 2 ^ j" "unat b < 2 ^ k" "j + k \<le> LENGTH('a)"
  shows "drop_bit k (push_bit k a + b) = a" "take_bit k (push_bit k a + b) = b"
  by (rule unpack; use small_bits [OF assms(1)] small_bits [OF assms(2)] assms(3) in force)+

lemma pack_small:
  fixes a b :: "'a::len word"
  assumes "unat a < 2 ^ j" "unat b < 2 ^ k" "j + k \<le> n"
  shows "take_bit n (push_bit k a + b) = push_bit k a + b"
proof -
  have eq: "push_bit k a + b = push_bit k a OR b" using small_bits [OF assms(2)] by (rule pack_or)
  have "m < n" if "bit (push_bit k a OR b) m" for m
  proof (rule ccontr)
    assume "\<not> m < n"
    then have "j \<le> m - k" "k \<le> m" using assms(3) by auto
    then show False using that small_bits [OF assms(1), of "m - k"] small_bits [OF assms(2), of m] by (auto simp: bit_simps)
  qed
  then show ?thesis unfolding eq by (intro bit_eqI) (auto simp only: bit_take_bit_iff)
qed

lemma shifted_field:
  fixes w :: u64
  shows "drop_bit 40 (push_bit 32 w) = take_bit 24 (drop_bit 8 w)" "drop_bit 56 (push_bit 56 w) = take_bit 8 w"
  by (auto intro!: bit_eqI simp: bit_simps)

lemma low_word: "(ucast (ucast (j :: u64) :: u32) :: u64) = take_bit 32 j"
  by (auto intro!: bit_eqI simp: bit_simps)

lemma st_info_roundtrip:
  assumes "unat b < 2 ^ 4" "unat t < 2 ^ 4"
  shows "ELF32_ST_BIND (ucast (ucast (ELF32_ST_INFO b t) :: u8)) = b" "ELF32_ST_TYPE (ucast (ucast (ELF32_ST_INFO b t) :: u8)) = t"
  using unpack_small [OF assms] pack_small [OF assms, of 8]
  by (simp_all add: ELF32_ST_BIND_def ELF32_ST_TYPE_def ELF32_ST_INFO_def low_bits low_byte take_small [OF assms(2)])

lemma st_info_roundtrip64:
  assumes "unat b < 2 ^ 4" "unat t < 2 ^ 4"
  shows "ELF64_ST_BIND (ucast (ucast (ELF64_ST_INFO b t) :: u8)) = b" "ELF64_ST_TYPE (ucast (ucast (ELF64_ST_INFO b t) :: u8)) = t"
  using unpack_small [OF assms] pack_small [OF assms, of 8]
  by (simp_all add: ELF64_ST_BIND_def ELF64_ST_TYPE_def ELF64_ST_INFO_def low_bits low_byte take_small [OF assms(2)])

text \<open>A word of move information packed in 32 bits keeps 24 bits of the symbol number.\<close>

lemma m_info_narrow:
  fixes v n :: u32
  shows "ELF64_M_SYM (ucast (ELF64_M_INFO v n)) = ucast (take_bit 24 v)" "ELF64_M_SIZE (ucast (ELF64_M_INFO v n)) = ucast (take_bit 8 n)"
proof -
  have "push_bit 8 v + take_bit 8 n = push_bit 8 v OR take_bit 8 n" by (rule pack_or) (simp add: bit_simps)
  then have i: "ELF64_M_INFO v n = push_bit 8 v OR take_bit 8 n" by (simp add: ELF64_M_INFO_def low_byte)
  show "ELF64_M_SYM (ucast (ELF64_M_INFO v n)) = ucast (take_bit 24 v)"
    unfolding i ELF64_M_SYM_def by (auto intro!: bit_eqI simp: bit_simps)
  show "ELF64_M_SIZE (ucast (ELF64_M_INFO v n)) = ucast (take_bit 8 n)"
    unfolding i ELF64_M_SIZE_def low_byte by (auto intro!: bit_eqI simp: bit_simps)
qed

section \<open>Properties\<close>

text \<open>C31: the structures of a file. Those of both classes have no padding and the sizes the format prescribes, on every target, and
  the scalar types have the sizes of the header's constants. Move entries are the exception: the alignment of their 64-bit
  value makes their size depend on the target that reads them.\<close>

theorem elf_file_layouts:
  assumes "A \<in> {i386, sparc, lp64}"
  shows "map (\<lambda>c. (size_of A c, unpadded A c)) [Elf32_Ehdr A, Elf32_Phdr A, Elf32_Shdr A, Elf32_Sym A, Elf32_Rel A, Elf32_Rela A, Elf32_Nhdr A, Elf32_Cap A] =
      [(52, True), (32, True), (40, True), (16, True), (8, True), (12, True), (12, True), (8, True)] \<and>
    map (\<lambda>c. (size_of A c, unpadded A c)) [Elf64_Ehdr A, Elf64_Phdr A, Elf64_Shdr A, Elf64_Sym A, Elf64_Rel A, Elf64_Rela A, Elf64_Nhdr A, Elf64_Cap A] =
      [(64, True), (56, True), (64, True), (24, True), (16, True), (24, True), (12, True), (16, True)] \<and>
    (\<forall>t n. ELF32_FSZ t = Some n \<longrightarrow> size_of A (Elf32 t A) = n) \<and> (\<forall>t n. ELF64_FSZ t = Some n \<longrightarrow> size_of A (Elf64 t A) = n) \<and>
    (size_of A (Elf32_Move A), size_of A (Elf64_Move A)) = (if A = i386 then (20, 28) else (24, 32))"
proof -
  have A: "A = i386 \<or> A = sparc \<or> A = lp64" using assms by simp
  have "i386 \<noteq> sparc" "i386 \<noteq> lp64" by (simp_all add: i386_def sparc_def lp64_def)
  then have "(size_of A (Elf32_Move A), size_of A (Elf64_Move A)) = (if A = i386 then (20, 28) else (24, 32))"
    using A by (auto simp: move_sizes)
  moreover have "\<forall>t n. ELF32_FSZ t = Some n \<longrightarrow> size_of A (Elf32 t A) = n" "\<forall>t n. ELF64_FSZ t = Some n \<longrightarrow> size_of A (Elf64 t A) = n"
    using scalar_sizes [OF A] by blast+
  ultimately show ?thesis using elf32_sizes [OF A] elf64_sizes [OF A] by simp
qed

theorem elf_file_layouts_witness: "size_of i386 (Elf32_Move i386) = 20 \<and> size_of lp64 (Elf32_Move lp64) = 24"
proof -
  have "lp64 \<noteq> i386" by (simp add: i386_def lp64_def)
  then show ?thesis using elf_file_layouts [of i386] elf_file_layouts [of lp64] by simp
qed

text \<open>C30: packing and unpacking the information words of symbols, relocations and move entries of both classes. Parts that fit
  their fields come back, those of a symbol also through the byte that stores them, and every word is the packing of its parts.
  A 32-bit relocation or move word has 24 bits for the symbol number, a 64-bit relocation word 32 and a 64-bit move word 56; but
  \<^verbatim>\<open>ELF64_M_INFO\<close> shifts a 32-bit symbol number in 32 bits and loses all above the lowest 24.\<close>

theorem elf_info_roundtrip:
  fixes v :: u32
  assumes "unat b < 2 ^ 4" "unat t < 2 ^ 4" "unat s < 2 ^ 24" "unat r < 2 ^ 8" "unat x < 2 ^ 32" "unat y < 2 ^ 32"
    "unat d < 2 ^ 24" "unat e < 2 ^ 8" "unat (z :: u64) < 2 ^ 56"
  shows "ELF32_ST_BIND (ucast (ucast (ELF32_ST_INFO b t) :: u8)) = b \<and> ELF32_ST_TYPE (ucast (ucast (ELF32_ST_INFO b t) :: u8)) = t \<and>
    ELF32_ST_INFO (ELF32_ST_BIND i) (ELF32_ST_TYPE i) = i \<and>
    ELF64_ST_BIND (ucast (ucast (ELF64_ST_INFO b t) :: u8)) = b \<and> ELF64_ST_TYPE (ucast (ucast (ELF64_ST_INFO b t) :: u8)) = t \<and>
    ELF64_ST_INFO (ELF64_ST_BIND i) (ELF64_ST_TYPE i) = i \<and>
    ELF32_R_SYM (ELF32_R_INFO s r) = s \<and> ELF32_R_TYPE (ELF32_R_INFO s r) = r \<and> ELF32_R_INFO (ELF32_R_SYM i) (ELF32_R_TYPE i) = i \<and>
    ELF64_R_SYM (ELF64_R_INFO x y) = x \<and> ucast (ELF64_R_TYPE (ELF64_R_INFO x y)) = y \<and>
    ELF64_R_INFO (ELF64_R_SYM j) (ucast (ELF64_R_TYPE j)) = j \<and>
    ELF64_R_TYPE_DATA (ELF64_R_TYPE_INFO d e) = d \<and> ELF64_R_TYPE_ID (ELF64_R_TYPE_INFO d e) = e \<and>
    ELF32_M_SYM (ELF32_M_INFO s r) = s \<and> ELF32_M_SIZE (ELF32_M_INFO s r) = r \<and> ELF32_M_INFO (ELF32_M_SYM i) (ELF32_M_SIZE i) = i \<and>
    ELF64_M_SYM (ELF64_M_INFO z e) = z \<and> ELF64_M_SIZE (ELF64_M_INFO z e) = e \<and> ELF64_M_INFO (ELF64_M_SYM j) (ELF64_M_SIZE j) = j \<and>
    ELF64_M_SYM (ucast (ELF64_M_INFO v r)) = ucast (take_bit 24 v) \<and> ELF64_M_SIZE (ucast (ELF64_M_INFO v r)) = ucast r"
proof (intro conjI)
  show "ELF32_ST_BIND (ucast (ucast (ELF32_ST_INFO b t) :: u8)) = b" "ELF32_ST_TYPE (ucast (ucast (ELF32_ST_INFO b t) :: u8)) = t"
    using assms(1,2) by (rule st_info_roundtrip)+
  show "ELF64_ST_BIND (ucast (ucast (ELF64_ST_INFO b t) :: u8)) = b" "ELF64_ST_TYPE (ucast (ucast (ELF64_ST_INFO b t) :: u8)) = t"
    using assms(1,2) by (rule st_info_roundtrip64)+
  show "ELF32_ST_INFO (ELF32_ST_BIND i) (ELF32_ST_TYPE i) = i" "ELF64_ST_INFO (ELF64_ST_BIND i) (ELF64_ST_TYPE i) = i"
    using repack [of 4 i] by (simp_all add: ELF32_ST_BIND_def ELF32_ST_TYPE_def ELF32_ST_INFO_def ELF64_ST_BIND_def ELF64_ST_TYPE_def
        ELF64_ST_INFO_def low_bits)
  show "ELF32_R_SYM (ELF32_R_INFO s r) = s" "ELF32_R_TYPE (ELF32_R_INFO s r) = r" "ELF32_M_SYM (ELF32_M_INFO s r) = s" "ELF32_M_SIZE (ELF32_M_INFO s r) = r"
    using unpack_small [OF assms(3,4)] by (simp_all add: ELF32_R_SYM_def ELF32_R_TYPE_def ELF32_R_INFO_def ELF32_M_SYM_def ELF32_M_SIZE_def
        ELF32_M_INFO_def low_byte take_small [OF assms(4)])
  show "ELF32_R_INFO (ELF32_R_SYM i) (ELF32_R_TYPE i) = i" "ELF32_M_INFO (ELF32_M_SYM i) (ELF32_M_SIZE i) = i"
    using repack [of 8 i] by (simp_all add: ELF32_R_SYM_def ELF32_R_TYPE_def ELF32_R_INFO_def ELF32_M_SYM_def ELF32_M_SIZE_def ELF32_M_INFO_def low_byte)
  show "ELF64_R_SYM (ELF64_R_INFO x y) = x" "ucast (ELF64_R_TYPE (ELF64_R_INFO x y)) = y"
    using unpack_small [OF assms(5,6)] by (simp_all add: ELF64_R_SYM_def ELF64_R_TYPE_def ELF64_R_INFO_def low_word)
  show "ELF64_R_INFO (ELF64_R_SYM j) (ucast (ELF64_R_TYPE j)) = j"
    using repack [of 32 j] by (simp add: ELF64_R_SYM_def ELF64_R_TYPE_def ELF64_R_INFO_def low_word)
  show "ELF64_R_TYPE_DATA (ELF64_R_TYPE_INFO d e) = d" "ELF64_R_TYPE_ID (ELF64_R_TYPE_INFO d e) = e"
    using unpack_small [OF assms(7,8)]
    by (simp_all add: ELF64_R_TYPE_DATA_def ELF64_R_TYPE_ID_def ELF64_R_TYPE_INFO_def shifted_field take_small [OF assms(7)])
  show "ELF64_M_SYM (ELF64_M_INFO z e) = z" "ELF64_M_SIZE (ELF64_M_INFO z e) = e"
    using unpack_small [OF assms(9,8)] by (simp_all add: ELF64_M_SYM_def ELF64_M_SIZE_def ELF64_M_INFO_def low_byte take_small [OF assms(8)])
  show "ELF64_M_INFO (ELF64_M_SYM j) (ELF64_M_SIZE j) = j"
    using repack [of 8 j] by (simp add: ELF64_M_SYM_def ELF64_M_SIZE_def ELF64_M_INFO_def low_byte)
  show "ELF64_M_SYM (ucast (ELF64_M_INFO v r)) = ucast (take_bit 24 v)" "ELF64_M_SIZE (ucast (ELF64_M_INFO v r)) = ucast r"
    by (simp_all add: m_info_narrow take_small [OF assms(4)])
qed

theorem elf_info_roundtrip_witness:
  "ELF32_ST_BIND (ucast (ucast (ELF32_ST_INFO 2 1) :: u8)) = 2 \<and> ELF32_R_SYM (ELF32_R_INFO 70000 9) = 70000 \<and>
   ELF64_M_SYM (ucast (ELF64_M_INFO (0x1000005 :: u32) (9 :: u32))) = 5"
  using elf_info_roundtrip [where b = 2 and t = 1 and s = 70000 and r = 9 and x = 0 and y = 0 and d = 0 and e = 0 and z = 0 and
      v = "0x1000005"] by (simp add: take_bit_eq_mod)

end
