(* ===== verification/Udf.thy ===== *)
theory Udf
  imports Layout
begin

unbundle bit_operations_syntax

text \<open>
  The UDF disc format (\<^verbatim>\<open>sys/fs/udf_volume.h\<close>): the descriptors as layouts, with the offsets that the
  comments beside their fields give, and the macros that read block addresses and compute the size of a directory
  entry, on a little-endian target, where the swap macros do nothing.
\<close>

section \<open>Structures\<close>

definition uint64_t :: "abi \<Rightarrow> ctype" where "uint64_t A = (if long_size A = 8 then CLong else CLongLong)"

text \<open>Basic structures.\<close>

definition tag :: ctype where
  "tag = Struct [
     (''tag_id'', CShort), (''tag_desc_ver'', CShort), (''tag_cksum'', CChar), (''tag_res'', CChar),
     (''tag_sno'', CShort), (''tag_crc'', CShort), (''tag_crc_len'', CShort), (''tag_loc'', CInt)]"

definition charspec :: ctype where
  "charspec = Struct [
     (''cs_type'', CChar), (''cs_info'', Array 63 CChar)]"

definition regid :: ctype where
  "regid = Struct [
     (''reg_flags'', CChar), (''reg_id'', Array 23 CChar), (''reg_ids'', Array 8 CChar)]"

definition extent_ad :: ctype where
  "extent_ad = Struct [
     (''ext_len'', CInt), (''ext_loc'', CInt)]"

definition short_ad :: ctype where
  "short_ad = Struct [
     (''sad_ext_len'', CInt), (''sad_ext_loc'', CInt)]"

definition long_ad :: ctype where
  "long_ad = Struct [
     (''lad_ext_len'', CInt), (''lad_ext_loc'', CInt), (''lad_ext_prn'', CShort), (''lad_iu'', Array 6 CChar)]"

definition tstamp :: ctype where
  "tstamp = Struct [
     (''ts_tzone'', CShort), (''ts_year'', CShort), (''ts_month'', CChar), (''ts_day'', CChar),
     (''ts_hour'', CChar), (''ts_min'', CChar), (''ts_sec'', CChar), (''ts_csec'', CChar), (''ts_husec'', CChar),
     (''ts_usec'', CChar)]"

definition icb_tag :: ctype where
  "icb_tag = Struct [
     (''itag_prnde'', CInt), (''itag_strategy'', CShort), (''itag_param'', CShort), (''itag_max_ent'', CShort),
     (''itag_rsvd'', CChar), (''itag_ftype'', CChar), (''itag_lb_loc'', CInt), (''itag_lb_prn'', CShort),
     (''itag_flags'', CShort)]"

text \<open>Volume descriptors.\<close>

definition pri_vol_desc :: ctype where
  "pri_vol_desc = Struct [
     (''pvd_tag'', tag), (''pvd_vdsn'', CInt), (''pvd_pvdn'', CInt), (''pvd_vol_id'', Array 32 CChar),
     (''pvd_vsn'', CShort), (''pvd_mvsn'', CShort), (''pvd_il'', CShort), (''pvd_mil'', CShort),
     (''pvd_csl'', CInt), (''pvd_mcsl'', CInt), (''pvd_vsi'', Array 128 CChar), (''pvd_desc_cs'', charspec),
     (''pvd_exp_cs'', charspec), (''pvd_vol_abs'', extent_ad), (''pvd_vcn'', extent_ad), (''pvd_appl_id'', regid),
     (''pvd_time'', tstamp), (''pvd_ii'', regid), (''pvd_iu'', Array 64 CChar), (''pvd_pvdsl'', CInt),
     (''pvd_flags'', CShort), (''pvd_res'', Array 22 CChar)]"

definition anch_vol_desc_ptr :: ctype where
  "anch_vol_desc_ptr = Struct [
     (''avd_tag'', tag), (''avd_main_vdse'', extent_ad), (''avd_res_vdse'', extent_ad),
     (''avd_res'', Array 480 CChar)]"

definition vol_desc_ptr :: ctype where
  "vol_desc_ptr = Struct [
     (''vdp_tag'', tag), (''vdp_vdsn'', CInt), (''vdp_nvdse'', extent_ad), (''vdp_res'', Array 484 CChar)]"

definition iuvd_desc :: ctype where
  "iuvd_desc = Struct [
     (''iuvd_tag'', tag), (''iuvd_vdsn'', CInt), (''iuvd_ii'', regid), (''iuvd_cset'', charspec),
     (''iuvd_lvi'', Array 128 CChar), (''iuvd_ifo1'', Array 36 CChar), (''iuvd_ifo2'', Array 36 CChar),
     (''iuvd_ifo3'', Array 36 CChar), (''iuvd_iid'', regid), (''iuvd_iu'', Array 128 CChar)]"

definition part_desc :: ctype where
  "part_desc = Struct [
     (''pd_tag'', tag), (''pd_vdsn'', CInt), (''pd_pflags'', CShort), (''pd_pnum'', CShort),
     (''pd_pcontents'', regid), (''pd_pc_use'', Array 128 CChar), (''pd_acc_type'', CInt),
     (''pd_part_start'', CInt), (''pd_part_length'', CInt), (''pd_ii'', regid), (''pd_iu'', Array 128 CChar),
     (''pd_res'', Array 156 CChar)]"

definition phdr_desc :: ctype where
  "phdr_desc = Struct [
     (''phdr_ust'', short_ad), (''phdr_usb'', short_ad), (''phdr_it'', short_ad), (''phdr_fst'', short_ad),
     (''phdr_fsb'', short_ad)]"

definition log_vol_desc :: ctype where
  "log_vol_desc = Struct [
     (''lvd_tag'', tag), (''lvd_vdsn'', CInt), (''lvd_desc_cs'', charspec), (''lvd_lvid'', Array 128 CChar),
     (''lvd_log_bsize'', CInt), (''lvd_dom_id'', regid), (''lvd_lvcu'', long_ad), (''lvd_mtbl_len'', CInt),
     (''lvd_num_pmaps'', CInt), (''lvd_ii'', regid), (''lvd_iu'', Array 128 CChar),
     (''lvd_int_seq_ext'', extent_ad), (''lvd_pmaps'', Array 72 CChar)]"

definition unall_spc_desc :: ctype where
  "unall_spc_desc = Struct [
     (''ua_tag'', tag), (''ua_vdsn'', CInt), (''ua_nad'', CInt), (''ua_al_dsc'', Array 488 CChar)]"

definition term_desc :: ctype where
  "term_desc = Struct [
     (''td_tag'', tag), (''td_res'', Array 496 CChar)]"

definition log_vol_hdr_desc :: "abi \<Rightarrow> ctype" where
  "log_vol_hdr_desc A = Struct [
     (''lvhd_uniqid'', uint64_t A), (''lvhd_pad'', Array 24 CChar)]"

definition log_vol_int_desc :: "abi \<Rightarrow> ctype" where
  "log_vol_int_desc A = Struct [
     (''lvid_tag'', tag), (''lvid_tstamp'', tstamp), (''lvid_int_type'', CInt), (''lvid_nie'', extent_ad),
     (''lvid_lvcu'', log_vol_hdr_desc A), (''lvid_npart'', CInt), (''lvid_liu'', CInt),
     (''lvid_fst'', Array 2 CInt)]"

definition lvid_iu :: ctype where
  "lvid_iu = Struct [
     (''lvidiu_regid'', regid), (''lvidiu_nfiles'', CInt), (''lvidiu_ndirs'', CInt), (''lvidiu_mread'', CShort),
     (''lvidiu_mwrite'', CShort), (''lvidiu_maxwr'', CShort)]"

text \<open>Files and directories.\<close>

definition file_set_desc :: ctype where
  "file_set_desc = Struct [
     (''fsd_tag'', tag), (''fsd_time'', tstamp), (''fsd_ilevel'', CShort), (''fsd_mi_level'', CShort),
     (''fsd_cs_list'', CInt), (''fsd_mcs_list'', CInt), (''fsd_fs_no'', CInt), (''fsd_fsd_no'', CInt),
     (''fsd_lvidcs'', charspec), (''fsd_lvid'', Array 128 CChar), (''fsd_fscs'', charspec),
     (''fsd_fsi'', Array 32 CChar), (''fsd_cfi'', Array 32 CChar), (''fsd_afi'', Array 32 CChar),
     (''fsd_root_icb'', long_ad), (''fsd_did'', regid), (''fsd_next'', long_ad), (''fsd_res'', Array 48 CChar)]"

definition file_id :: ctype where
  "file_id = Struct [
     (''fid_tag'', tag), (''fid_ver'', CShort), (''fid_flags'', CChar), (''fid_idlen'', CChar),
     (''fid_icb'', long_ad), (''fid_iulen'', CShort), (''fid_spec'', Array 2 CChar)]"

definition alloc_ext_desc :: ctype where
  "alloc_ext_desc = Struct [
     (''aed_tag'', tag), (''aed_rev_ael'', CInt), (''aed_len_aed'', CInt)]"

definition indirect_entry :: ctype where
  "indirect_entry = Struct [
     (''ie_tag'', tag), (''ie_icb_tag'', icb_tag), (''ie_indirecticb'', long_ad)]"

definition term_entry :: ctype where
  "term_entry = Struct [
     (''te_tag'', tag), (''te_icb_tag'', icb_tag)]"

definition file_entry :: "abi \<Rightarrow> ctype" where
  "file_entry A = Struct [
     (''fe_tag'', tag), (''fe_icb_tag'', icb_tag), (''fe_uid'', CInt), (''fe_gid'', CInt), (''fe_perms'', CInt),
     (''fe_lcount'', CShort), (''fe_rec_for'', CChar), (''fe_rec_dis'', CChar), (''fe_rec_len'', CInt),
     (''fe_info_len'', uint64_t A), (''fe_lbr'', uint64_t A), (''fe_acc_time'', tstamp),
     (''fe_mod_time'', tstamp), (''fe_attr_time'', tstamp), (''fe_ckpoint'', CInt), (''fe_ea_icb'', long_ad),
     (''fe_impl_id'', regid), (''fe_uniq_id'', uint64_t A), (''fe_len_ear'', CInt), (''fe_len_adesc'', CInt),
     (''fe_spec'', Array 336 CChar)]"

definition ext_attr_hdr :: ctype where
  "ext_attr_hdr = Struct [
     (''eah_tag'', tag), (''eah_ial'', CInt), (''eah_aal'', CInt)]"

definition unall_space_ent :: ctype where
  "unall_space_ent = Struct [
     (''use_tag'', tag), (''use_icb_tag'', icb_tag), (''use_len_ad'', CInt), (''use_ad'', Array 484 CChar)]"

definition space_bmap_desc :: ctype where
  "space_bmap_desc = Struct [
     (''sbd_tag'', tag), (''sbd_nbits'', CInt), (''sbd_nbytes'', CInt), (''sbd_bmap'', Array 500 CChar)]"

definition part_int_desc :: ctype where
  "part_int_desc = Struct [
     (''pid_tag'', tag), (''pid_idb_tag'', icb_tag), (''pid_rtime'', tstamp), (''pid_integ'', CChar),
     (''pid_res'', Array 175 CChar), (''pid_ii'', regid), (''pid_iu'', Array 256 CChar)]"

text \<open>Extended attributes.\<close>

definition attr_hdr :: ctype where
  "attr_hdr = Struct [
     (''ahdr_atype'', CInt), (''ahdr_astype'', CChar), (''ahdr_res'', Array 3 CChar), (''ahdr_length'', CInt),
     (''ahdr_data'', Array 4 CChar)]"

definition dev_spec_ear :: ctype where
  "dev_spec_ear = Struct [
     (''ds_atype'', CInt), (''ds_astype'', CChar), (''ds_res'', Array 3 CChar), (''ds_attr_len'', CInt),
     (''ds_iu_len'', CInt), (''ds_major_id'', CInt), (''ds_minor_id'', CInt), (''ds_iu'', Array 4 CChar)]"

definition ftimes_ear :: ctype where
  "ftimes_ear = Struct [
     (''ft_atype'', CInt), (''ft_astype'', CChar), (''ft_res'', Array 3 CChar), (''ft_attr_len'', CInt),
     (''ft_data_len'', CInt), (''ft_exist'', CInt), (''ft_ft'', Array 4 CChar)]"

definition iu_ea :: ctype where
  "iu_ea = Struct [
     (''iuea_atype'', CInt), (''iuea_astype'', CChar), (''iuea_res'', Array 3 CChar), (''iuea_attr_len'', CInt),
     (''iuea_iu_len'', CInt), (''iuea_ii'', regid), (''iuea_iu'', Array 4 CChar)]"

text \<open>Recognition, partition maps and sparing.\<close>

definition nsr_desc :: ctype where
  "nsr_desc = Struct [
     (''nsr_str_type'', CChar), (''nsr_id'', Array 5 CChar), (''nsr_ver'', CChar), (''nsr_res'', CChar),
     (''nsr_data'', Array 2040 CChar)]"

definition pmap_typ2 :: ctype where
  "pmap_typ2 = Struct [
     (''map2_type'', CChar), (''map2_length'', CChar), (''map2_pad1'', CShort), (''map2_pti'', regid),
     (''map2_vsn'', CShort), (''map2_pn'', CShort), (''map2_pl'', CShort), (''map2_nst'', CChar),
     (''map2_pad2'', CChar), (''map2_sest'', CInt), (''map2_st'', Array 4 CInt)]"

definition stbl_entry :: ctype where
  "stbl_entry = Struct [
     (''sent_ol'', CInt), (''sent_ml'', CInt)]"

definition stbl :: ctype where
  "stbl = Struct [
     (''stbl_tag'', tag), (''stbl_si'', regid), (''stbl_len'', CShort), (''stbl_res1'', CShort),
     (''stbl_seqno'', CInt), (''stbl_entry'', stbl_entry)]"

section \<open>Macros\<close>

text \<open>The six bytes of a block address are declared \<^verbatim>\<open>char\<close>, which is signed on this target, and are promoted before
  they are shifted.\<close>

definition lba_number :: "u8 list \<Rightarrow> u32 option" where
  "lba_number lba_aaa = Option.bind (mem_get lba_aaa 0) (\<lambda>a. Option.bind (mem_get lba_aaa 1) (\<lambda>b.
     Option.bind (mem_get lba_aaa 2) (\<lambda>c. Option.bind (mem_get lba_aaa 3) (\<lambda>d.
     Some (scast a OR push_bit 8 (scast b) OR push_bit 16 (scast c) OR push_bit 24 (scast d))))))"

definition lba_prn :: "u8 list \<Rightarrow> u32 option" where
  "lba_prn lba_aaa = Option.bind (mem_get lba_aaa 4) (\<lambda>a. Option.bind (mem_get lba_aaa 5) (\<lambda>b.
     Some (scast a OR push_bit 8 (scast b))))"

definition FID_LEN :: "u16 \<Rightarrow> u8 \<Rightarrow> u32" where
  "FID_LEN fid_iulen fid_idlen = ((of_nat (size_of i386 file_id) + ucast fid_iulen + ucast fid_idlen - 2) + 3) AND NOT 3"

definition F_LEN :: u32 where "F_LEN = of_nat (size_of i386 file_id) - 2"

section \<open>Offsets\<close>

definition field_offsets :: "abi \<Rightarrow> ctype \<Rightarrow> nat list" where
  "field_offsets A c = map (\<lambda>(f, p, s). p) (offsets A c)"

lemma abi_long [simp]: "long_size i386 = 4" "long_size sparc = 4" "long_size lp64 = 8"
  by (simp_all add: i386_def sparc_def lp64_def)

lemma scalar_lays:
  assumes "A = i386 \<or> A = sparc \<or> A = lp64"
  shows "lay A CChar = (1, 1)" "lay A CShort = (2, 2)" "lay A CInt = (4, 4)"
  using assms by (auto simp: lay_scalars)

lemma basic_lays:
  assumes "A = i386 \<or> A = sparc \<or> A = lp64"
  shows "lay A tag = (16, 4)" "lay A charspec = (64, 1)" "lay A regid = (32, 1)" "lay A extent_ad = (8, 4)" "lay A short_ad = (8, 4)"
    "lay A long_ad = (16, 4)" "lay A tstamp = (12, 2)" "lay A icb_tag = (20, 4)" "lay A stbl_entry = (8, 4)"
  using scalar_lays [OF assms] by (simp_all add: tag_def charspec_def regid_def extent_ad_def short_ad_def long_ad_def tstamp_def
      icb_tag_def stbl_entry_def align_up_def del: One_nat_def)

lemma lvhd_lay:
  "lay i386 (log_vol_hdr_desc i386) = (32, 4)" "lay sparc (log_vol_hdr_desc sparc) = (32, 8)" "lay lp64 (log_vol_hdr_desc lp64) = (32, 8)"
  by (simp_all add: log_vol_hdr_desc_def uint64_t_def lay_scalars align_up_def)

lemmas offset_eval = field_offsets_def offsets_def align_up_def

lemma tag_offsets:
  assumes "A = i386 \<or> A = sparc \<or> A = lp64"
  shows "field_offsets A tag = [0, 2, 4, 5, 6, 8, 10, 12]"
  using scalar_lays [OF assms] basic_lays [OF assms] by (simp add: tag_def offset_eval del: One_nat_def)

lemma charspec_offsets:
  assumes "A = i386 \<or> A = sparc \<or> A = lp64"
  shows "field_offsets A charspec = [0, 1]"
  using scalar_lays [OF assms] basic_lays [OF assms] by (simp add: charspec_def offset_eval del: One_nat_def)

lemma regid_offsets:
  assumes "A = i386 \<or> A = sparc \<or> A = lp64"
  shows "field_offsets A regid = [0, 1, 24]"
  using scalar_lays [OF assms] basic_lays [OF assms] by (simp add: regid_def offset_eval del: One_nat_def)

lemma extent_ad_offsets:
  assumes "A = i386 \<or> A = sparc \<or> A = lp64"
  shows "field_offsets A extent_ad = [0, 4]"
  using scalar_lays [OF assms] basic_lays [OF assms] by (simp add: extent_ad_def offset_eval del: One_nat_def)

lemma short_ad_offsets:
  assumes "A = i386 \<or> A = sparc \<or> A = lp64"
  shows "field_offsets A short_ad = [0, 4]"
  using scalar_lays [OF assms] basic_lays [OF assms] by (simp add: short_ad_def offset_eval del: One_nat_def)

lemma long_ad_offsets:
  assumes "A = i386 \<or> A = sparc \<or> A = lp64"
  shows "field_offsets A long_ad = [0, 4, 8, 10]"
  using scalar_lays [OF assms] basic_lays [OF assms] by (simp add: long_ad_def offset_eval del: One_nat_def)

lemma tstamp_offsets:
  assumes "A = i386 \<or> A = sparc \<or> A = lp64"
  shows "field_offsets A tstamp = [0, 2, 4, 5, 6, 7, 8, 9, 10, 11]"
  using scalar_lays [OF assms] basic_lays [OF assms] by (simp add: tstamp_def offset_eval del: One_nat_def)

lemma icb_tag_offsets:
  assumes "A = i386 \<or> A = sparc \<or> A = lp64"
  shows "field_offsets A icb_tag = [0, 4, 6, 8, 10, 11, 12, 16, 18]"
  using scalar_lays [OF assms] basic_lays [OF assms] by (simp add: icb_tag_def offset_eval del: One_nat_def)

lemma pri_vol_desc_offsets:
  assumes "A = i386 \<or> A = sparc \<or> A = lp64"
  shows "field_offsets A pri_vol_desc = [0, 16, 20, 24, 56, 58, 60, 62, 64, 68, 72, 200, 264, 328, 336, 344, 376,
    388, 420, 484, 488, 490]"
  using scalar_lays [OF assms] basic_lays [OF assms] by (simp add: pri_vol_desc_def offset_eval del: One_nat_def)

lemma anch_vol_desc_ptr_offsets:
  assumes "A = i386 \<or> A = sparc \<or> A = lp64"
  shows "field_offsets A anch_vol_desc_ptr = [0, 16, 24, 32]"
  using scalar_lays [OF assms] basic_lays [OF assms] by (simp add: anch_vol_desc_ptr_def offset_eval del: One_nat_def)

lemma iuvd_desc_offsets:
  assumes "A = i386 \<or> A = sparc \<or> A = lp64"
  shows "field_offsets A iuvd_desc = [0, 16, 20, 52, 116, 244, 280, 316, 352, 384]"
  using scalar_lays [OF assms] basic_lays [OF assms] by (simp add: iuvd_desc_def offset_eval del: One_nat_def)

lemma part_desc_offsets:
  assumes "A = i386 \<or> A = sparc \<or> A = lp64"
  shows "field_offsets A part_desc = [0, 16, 20, 22, 24, 56, 184, 188, 192, 196, 228, 356]"
  using scalar_lays [OF assms] basic_lays [OF assms] by (simp add: part_desc_def offset_eval del: One_nat_def)

lemma log_vol_desc_offsets:
  assumes "A = i386 \<or> A = sparc \<or> A = lp64"
  shows "field_offsets A log_vol_desc = [0, 16, 20, 84, 212, 216, 248, 264, 268, 272, 304, 432, 440]"
  using scalar_lays [OF assms] basic_lays [OF assms] by (simp add: log_vol_desc_def offset_eval del: One_nat_def)

lemma unall_spc_desc_offsets:
  assumes "A = i386 \<or> A = sparc \<or> A = lp64"
  shows "field_offsets A unall_spc_desc = [0, 16, 20, 24]"
  using scalar_lays [OF assms] basic_lays [OF assms] by (simp add: unall_spc_desc_def offset_eval del: One_nat_def)

lemma term_desc_offsets:
  assumes "A = i386 \<or> A = sparc \<or> A = lp64"
  shows "field_offsets A term_desc = [0, 16]"
  using scalar_lays [OF assms] basic_lays [OF assms] by (simp add: term_desc_def offset_eval del: One_nat_def)

lemma log_vol_hdr_desc_offsets:
  assumes "A = i386 \<or> A = sparc \<or> A = lp64"
  shows "field_offsets A (log_vol_hdr_desc A) = [0, 8]"
  using assms basic_lays [OF assms] by (elim disjE; simp add: log_vol_hdr_desc_def uint64_t_def offset_eval lay_scalars lvhd_lay del: One_nat_def)

lemma log_vol_int_desc_offsets:
  assumes "A = i386 \<or> A = sparc \<or> A = lp64"
  shows "field_offsets A (log_vol_int_desc A) = [0, 16, 28, 32, 40, 72, 76, 80]"
  using assms basic_lays [OF assms] by (elim disjE; simp add: log_vol_int_desc_def uint64_t_def offset_eval lay_scalars lvhd_lay del: One_nat_def)

lemma lvid_iu_offsets:
  assumes "A = i386 \<or> A = sparc \<or> A = lp64"
  shows "field_offsets A lvid_iu = [0, 32, 36, 40, 42, 44]"
  using scalar_lays [OF assms] basic_lays [OF assms] by (simp add: lvid_iu_def offset_eval del: One_nat_def)

lemma file_set_desc_offsets:
  assumes "A = i386 \<or> A = sparc \<or> A = lp64"
  shows "field_offsets A file_set_desc = [0, 16, 28, 30, 32, 36, 40, 44, 48, 112, 240, 304, 336, 368, 400, 416, 448,
    464]"
  using scalar_lays [OF assms] basic_lays [OF assms] by (simp add: file_set_desc_def offset_eval del: One_nat_def)

lemma alloc_ext_desc_offsets:
  assumes "A = i386 \<or> A = sparc \<or> A = lp64"
  shows "field_offsets A alloc_ext_desc = [0, 16, 20]"
  using scalar_lays [OF assms] basic_lays [OF assms] by (simp add: alloc_ext_desc_def offset_eval del: One_nat_def)

lemma indirect_entry_offsets:
  assumes "A = i386 \<or> A = sparc \<or> A = lp64"
  shows "field_offsets A indirect_entry = [0, 16, 36]"
  using scalar_lays [OF assms] basic_lays [OF assms] by (simp add: indirect_entry_def offset_eval del: One_nat_def)

lemma term_entry_offsets:
  assumes "A = i386 \<or> A = sparc \<or> A = lp64"
  shows "field_offsets A term_entry = [0, 16]"
  using scalar_lays [OF assms] basic_lays [OF assms] by (simp add: term_entry_def offset_eval del: One_nat_def)

lemma file_entry_offsets:
  assumes "A = i386 \<or> A = sparc \<or> A = lp64"
  shows "field_offsets A (file_entry A) = [0, 16, 36, 40, 44, 48, 50, 51, 52, 56, 64, 72, 84, 96, 108, 112, 128, 160,
    168, 172, 176]"
  using assms basic_lays [OF assms] by (elim disjE; simp add: file_entry_def uint64_t_def offset_eval lay_scalars lvhd_lay del: One_nat_def)

lemma ext_attr_hdr_offsets:
  assumes "A = i386 \<or> A = sparc \<or> A = lp64"
  shows "field_offsets A ext_attr_hdr = [0, 16, 20]"
  using scalar_lays [OF assms] basic_lays [OF assms] by (simp add: ext_attr_hdr_def offset_eval del: One_nat_def)

lemma unall_space_ent_offsets:
  assumes "A = i386 \<or> A = sparc \<or> A = lp64"
  shows "field_offsets A unall_space_ent = [0, 16, 36, 40]"
  using scalar_lays [OF assms] basic_lays [OF assms] by (simp add: unall_space_ent_def offset_eval del: One_nat_def)

lemma space_bmap_desc_offsets:
  assumes "A = i386 \<or> A = sparc \<or> A = lp64"
  shows "field_offsets A space_bmap_desc = [0, 16, 20, 24]"
  using scalar_lays [OF assms] basic_lays [OF assms] by (simp add: space_bmap_desc_def offset_eval del: One_nat_def)

lemma part_int_desc_offsets:
  assumes "A = i386 \<or> A = sparc \<or> A = lp64"
  shows "field_offsets A part_int_desc = [0, 16, 36, 48, 49, 224, 256]"
  using scalar_lays [OF assms] basic_lays [OF assms] by (simp add: part_int_desc_def offset_eval del: One_nat_def)

lemma dev_spec_ear_offsets:
  assumes "A = i386 \<or> A = sparc \<or> A = lp64"
  shows "field_offsets A dev_spec_ear = [0, 4, 5, 8, 12, 16, 20, 24]"
  using scalar_lays [OF assms] basic_lays [OF assms] by (simp add: dev_spec_ear_def offset_eval del: One_nat_def)

lemma ftimes_ear_offsets:
  assumes "A = i386 \<or> A = sparc \<or> A = lp64"
  shows "field_offsets A ftimes_ear = [0, 4, 5, 8, 12, 16, 20]"
  using scalar_lays [OF assms] basic_lays [OF assms] by (simp add: ftimes_ear_def offset_eval del: One_nat_def)

lemma iu_ea_offsets:
  assumes "A = i386 \<or> A = sparc \<or> A = lp64"
  shows "field_offsets A iu_ea = [0, 4, 5, 8, 12, 16, 48]"
  using scalar_lays [OF assms] basic_lays [OF assms] by (simp add: iu_ea_def offset_eval del: One_nat_def)

lemma pmap_typ2_offsets:
  assumes "A = i386 \<or> A = sparc \<or> A = lp64"
  shows "field_offsets A pmap_typ2 = [0, 1, 2, 4, 36, 38, 40, 42, 43, 44, 48]"
  using scalar_lays [OF assms] basic_lays [OF assms] by (simp add: pmap_typ2_def offset_eval del: One_nat_def)

lemma stbl_offsets:
  assumes "A = i386 \<or> A = sparc \<or> A = lp64"
  shows "field_offsets A stbl = [0, 16, 48, 50, 52, 56]"
  using scalar_lays [OF assms] basic_lays [OF assms] by (simp add: stbl_def offset_eval del: One_nat_def)

lemma vol_desc_ptr_offsets:
  assumes "A = i386 \<or> A = sparc \<or> A = lp64"
  shows "field_offsets A vol_desc_ptr = [0, 16, 20, 28]"
  using scalar_lays [OF assms] basic_lays [OF assms] by (simp add: vol_desc_ptr_def offset_eval del: One_nat_def)

lemma file_id_offsets:
  assumes "A = i386 \<or> A = sparc \<or> A = lp64"
  shows "field_offsets A file_id = [0, 16, 18, 19, 20, 36, 38]"
  using scalar_lays [OF assms] basic_lays [OF assms] by (simp add: file_id_def offset_eval del: One_nat_def)

lemma descriptor_sizes:
  assumes "A = i386 \<or> A = sparc \<or> A = lp64"
  shows "size_of A pri_vol_desc = 512" "size_of A anch_vol_desc_ptr = 512" "size_of A vol_desc_ptr = 512" "size_of A iuvd_desc = 512"
    "size_of A part_desc = 512" "size_of A log_vol_desc = 512" "size_of A unall_spc_desc = 512" "size_of A term_desc = 512"
    "size_of A file_set_desc = 512" "size_of A part_int_desc = 512" "size_of A file_id = 40"
    "size_of A unall_space_ent = 524" "size_of A space_bmap_desc = 524" "size_of A alloc_ext_desc = 24"
    "size_of A term_entry = 36" "size_of A indirect_entry = 52" "size_of A ext_attr_hdr = 24"
  using scalar_lays [OF assms] basic_lays [OF assms]
  by (simp_all add: pri_vol_desc_def anch_vol_desc_ptr_def vol_desc_ptr_def iuvd_desc_def part_desc_def log_vol_desc_def unall_spc_desc_def
      term_desc_def file_set_desc_def part_int_desc_def file_id_def unall_space_ent_def space_bmap_desc_def alloc_ext_desc_def
      term_entry_def indirect_entry_def ext_attr_hdr_def align_up_def del: One_nat_def)

lemma wide_sizes:
  assumes "A = i386 \<or> A = sparc \<or> A = lp64"
  shows "size_of A (file_entry A) = 512" "size_of A (log_vol_int_desc A) = 88"
  using assms basic_lays [OF assms]
  by (elim disjE; simp add: file_entry_def log_vol_int_desc_def uint64_t_def lay_scalars lvhd_lay align_up_def del: One_nat_def)+

lemmas udf_offsets = tag_offsets charspec_offsets regid_offsets extent_ad_offsets short_ad_offsets long_ad_offsets
  tstamp_offsets icb_tag_offsets pri_vol_desc_offsets anch_vol_desc_ptr_offsets iuvd_desc_offsets part_desc_offsets
  log_vol_desc_offsets unall_spc_desc_offsets term_desc_offsets log_vol_hdr_desc_offsets log_vol_int_desc_offsets
  lvid_iu_offsets file_set_desc_offsets alloc_ext_desc_offsets indirect_entry_offsets term_entry_offsets
  file_entry_offsets ext_attr_hdr_offsets unall_space_ent_offsets space_bmap_desc_offsets part_int_desc_offsets
  dev_spec_ear_offsets ftimes_ear_offsets iu_ea_offsets pmap_typ2_offsets stbl_offsets

section \<open>Block addresses and directory entries\<close>

text \<open>The word of four bytes, least significant first.\<close>

definition le_word :: "u8 \<Rightarrow> u8 \<Rightarrow> u8 \<Rightarrow> u8 \<Rightarrow> u32" where
  "le_word a b c d = ucast a OR push_bit 8 (ucast b) OR push_bit 16 (ucast c) OR push_bit 24 (ucast d)"

lemma scast_byte: "(scast (b :: u8) :: u32) = ucast b OR (if bit b 7 then NOT (mask 8) else 0)"
proof (rule bit_word_eqI)
  fix n :: nat
  assume n: "n < LENGTH(32)"
  consider "n < 8" | "8 \<le> n" by linarith
  then show "bit (scast b :: u32) n = bit (ucast b OR (if bit b 7 then NOT (mask 8) else 0) :: u32) n"
    using n by cases (auto simp: bit_simps dest: bit_imp_le_length)
qed

lemma push_sign [simp]:
  "push_bit 8 (if s then NOT (mask 8) else 0 :: u32) = (if s then NOT (mask 16) else 0)"
  "push_bit 16 (if s then NOT (mask 8) else 0 :: u32) = (if s then NOT (mask 24) else 0)"
  "push_bit 24 (if s then NOT (mask 8) else 0 :: u32) = 0"
  by (simp_all add: mask_eq_exp_minus_1)

text \<open>C34: A block number is read from its four bytes least significant first, but the bytes are signed: each of the
  first three bytes whose top bit is set also sets every bit above it, and so do both bytes of a partition number.
  The number is right whenever these bits are clear; block 128 is read as a number above four thousand million.\<close>

theorem lba_number_sign:
  "lba_number (a # b # c # d # r) = Some (le_word a b c d OR (if bit a 7 then NOT (mask 8) else 0)
       OR (if bit b 7 then NOT (mask 16) else 0) OR (if bit c 7 then NOT (mask 24) else 0)) \<and>
   lba_prn (a # b # c # d # e # f # r) = Some (ucast e OR push_bit 8 (ucast f) OR (if bit e 7 then NOT (mask 8) else 0)
       OR (if bit f 7 then NOT (mask 16) else 0)) \<and>
   lba_number [0x80, 0, 0, 0, 0, 0] = Some 0xffffff80"
proof (intro conjI)
  show "lba_number (a # b # c # d # r) = Some (le_word a b c d OR (if bit a 7 then NOT (mask 8) else 0)
       OR (if bit b 7 then NOT (mask 16) else 0) OR (if bit c 7 then NOT (mask 24) else 0))"
    unfolding lba_number_def scast_byte push_bit_or push_sign by (simp add: mem_get_def le_word_def ac_simps)
  show "lba_prn (a # b # c # d # e # f # r) = Some (ucast e OR push_bit 8 (ucast f) OR (if bit e 7 then NOT (mask 8) else 0)
       OR (if bit f 7 then NOT (mask 16) else 0))"
    unfolding lba_prn_def scast_byte push_bit_or push_sign by (simp add: mem_get_def ac_simps)
  show "lba_number [0x80, 0, 0, 0, 0, 0] = Some 0xffffff80" by code_simp
qed

text \<open>C40: The size of a directory entry is the size of its fixed part, its implementation use and its name, rounded up
  to a multiple of four, whatever the two lengths are.\<close>

theorem fid_len_least:
  "unat (FID_LEN iulen idlen) = (unat F_LEN + unat iulen + unat idlen + 3) div 4 * 4 \<and> unat F_LEN = 38"
proof -
  have s: "size_of i386 file_id = 40" by (simp add: descriptor_sizes)
  have b: "unat iulen < 2 ^ 16" "unat idlen < 2 ^ 8" using unsigned_less [of iulen] unsigned_less [of idlen] by simp_all
  define w :: u32 where "w = of_nat (41 + unat iulen + unat idlen)"
  have w: "unat w = 41 + unat iulen + unat idlen" using b by (simp add: w_def unat_of_nat take_bit_eq_mod del: of_nat_add)
  have "FID_LEN iulen idlen = w AND NOT (mask 2)" unfolding FID_LEN_def s w_def by (simp add: mask_eq_exp_minus_1 unsigned_ucast_eq ac_simps)
  also have "\<dots> = push_bit 2 (drop_bit 2 w)" by (rule bit_eqI) (auto simp: bit_simps simp flip: add_2_eq_Suc)
  finally have "unat (FID_LEN iulen idlen) = take_bit 32 (push_bit 2 (drop_bit 2 (take_bit 32 (unat w))))"
    by (simp only: unsigned_push_bit_eq unsigned_drop_bit_eq) simp
  also have "\<dots> = unat w div 4 * 4"
    using b unfolding w take_bit_eq_mod push_bit_eq_mult drop_bit_eq_div by simp
  finally have "unat (FID_LEN iulen idlen) = unat w div 4 * 4" .
  then show ?thesis by (simp add: w F_LEN_def s)
qed

text \<open>C33: On targets of either word size and with either alignment of long integers, the fields of every structure whose
  declaration gives offsets in comments stand at these offsets, 34 structures in all, with one exception: the reserved area of a
  volume descriptor pointer stands at offset 28, where the comment has 26. (The last field of a directory entry has no
  comment; the two fields of a block address exist in a comment only and are read by macros.) Eleven descriptors take the 512 bytes of a sector, the unallocated space entry and the space bitmap descriptor
  524, and the sizes of the shorter ones are 88, 24, 36, 52, 24 and 40.\<close>

theorem udf_offsets_match:
  assumes "A = i386 \<or> A = sparc \<or> A = lp64"
  shows "field_offsets A tag = [0, 2, 4, 5, 6, 8, 10, 12] \<and>
    field_offsets A charspec = [0, 1] \<and>
    field_offsets A regid = [0, 1, 24] \<and>
    field_offsets A extent_ad = [0, 4] \<and>
    field_offsets A short_ad = [0, 4] \<and>
    field_offsets A long_ad = [0, 4, 8, 10] \<and>
    field_offsets A tstamp = [0, 2, 4, 5, 6, 7, 8, 9, 10, 11] \<and>
    field_offsets A icb_tag = [0, 4, 6, 8, 10, 11, 12, 16, 18] \<and>
    field_offsets A pri_vol_desc = [0, 16, 20, 24, 56, 58, 60, 62, 64, 68, 72, 200, 264, 328, 336, 344, 376,
      388, 420, 484, 488, 490] \<and>
    field_offsets A anch_vol_desc_ptr = [0, 16, 24, 32] \<and>
    field_offsets A iuvd_desc = [0, 16, 20, 52, 116, 244, 280, 316, 352, 384] \<and>
    field_offsets A part_desc = [0, 16, 20, 22, 24, 56, 184, 188, 192, 196, 228, 356] \<and>
    field_offsets A log_vol_desc = [0, 16, 20, 84, 212, 216, 248, 264, 268, 272, 304, 432, 440] \<and>
    field_offsets A unall_spc_desc = [0, 16, 20, 24] \<and>
    field_offsets A term_desc = [0, 16] \<and>
    field_offsets A (log_vol_hdr_desc A) = [0, 8] \<and>
    field_offsets A (log_vol_int_desc A) = [0, 16, 28, 32, 40, 72, 76, 80] \<and>
    field_offsets A lvid_iu = [0, 32, 36, 40, 42, 44] \<and>
    field_offsets A file_set_desc = [0, 16, 28, 30, 32, 36, 40, 44, 48, 112, 240, 304, 336, 368, 400, 416, 448,
      464] \<and>
    field_offsets A alloc_ext_desc = [0, 16, 20] \<and>
    field_offsets A indirect_entry = [0, 16, 36] \<and>
    field_offsets A term_entry = [0, 16] \<and>
    field_offsets A (file_entry A) = [0, 16, 36, 40, 44, 48, 50, 51, 52, 56, 64, 72, 84, 96, 108, 112, 128, 160,
      168, 172, 176] \<and>
    field_offsets A ext_attr_hdr = [0, 16, 20] \<and>
    field_offsets A unall_space_ent = [0, 16, 36, 40] \<and>
    field_offsets A space_bmap_desc = [0, 16, 20, 24] \<and>
    field_offsets A part_int_desc = [0, 16, 36, 48, 49, 224, 256] \<and>
    field_offsets A dev_spec_ear = [0, 4, 5, 8, 12, 16, 20, 24] \<and>
    field_offsets A ftimes_ear = [0, 4, 5, 8, 12, 16, 20] \<and>
    field_offsets A iu_ea = [0, 4, 5, 8, 12, 16, 48] \<and>
    field_offsets A pmap_typ2 = [0, 1, 2, 4, 36, 38, 40, 42, 43, 44, 48] \<and>
    field_offsets A stbl = [0, 16, 48, 50, 52, 56] \<and>
    field_offsets A file_id = [0, 16, 18, 19, 20, 36, 38] \<and> field_offsets A vol_desc_ptr = [0, 16, 20, 28] \<and>
    size_of A pri_vol_desc = 512 \<and> size_of A anch_vol_desc_ptr = 512 \<and> size_of A vol_desc_ptr = 512 \<and>
    size_of A iuvd_desc = 512 \<and> size_of A part_desc = 512 \<and> size_of A log_vol_desc = 512 \<and>
    size_of A unall_spc_desc = 512 \<and> size_of A term_desc = 512 \<and> size_of A file_set_desc = 512 \<and>
    size_of A part_int_desc = 512 \<and> size_of A (file_entry A) = 512 \<and>
    size_of A unall_space_ent = 524 \<and> size_of A space_bmap_desc = 524 \<and>
    size_of A (log_vol_int_desc A) = 88 \<and> size_of A alloc_ext_desc = 24 \<and> size_of A term_entry = 36 \<and>
    size_of A indirect_entry = 52 \<and> size_of A ext_attr_hdr = 24 \<and> size_of A file_id = 40"
  by (intro conjI udf_offsets [OF assms] file_id_offsets [OF assms] vol_desc_ptr_offsets [OF assms] descriptor_sizes [OF assms]
      wide_sizes [OF assms])

theorem udf_offsets_match_witness:
  "(i386 = i386 \<or> i386 = sparc \<or> i386 = lp64) \<and> field_offsets i386 tag = [0, 2, 4, 5, 6, 8, 10, 12] \<and>
   field_offsets i386 file_id = [0, 16, 18, 19, 20, 36, 38] \<and> field_offsets i386 vol_desc_ptr = [0, 16, 20, 28]"
  using udf_offsets_match [of i386] by blast

end
