(* ===== verification/Spec2Isabelle.thy ===== *)
theory Spec2Isabelle
  imports SysvPrelude Crc32 RegexpPattern Sysmacros Des Ufs Flock RockRidge Elf Udf
begin

text \<open>
  Verification library for the System V development headers under \<^verbatim>\<open>src/include\<close>.

  \<^bold>\<open>The program.\<close> The repository is a set of C headers. Most of them only declare what a
  library or a kernel defines. The code they do contain has four forms: function bodies in a header
  (\<^verbatim>\<open>regexp.h\<close>), function-like macros, tables, and structures that leave the program that
  compiled them because they are stored on a disk, in an object file or in an ioctl argument. These are
  what the development models. A function or macro is one definition with the name of the source; groups
  of one-line macros that differ only in a number are one function on a datatype of their names, as
  \<^verbatim>\<open>HSV_field\<close> for the \<^verbatim>\<open>HSV_*\<close> address macros.

  \<^bold>\<open>Conventions\<close> (\<^verbatim>\<open>SysvPrelude\<close>, \<^verbatim>\<open>Layout\<close>). Integers are words of
  the width they have on the target, a little-endian i386 with 32-bit \<open>long\<close>; arithmetic wraps.
  Arrays are lists, pointers into them are indices, and an access outside them has no result:
  \<open>None\<close>, or \<open>Fault\<close> in the regular expression code. A structure declaration is a value of
  \<open>ctype\<close>, from which size, alignment and field offsets are computed for three targets: i386, 32-bit
  SPARC and LP64.

  \<^bold>\<open>Components, in the order of the imports.\<close>

  \<^descr> \<^verbatim>\<open>Crc32\<close> (\<^verbatim>\<open>sys/crc32.h\<close>): the macros \<open>CRC32_INIT\<close>, \<open>CRC32\<close> and
    \<open>CRC32_STRING\<close> and the constant table. The table-driven form equals the bit-serial one for every
    polynomial, the shipped table is the one \<open>CRC32_INIT\<close> computes, and every burst of at most 32
    bits is detected.

  \<^descr> \<^verbatim>\<open>Regexp\<close>, \<^verbatim>\<open>RegexpMatch\<close>, \<^verbatim>\<open>RegexpCompile\<close>,
    \<^verbatim>\<open>RegexpPattern\<close> (\<^verbatim>\<open>regexp.h\<close>): \<open>compile\<close>, \<open>step\<close>,
    \<open>advance\<close>, \<open>getrnge\<close> and the global variables. The client macros \<open>GETC\<close>,
    \<open>PEEKC\<close> and \<open>UNGETC\<close> are parameters; the locale \<open>pattern_source\<close> states what the
    code needs of them, and its interpretation \<open>text_source\<close> reads a text in memory. \<open>step\<close>
    finds the leftmost match with greedy repetitions on every well-formed program; \<open>compile\<close> ends on
    every pattern and stores nothing beyond \<open>endbuf\<close>; on the text of a pattern it gives the encoding
    of that pattern; and the composition searches for it. A starred back-reference to an empty group
    is shown not to end, in any program and after compiling a pattern that has one.

  \<^descr> \<^verbatim>\<open>Sysmacros\<close> (\<^verbatim>\<open>sys/sysmacros.h\<close>, \<^verbatim>\<open>sys/param.h\<close>,
    \<^verbatim>\<open>sys/byteorder.h\<close>): rounding and alignment, device number packing, units of disk and page,
    byte swaps.

  \<^descr> \<^verbatim>\<open>Ioccom\<close> and \<^verbatim>\<open>Des\<close> (\<^verbatim>\<open>sys/ioccom.h\<close>,
    \<^verbatim>\<open>des/desdata.h\<close>, \<^verbatim>\<open>des/softdes.h\<close>, \<^verbatim>\<open>des/des.h\<close>): command words
    and how they decode; every table of the software DES, with what makes it a DES table: inverse
    permutations, the key schedule, the expansion by table lookup, and the design criteria of the S-boxes.

  \<^descr> \<^verbatim>\<open>Bitmap\<close> and \<^verbatim>\<open>Ufs\<close> (\<^verbatim>\<open>sys/bitmap.h\<close>,
    \<^verbatim>\<open>sys/fs/ufs_fs.h\<close>, \<^verbatim>\<open>sys/fs/ufs_inode.h\<close>, \<^verbatim>\<open>sys/fs/ufs_fsdir.h\<close>): the
    locale \<open>bitset\<close> is the contract of a bit map as a finite set, met by the word maps and by the
    byte maps of the cylinder groups; the superblock as a record, its consistency condition, and the address
    macros, which under it divide and round as their comments say and give different inodes different places.

  \<^descr> \<^verbatim>\<open>Flock\<close> (\<^verbatim>\<open>sys/flock_impl.h\<close>): lock descriptors, edges and graphs in an
    explicit store. The locale \<open>linked\<close> holds the lemmas on circular lists once for the three lists
    that share the code's scheme. \<open>flk_set_state\<close> is a function outside the headers and a parameter of
    which nothing is assumed; the table of state transitions is a comment of the header and is not modelled.

  \<^descr> \<^verbatim>\<open>HsfsSpec\<close>, \<^verbatim>\<open>HsfsIso\<close>, \<^verbatim>\<open>RockRidge\<close>
    (\<^verbatim>\<open>sys/fs/hsfs_spec.h\<close>, \<^verbatim>\<open>hsfs_isospec.h\<close>, \<^verbatim>\<open>hsfs_susp.h\<close>,
    \<^verbatim>\<open>hsfs_rrip.h\<close>): the accessors of volume descriptors, directory records and path tables of
    both disc formats and of their extension fields. The fields tile the record, a record and the dates
    written by the standard are read back, and the bits of the implemented extensions are again a \<open>bitset\<close>.

  \<^descr> \<^verbatim>\<open>Elf\<close> and \<^verbatim>\<open>Udf\<close> (\<^verbatim>\<open>sys/elf.h\<close>,
    \<^verbatim>\<open>sys/elftypes.h\<close>, \<^verbatim>\<open>sys/fs/udf_volume.h\<close>): file and disc structures, whose
    layouts are compared with the prescribed sizes and with the offsets in the comments, and the macros on
    information words, block addresses and directory entries.

  \<^bold>\<open>Fuel.\<close> \<open>advance\<close>, the loops of \<open>compile\<close> and the search
  \<open>SET_LOCK_TO_FIRST_SLEEP_VP\<close> take a bound on their iterations, and exhausting it is a value of its
  own. The theorems on them state that a computed amount of fuel gives a result: for the matcher and the
  compiler it is given by the lengths of program and text, and for the queue it is one test per lock and one
  more. The other loops are structural recursion.

  \<^bold>\<open>Where the code differs from its purpose.\<close> The statements include the cases where a macro does
  not do what it is for: the date accessors of ISO volume descriptors read the other format's offsets
  (\<^verbatim>\<open>hsfs_isospec.h\<close>), the two integers of an ISO path table entry are read in opposite byte
  orders, block numbers of UDF are built from signed bytes, move entries of object files have different
  sizes on different targets and their 64-bit packing loses bits of a 32-bit symbol number, the size of a
  bit map wraps to zero for the largest bit counts, and \<^verbatim>\<open>expdev\<close> turns \<^verbatim>\<open>NODEV\<close> into a valid device.

  \<^bold>\<open>Not modelled.\<close> Headers that only declare functions, constants or the in-core state of a
  kernel (processes, vnodes, streams, virtual memory, protocols, drivers, remote calls, security mechanisms):
  the code that gives them meaning is not in the repository. Macros that take locks or follow pointers to
  such state. The big-endian variants of macros, but for the SPARC integer macros of
  \<^verbatim>\<open>hsfs_spec.h\<close> and the DES storage unit. The interface definitions for \<^verbatim>\<open>rpcgen\<close>,
  the assembly files, the patches and the file lists. Constants without behaviour.
\<close>

end
